(* ===== verification/Prelude.thy ===== *)
theory Prelude
  imports Complex_Main "HOL-Library.Word"
begin

text \<open>
  What the components share: the widths of the machine integers, the C conversions
  between them, the environment of a process, and the parts of the C and C++ string
  library the code calls (character classes, \<open>strtol\<close> and its relatives,
  \<open>std::to_string\<close>, substring search), with the facts about them that the component
  proofs use.
\<close>

section \<open>Collections of facts\<close>

named_theorems frame_simps \<open>fields an operation leaves as they are\<close>
named_theorems inv_intros \<open>operations keep the invariant of their component\<close>

section \<open>Machine integers\<close>

type_synonym u32 = "32 word"
type_synonym u64 = "64 word"

text \<open>The signed 32 and 64 bit types are \<open>int\<close> with the conversion written out.\<close>

definition wrap32 :: "int \<Rightarrow> int" where
  "wrap32 i = (i + 2 ^ 31) mod 2 ^ 32 - 2 ^ 31"

definition wrap64 :: "int \<Rightarrow> int" where
  "wrap64 i = (i + 2 ^ 63) mod 2 ^ 64 - 2 ^ 63"

definition size_of_int :: "int \<Rightarrow> u64" where
  "size_of_int i = word_of_int i"

definition int_of_size :: "u64 \<Rightarrow> int" where
  "int_of_size w = wrap32 (uint w)"

text \<open>Integer division of C truncates towards zero.\<close>

definition cdiv :: "int \<Rightarrow> int \<Rightarrow> int" where
  "cdiv a b = sgn a * sgn b * (\<bar>a\<bar> div \<bar>b\<bar>)"

lemma wrap32_id: "- (2 ^ 31) \<le> i \<Longrightarrow> i < 2 ^ 31 \<Longrightarrow> wrap32 i = i"
  by (simp add: wrap32_def)

lemma wrap32_bounds: "- (2 ^ 31) \<le> wrap32 i" "wrap32 i < 2 ^ 31"
  using pos_mod_bound [of "2 ^ 32" "i + 2 ^ 31"] pos_mod_sign [of "2 ^ 32" "i + 2 ^ 31"]
  by (simp_all add: wrap32_def)

lemma wrap64_id: "- (2 ^ 63) \<le> i \<Longrightarrow> i < 2 ^ 63 \<Longrightarrow> wrap64 i = i"
  by (simp add: wrap64_def)

lemma unat_size_of_int: "0 \<le> i \<Longrightarrow> i < 2 ^ 64 \<Longrightarrow> unat (size_of_int i) = nat i"
  by (simp add: size_of_int_def unat_eq_nat_uint uint_word_of_int)

section \<open>Characters and strings\<close>

type_synonym environment = "string \<Rightarrow> string option"

definition isdigit :: "char \<Rightarrow> bool" where
  "isdigit c \<longleftrightarrow> 48 \<le> (of_char c :: nat) \<and> (of_char c :: nat) \<le> 57"

definition isspace :: "char \<Rightarrow> bool" where
  "isspace c \<longleftrightarrow> (of_char c :: nat) = 32 \<or> 9 \<le> (of_char c :: nat) \<and> (of_char c :: nat) \<le> 13"

definition tolower :: "char \<Rightarrow> char" where
  "tolower c = (if 65 \<le> (of_char c :: nat) \<and> (of_char c :: nat) \<le> 90
                then char_of ((of_char c :: nat) + 32) else c)"

definition digit :: "nat \<Rightarrow> char" where
  "digit d = char_of (48 + d)"

fun show_nat :: "nat \<Rightarrow> string" where
  "show_nat n = (if n < 10 then [digit n] else show_nat (n div 10) @ [digit (n mod 10)])"

declare show_nat.simps [simp del]

definition show_int :: "int \<Rightarrow> string" where
  "show_int i = (if i < 0 then ''-'' @ show_nat (nat (- i)) else show_nat (nat i))"

definition digits_val :: "string \<Rightarrow> nat" where
  "digits_val = foldl (\<lambda>a c. 10 * a + (of_char c - 48)) 0"

text \<open>
  The scan common to \<open>strtol\<close>, \<open>strtoul\<close> and the \<open>sto\<close> functions in base 10: leading
  white space, an optional sign, the longest run of digits. \<open>None\<close> when there is no digit;
  otherwise the sign, the magnitude and the unread rest.
\<close>

definition scan_sign :: "string \<Rightarrow> bool \<times> string" where
  "scan_sign t = (case t of [] \<Rightarrow> (False, [])
     | c # cs \<Rightarrow> if c = CHR ''-'' then (True, cs)
                 else if c = CHR ''+'' then (False, cs) else (False, t))"

definition scan_number :: "string \<Rightarrow> (bool \<times> nat \<times> string) option" where
  "scan_number s =
     (case scan_sign (dropWhile isspace s) of (neg, u) \<Rightarrow>
        let ds = takeWhile isdigit u
        in if ds = [] then None else Some (neg, digits_val ds, dropWhile isdigit u))"

text \<open>
  \<open>strtol (s, &end, 10)\<close> returns the value clamped to \<open>long\<close> and the rest at \<open>end\<close>, and
  leaves \<open>end\<close> at \<open>s\<close> when nothing was converted; \<open>strtoul\<close> negates modulo \<open>2 ^ 64\<close>.
\<close>

definition strtol10 :: "string \<Rightarrow> int \<times> string" where
  "strtol10 s = (case scan_number s of None \<Rightarrow> (0, s)
     | Some (neg, v, rest) \<Rightarrow>
         (max (- (2 ^ 63)) (min (2 ^ 63 - 1) (if neg then - int v else int v)), rest))"

definition strtoul10 :: "string \<Rightarrow> u64 \<times> string" where
  "strtoul10 s = (case scan_number s of None \<Rightarrow> (0, s)
     | Some (neg, v, rest) \<Rightarrow>
         (if 2 ^ 64 \<le> v then - 1 else if neg then - of_nat v else of_nat v, rest))"

datatype parse_error = InvalidArgument | OutOfRange

definition stoi :: "string \<Rightarrow> parse_error + int" where
  "stoi s = (case scan_number s of None \<Rightarrow> Inl InvalidArgument
     | Some (neg, v, rest) \<Rightarrow>
         (let i = (if neg then - int v else int v)
          in if - (2 ^ 31) \<le> i \<and> i < 2 ^ 31 then Inr i else Inl OutOfRange))"

definition stoll :: "string \<Rightarrow> parse_error + int" where
  "stoll s = (case scan_number s of None \<Rightarrow> Inl InvalidArgument
     | Some (neg, v, rest) \<Rightarrow>
         (let i = (if neg then - int v else int v)
          in if - (2 ^ 63) \<le> i \<and> i < 2 ^ 63 then Inr i else Inl OutOfRange))"

definition stoull :: "string \<Rightarrow> parse_error + u64" where
  "stoull s = (case scan_number s of None \<Rightarrow> Inl InvalidArgument
     | Some (neg, v, rest) \<Rightarrow>
         (if 2 ^ 64 \<le> v then Inl OutOfRange else Inr (if neg then - of_nat v else of_nat v)))"

text \<open>\<open>s.find (t) != npos\<close> and \<open>s.find (t) == 0\<close>.\<close>

fun is_prefix :: "string \<Rightarrow> string \<Rightarrow> bool" where
  "is_prefix [] s = True"
| "is_prefix (c # cs) [] = False"
| "is_prefix (c # cs) (d # ds) = (c = d \<and> is_prefix cs ds)"

fun has_substring :: "string \<Rightarrow> string \<Rightarrow> bool" where
  "has_substring t [] = (t = [])"
| "has_substring t (c # cs) = (is_prefix t (c # cs) \<or> has_substring t cs)"

lemma of_char_digit: "d < 10 \<Longrightarrow> (of_char (digit d) :: nat) = 48 + d"
  by (simp add: digit_def)

lemma digit_simps:
  "digit 0 = CHR ''0''" "digit 1 = CHR ''1''" "digit (Suc 0) = CHR ''1''" "digit 2 = CHR ''2''"
  "digit 3 = CHR ''3''" "digit 4 = CHR ''4''" "digit 5 = CHR ''5''" "digit 6 = CHR ''6''"
  "digit 7 = CHR ''7''" "digit 8 = CHR ''8''" "digit 9 = CHR ''9''"
  by (simp_all add: digit_def char_of_def bit_0)

lemma isdigit_digit [simp]: "d < 10 \<Longrightarrow> isdigit (digit d)"
  by (simp add: isdigit_def of_char_digit)

lemma isdigit_not_space: "isdigit c \<Longrightarrow> \<not> isspace c"
  by (simp add: isdigit_def isspace_def)

lemma isdigit_not_sign: "isdigit c \<Longrightarrow> c \<noteq> CHR ''-'' \<and> c \<noteq> CHR ''+''"
  by (auto simp: isdigit_def)

lemma digits_val_snoc: "digits_val (s @ [c]) = 10 * digits_val s + (of_char c - 48)"
  by (simp add: digits_val_def)

lemma show_nat_nonempty: "show_nat n \<noteq> []"
  by (subst show_nat.simps) simp

lemma show_nat_digits: "\<forall>c \<in> set (show_nat n). isdigit c"
proof (induction n rule: show_nat.induct)
  case (1 n)
  then show ?case by (cases "n < 10") (auto simp: show_nat.simps [of n])
qed

lemma digits_val_show_nat: "digits_val (show_nat n) = n"
proof (induction n rule: show_nat.induct)
  case (1 n)
  show ?case
  proof (cases "n < 10")
    case True
    then show ?thesis by (simp add: show_nat.simps [of n] digits_val_def of_char_digit)
  next
    case False
    with 1 show ?thesis by (simp add: show_nat.simps [of n] digits_val_snoc of_char_digit)
  qed
qed

lemma scan_number_digits:
  assumes "ds \<noteq> []" "\<forall>c \<in> set ds. isdigit c" and "\<And>c cs. rest = c # cs \<Longrightarrow> \<not> isdigit c"
  shows "scan_number (ds @ rest) = Some (False, digits_val ds, rest)"
proof -
  obtain d es where ds: "ds = d # es" using assms(1) by (cases ds) auto
  then have d: "isdigit d" using assms(2) by simp
  have tw: "takeWhile isdigit (ds @ rest) = ds" "dropWhile isdigit (ds @ rest) = rest"
    using assms(2,3) by (cases rest; simp add: takeWhile_append dropWhile_append)+
  have "dropWhile isspace (ds @ rest) = ds @ rest" using d isdigit_not_space by (simp add: ds)
  moreover have "scan_sign (ds @ rest) = (False, ds @ rest)"
    using isdigit_not_sign [OF d] by (simp add: scan_sign_def ds)
  ultimately show ?thesis using assms(1) tw by (simp add: scan_number_def Let_def)
qed

lemma scan_number_show_nat: "scan_number (show_nat n) = Some (False, n, [])"
  using scan_number_digits [of "show_nat n" "[]"]
  by (simp add: show_nat_nonempty show_nat_digits digits_val_show_nat)

lemma strtol10_show_nat: "n < 2 ^ 63 \<Longrightarrow> strtol10 (show_nat n) = (int n, [])"
  by (simp add: strtol10_def scan_number_show_nat)

lemma strtoul10_show_nat: "n < 2 ^ 64 \<Longrightarrow> strtoul10 (show_nat n) = (of_nat n, [])"
  by (simp add: strtoul10_def scan_number_show_nat)

lemma stoull_show_nat: "n < 2 ^ 64 \<Longrightarrow> stoull (show_nat n) = Inr (of_nat n)"
  by (simp add: stoull_def scan_number_show_nat)

lemma scan_number_shorter: "scan_number s = Some (neg, v, rest) \<Longrightarrow> length rest < length s"
proof -
  assume a: "scan_number s = Some (neg, v, rest)"
  define u where "u = snd (scan_sign (dropWhile isspace s))"
  have "length u \<le> length s"
    unfolding u_def scan_sign_def
    using length_dropWhile_le [of isspace s] by (auto split: list.splits)
  moreover from a have "rest = dropWhile isdigit u" "takeWhile isdigit u \<noteq> []"
    by (auto simp: scan_number_def u_def Let_def split: prod.splits if_splits)
  moreover have "length u = length (takeWhile isdigit u) + length (dropWhile isdigit u)"
    by (metis length_append takeWhile_dropWhile_id)
  ultimately show ?thesis by (cases "takeWhile isdigit u") auto
qed

section \<open>Status of a remote call, outcome of a task\<close>

text \<open>\<open>grpc::StatusCode\<close> as far as the code names it, and \<open>grpc::Status\<close>.\<close>

datatype StatusCode = OK | INVALID_ARGUMENT | DEADLINE_EXCEEDED | NOT_FOUND
  | RESOURCE_EXHAUSTED | UNAVAILABLE | INTERNAL | UNAUTHENTICATED

type_synonym grpc_Status = "StatusCode \<times> string"

abbreviation status_OK :: grpc_Status where "status_OK \<equiv> (OK, [])"

definition ok :: "grpc_Status \<Rightarrow> bool" where
  "ok s \<longleftrightarrow> fst s = OK"

text \<open>A C++ exception: one derived from \<open>std::exception\<close>, with its \<open>what ()\<close>, or another.\<close>

datatype exn = StdException string | UnknownException

datatype outcome = Returned | Threw

text \<open>A call that returns a value, lets an exception out, or has undefined behaviour.\<close>

datatype 'a run = Returns 'a | Throws | Undefined

text \<open>What one iteration of a loop does: go round again or leave.\<close>

datatype 'a loop_step = Again 'a | Exit 'a

section \<open>Lists\<close>

lemma nth_list_update_cases: "i < length xs \<Longrightarrow> xs[i := x] ! j = (if i = j then x else xs ! j)"
  by (cases "i = j") auto

lemma filter_length_keep:
  assumes "i < length xs" "P (xs ! i)" "P x"
  shows "length (filter P (xs[i := x])) = length (filter P xs)"
proof -
  have "length (filter P xs) = length (filter P (take i xs @ xs ! i # drop (Suc i) xs))"
    using id_take_nth_drop [OF assms(1)] by simp
  moreover have "length (filter P (xs[i := x])) = length (filter P (take i xs @ x # drop (Suc i) xs))"
    using upd_conv_take_nth_drop [OF assms(1)] by simp
  ultimately show ?thesis using assms(2,3) by simp
qed

lemma filter_length_update:
  assumes "i < length xs" "P (xs ! i)" "\<not> P x"
  shows "Suc (length (filter P (xs[i := x]))) = length (filter P xs)"
proof -
  have "length (filter P xs) = length (filter P (take i xs @ xs ! i # drop (Suc i) xs))"
    using id_take_nth_drop [OF assms(1)] by simp
  moreover have "length (filter P (xs[i := x])) = length (filter P (take i xs @ x # drop (Suc i) xs))"
    using upd_conv_take_nth_drop [OF assms(1)] by simp
  ultimately show ?thesis using assms(2,3) by simp
qed

end
