(* ===== verification/Floats.thy ===== *)
theory Floats
  imports Prelude
begin

text \<open>
  Floating point. The C++ code computes scores, rates and percentages in \<open>float\<close>
  (IEEE binary32) and \<open>double\<close> (IEEE binary64). A floating value is \<^emph>\<open>not a
  number\<close>, an infinity or a finite rational, and every arithmetic operation rounds its
  exact rational result to the nearest value of its format, ties to even, with subnormal
  numbers and with overflow to infinity. The two zeros are one value here: no modelled
  function divides by a zero whose sign could be negative.

  \<^item> \<open>rnd\<close> is the rounding function of a format, built from the binary logarithm
    \<open>ilog2\<close>, the quantum exponent \<open>qexp\<close> and \<open>round_even\<close>;
  \<^item> \<open>fadd\<close>, \<open>fsub\<close>, \<open>fmul\<close>, \<open>fdiv\<close> take the rounding function as an argument, so
    one definition serves both formats; \<open>fle\<close>, \<open>flt\<close>, \<open>feq\<close> are the C comparisons,
    false as soon as an operand is not a number;
  \<^item> the locale \<open>rounding\<close> states what the arithmetic lemmas need of a rounding function
    (it is monotone, returns a number and keeps small integers); it is interpreted on
    both formats.
\<close>

section \<open>Rounding\<close>

function ilog :: "int \<Rightarrow> int" where
  "ilog n = (if n < 2 then 0 else 1 + ilog (n div 2))"
  by pat_completeness auto
termination
  by (relation "measure nat") auto

declare ilog.simps [simp del]

definition ilog2 :: "rat \<Rightarrow> int" where
  "ilog2 x = (if 1 \<le> x then ilog \<lfloor>x\<rfloor> else - (1 + ilog (\<lceil>1 / x\<rceil> - 1)))"

definition round_even :: "rat \<Rightarrow> int" where
  "round_even x =
     (let f = \<lfloor>x\<rfloor>; r = x - of_int f
      in if r < 1 / 2 then f else if 1 / 2 < r then f + 1
         else if even f then f else f + 1)"

record format =
  prec :: nat
  qmin :: int
  emax :: int

definition binary32 :: format where
  "binary32 = \<lparr>prec = 24, qmin = - 149, emax = 128\<rparr>"

definition binary64 :: format where
  "binary64 = \<lparr>prec = 53, qmin = - 1074, emax = 1024\<rparr>"

definition qexp :: "format \<Rightarrow> rat \<Rightarrow> int" where
  "qexp f x = max (ilog2 \<bar>x\<bar> - int (prec f) + 1) (qmin f)"

definition rnd_fin :: "format \<Rightarrow> rat \<Rightarrow> rat" where
  "rnd_fin f x =
     (if x = 0 then 0
      else of_int (round_even (x / 2 powi qexp f x)) * 2 powi qexp f x)"

section \<open>Values and operations\<close>

datatype fp = NaN | NInf | Fin rat | PInf

fun fle :: "fp \<Rightarrow> fp \<Rightarrow> bool" where
  "fle NaN b = False"
| "fle a NaN = False"
| "fle NInf b = True"
| "fle a PInf = True"
| "fle (Fin x) (Fin y) = (x \<le> y)"
| "fle a b = False"

definition flt :: "fp \<Rightarrow> fp \<Rightarrow> bool" where
  "flt a b \<longleftrightarrow> a \<noteq> NaN \<and> b \<noteq> NaN \<and> \<not> fle b a"

definition feq :: "fp \<Rightarrow> fp \<Rightarrow> bool" where
  "feq a b \<longleftrightarrow> a \<noteq> NaN \<and> a = b"

definition rnd :: "format \<Rightarrow> rat \<Rightarrow> fp" where
  "rnd f x =
     (let y = rnd_fin f x
      in if 2 powi emax f \<le> y then PInf
         else if y \<le> - (2 powi emax f) then NInf else Fin y)"

fun fneg :: "fp \<Rightarrow> fp" where
  "fneg NaN = NaN"
| "fneg NInf = PInf"
| "fneg PInf = NInf"
| "fneg (Fin x) = Fin (- x)"

fun fadd :: "(rat \<Rightarrow> fp) \<Rightarrow> fp \<Rightarrow> fp \<Rightarrow> fp" where
  "fadd rn NaN b = NaN"
| "fadd rn a NaN = NaN"
| "fadd rn (Fin x) (Fin y) = rn (x + y)"
| "fadd rn (Fin x) b = b"
| "fadd rn a (Fin y) = a"
| "fadd rn a b = (if a = b then a else NaN)"

definition fsub :: "(rat \<Rightarrow> fp) \<Rightarrow> fp \<Rightarrow> fp \<Rightarrow> fp" where
  "fsub rn a b = fadd rn a (fneg b)"

definition signed_inf :: "rat \<Rightarrow> fp" where
  "signed_inf s = (if s < 0 then NInf else PInf)"

fun fmul :: "(rat \<Rightarrow> fp) \<Rightarrow> fp \<Rightarrow> fp \<Rightarrow> fp" where
  "fmul rn NaN b = NaN"
| "fmul rn a NaN = NaN"
| "fmul rn (Fin x) (Fin y) = rn (x * y)"
| "fmul rn (Fin x) PInf = (if x = 0 then NaN else signed_inf x)"
| "fmul rn (Fin x) NInf = (if x = 0 then NaN else signed_inf (- x))"
| "fmul rn PInf (Fin y) = (if y = 0 then NaN else signed_inf y)"
| "fmul rn NInf (Fin y) = (if y = 0 then NaN else signed_inf (- y))"
| "fmul rn a b = (if a = b then PInf else NInf)"

fun fdiv :: "(rat \<Rightarrow> fp) \<Rightarrow> fp \<Rightarrow> fp \<Rightarrow> fp" where
  "fdiv rn NaN b = NaN"
| "fdiv rn a NaN = NaN"
| "fdiv rn (Fin x) (Fin y) =
     (if y = 0 then (if x = 0 then NaN else signed_inf x) else rn (x / y))"
| "fdiv rn PInf (Fin y) = signed_inf y"
| "fdiv rn NInf (Fin y) = signed_inf (if y < 0 then 1 else - 1)"
| "fdiv rn (Fin x) b = Fin 0"
| "fdiv rn a b = NaN"

text \<open>Conversions: an integer or a double to a format rounds; a float to a double is exact.\<close>

abbreviation f32 :: "rat \<Rightarrow> fp" where "f32 \<equiv> rnd binary32"

abbreviation f64 :: "rat \<Rightarrow> fp" where "f64 \<equiv> rnd binary64"

fun to_f32 :: "fp \<Rightarrow> fp" where
  "to_f32 (Fin x) = f32 x"
| "to_f32 a = a"

definition f64_of_u64 :: "u64 \<Rightarrow> fp" where
  "f64_of_u64 w = f64 (of_nat (unat w))"

definition f64_of_int :: "int \<Rightarrow> fp" where
  "f64_of_int i = f64 (of_int i)"

definition f32_of_u64 :: "u64 \<Rightarrow> fp" where
  "f32_of_u64 w = f32 (of_nat (unat w))"

definition f32_of_int :: "int \<Rightarrow> fp" where
  "f32_of_int i = f32 (of_int i)"

text \<open>\<open>static_cast<int64_t>\<close> of a double truncates; outside the range it is undefined.\<close>

fun trunc_i64 :: "fp \<Rightarrow> int option" where
  "trunc_i64 (Fin x) =
     (let t = (if x < 0 then \<lceil>x\<rceil> else \<lfloor>x\<rfloor>)
      in if - (2 ^ 63) \<le> t \<and> t < 2 ^ 63 then Some t else None)"
| "trunc_i64 a = None"

text \<open>\<open>std::abs\<close> on a floating value.\<close>

definition fabs :: "fp \<Rightarrow> fp" where
  "fabs a = (if flt a (Fin 0) then fneg a else a)"

section \<open>Rounding is monotone\<close>

lemma powi_two_int: "0 \<le> k \<Longrightarrow> (2::rat) powi k = of_int (2 ^ nat k)"
  by (simp add: power_int_def)

lemma ilog_nonneg: "0 \<le> ilog n"
proof (induction n rule: ilog.induct)
  case (1 n)
  then show ?case by (cases "n < 2") (simp_all add: ilog.simps [of n])
qed

lemma ilog_bounds: "0 < n \<Longrightarrow> 2 ^ nat (ilog n) \<le> n \<and> n < 2 ^ nat (ilog n + 1)"
proof (induction n rule: ilog.induct)
  case (1 n)
  show ?case
  proof (cases "n < 2")
    case True
    with 1 show ?thesis by (simp add: ilog.simps [of n])
  next
    case False
    define k where "k = nat (ilog (n div 2))"
    have k: "nat (ilog n) = Suc k" "nat (ilog n + 1) = Suc (Suc k)"
        "nat (ilog (n div 2) + 1) = Suc k"
      using False ilog_nonneg [of "n div 2"] by (auto simp: k_def ilog.simps [of n])
    have "2 ^ k \<le> n div 2" "n div 2 < 2 ^ Suc k"
      using False 1 by (auto simp: k_def [symmetric] k)
    then show ?thesis unfolding k by auto
  qed
qed

lemma ilog_bounds_rat:
  assumes "0 < n"
  shows "2 powi ilog n \<le> (of_int n :: rat)" and "of_int n + 1 \<le> (2::rat) powi (ilog n + 1)"
proof -
  have b: "2 ^ nat (ilog n) \<le> n" "n + 1 \<le> 2 ^ nat (ilog n + 1)"
    using ilog_bounds [OF assms] by auto
  have p: "2 powi ilog n = (of_int (2 ^ nat (ilog n)) :: rat)"
      "(2::rat) powi (ilog n + 1) = of_int (2 ^ nat (ilog n + 1))"
    using ilog_nonneg [of n] by (simp_all only: powi_two_int)
  show "2 powi ilog n \<le> (of_int n :: rat)" using b(1) by (simp only: p of_int_le_iff)
  have "of_int (n + 1) \<le> (of_int (2 ^ nat (ilog n + 1)) :: rat)" using b(2) by (simp only: of_int_le_iff)
  then show "of_int n + 1 \<le> (2::rat) powi (ilog n + 1)" unfolding p by simp
qed

lemma ilog2_bounds:
  assumes "0 < x"
  shows "2 powi ilog2 x \<le> x" and "x < 2 powi (ilog2 x + 1)"
proof -
  have "2 powi ilog2 x \<le> x \<and> x < 2 powi (ilog2 x + 1)"
  proof (cases "1 \<le> x")
    case True
    then have "0 < \<lfloor>x\<rfloor>" by simp
    from ilog_bounds_rat [OF this] have "2 powi ilog \<lfloor>x\<rfloor> \<le> x" "x < 2 powi (ilog \<lfloor>x\<rfloor> + 1)"
      using floor_correct [of x] by linarith+
    with True show ?thesis by (simp add: ilog2_def)
  next
    case False
    define k where "k = ilog (\<lceil>1 / x\<rceil> - 1)"
    have "1 < 1 / x" using False assms by simp
    then have "0 < \<lceil>1 / x\<rceil> - 1" by (simp add: less_ceiling_iff)
    from ilog_bounds_rat [OF this]
    have "2 powi k \<le> of_int \<lceil>1 / x\<rceil> - (1::rat)" "of_int \<lceil>1 / x\<rceil> \<le> (2::rat) powi (k + 1)"
      by (simp_all add: k_def)
    then have "2 powi k < 1 / x" "1 / x \<le> 2 powi (k + 1)"
      using ceiling_correct [of "1 / x"] by linarith+
    then have "x < 1 / 2 powi k" "1 / 2 powi (k + 1) \<le> x"
      using assms by (simp_all add: field_simps)
    moreover have "ilog2 x = - (k + 1)" using False by (simp add: ilog2_def k_def)
    moreover have "(2::rat) powi (- (k + 1)) = 1 / 2 powi (k + 1)" "(2::rat) powi (- (k + 1) + 1) = 1 / 2 powi k"
      by (simp_all only: power_int_minus) (simp_all add: field_simps power_int_minus)
    ultimately show ?thesis by simp
  qed
  then show "2 powi ilog2 x \<le> x" "x < 2 powi (ilog2 x + 1)" by auto
qed

lemma ilog2_mono:
  assumes "0 < x" "x \<le> y"
  shows "ilog2 x \<le> ilog2 y"
proof (rule ccontr)
  assume "\<not> ilog2 x \<le> ilog2 y"
  then have "ilog2 y + 1 \<le> ilog2 x" by simp
  then have "(2::rat) powi (ilog2 y + 1) \<le> 2 powi ilog2 x"
    by (intro power_int_increasing) auto
  with ilog2_bounds [of x] ilog2_bounds [of y] assms show False by linarith
qed

lemma round_even_mono: "x \<le> y \<Longrightarrow> round_even x \<le> round_even y"
proof -
  assume xy: "x \<le> y"
  show ?thesis
  proof (cases "\<lfloor>x\<rfloor> = \<lfloor>y\<rfloor>")
    case True
    with xy show ?thesis by (auto simp: round_even_def Let_def)
  next
    case False
    with floor_mono [OF xy] have "\<lfloor>x\<rfloor> + 1 \<le> \<lfloor>y\<rfloor>" by simp
    then show ?thesis by (auto simp: round_even_def Let_def)
  qed
qed

lemma round_even_of_int [simp]: "round_even (of_int i) = i"
  by (simp add: round_even_def)

lemma round_even_minus: "round_even (- x) = - round_even x"
proof (cases "x = of_int \<lfloor>x\<rfloor>")
  case True
  then show ?thesis by (metis of_int_minus round_even_of_int)
next
  case False
  then have "\<lfloor>- x\<rfloor> = - \<lfloor>x\<rfloor> - 1"
    by (simp add: floor_minus ceiling_altdef)
  moreover have "0 < x - of_int \<lfloor>x\<rfloor>"
    using False of_int_floor_le [of x] by linarith
  ultimately show ?thesis by (auto simp: round_even_def Let_def)
qed

lemma qexp_minus [simp]: "qexp f (- x) = qexp f x"
  by (simp add: qexp_def)

lemma rnd_fin_minus: "rnd_fin f (- x) = - rnd_fin f x"
  by (simp add: rnd_fin_def round_even_minus)

lemma rnd_fin_0 [simp]: "rnd_fin f 0 = 0"
  by (simp add: rnd_fin_def)

lemma rnd_fin_nonneg: "0 \<le> x \<Longrightarrow> 0 \<le> rnd_fin f x"
  using round_even_mono [of 0 "x / 2 powi qexp f x"] round_even_of_int [of 0]
  by (auto simp: rnd_fin_def)

text \<open>A multiple of the quantum above (below) the argument bounds the rounded value.\<close>

lemma rnd_fin_le_multiple:
  assumes "0 < x" "qexp f x \<le> k" "x \<le> 2 powi k"
  shows "rnd_fin f x \<le> 2 powi k"
proof -
  let ?e = "qexp f x"
  have eq: "(2::rat) powi k / 2 powi ?e = of_int (2 ^ nat (k - ?e))"
    using assms(2) by (simp add: powi_two_int flip: power_int_diff)
  have "x / 2 powi ?e \<le> of_int (2 ^ nat (k - ?e))"
    unfolding eq [symmetric] using assms(3) by (simp add: divide_right_mono)
  then have "round_even (x / 2 powi ?e) \<le> 2 ^ nat (k - ?e)"
    using round_even_mono round_even_of_int by metis
  then have "of_int (round_even (x / 2 powi ?e)) \<le> (2::rat) powi k / 2 powi ?e"
    unfolding eq by (simp only: of_int_le_iff)
  then show ?thesis
    using assms(1) by (simp add: rnd_fin_def pos_le_divide_eq)
qed

lemma rnd_fin_ge_multiple:
  assumes "0 < x" "qexp f x \<le> k" "2 powi k \<le> x"
  shows "2 powi k \<le> rnd_fin f x"
proof -
  let ?e = "qexp f x"
  have eq: "(2::rat) powi k / 2 powi ?e = of_int (2 ^ nat (k - ?e))"
    using assms(2) by (simp add: powi_two_int flip: power_int_diff)
  have "of_int (2 ^ nat (k - ?e)) \<le> x / 2 powi ?e"
    unfolding eq [symmetric] using assms(3) by (simp add: divide_right_mono)
  then have "2 ^ nat (k - ?e) \<le> round_even (x / 2 powi ?e)"
    using round_even_mono round_even_of_int by metis
  then have "(2::rat) powi k / 2 powi ?e \<le> of_int (round_even (x / 2 powi ?e))"
    unfolding eq by (simp only: of_int_le_iff)
  then show ?thesis
    using assms(1) by (simp add: rnd_fin_def pos_divide_le_eq)
qed

lemma qexp_mono: "0 < x \<Longrightarrow> x \<le> y \<Longrightarrow> qexp f x \<le> qexp f y"
  using ilog2_mono [of x y] by (auto simp: qexp_def)

lemma rnd_fin_mono_pos:
  assumes "0 < x" "x \<le> y" and p: "0 < prec f"
  shows "rnd_fin f x \<le> rnd_fin f y"
proof (cases "qexp f x = qexp f y")
  case True
  have "x / 2 powi qexp f y \<le> y / 2 powi qexp f y"
    using assms by (simp add: divide_right_mono)
  then show ?thesis
    using assms True by (auto simp: rnd_fin_def intro: round_even_mono)
next
  case False
  with qexp_mono [OF assms(1,2)] have lt: "qexp f x < qexp f y" by (metis le_less)
  then have ey: "qexp f y = ilog2 y - int (prec f) + 1"
    using assms by (auto simp: qexp_def)
  have lxy: "ilog2 x < ilog2 y"
    using lt assms ey by (auto simp: qexp_def)
  have "rnd_fin f x \<le> 2 powi ilog2 y"
  proof (rule rnd_fin_le_multiple [OF assms(1)])
    show "qexp f x \<le> ilog2 y" using lt ey p by linarith
    have "x \<le> 2 powi (ilog2 x + 1)" using ilog2_bounds(2) [OF assms(1)] by simp
    also have "\<dots> \<le> (2::rat) powi ilog2 y"
      using lxy by (intro power_int_increasing) auto
    finally show "x \<le> 2 powi ilog2 y" .
  qed
  also have "\<dots> \<le> rnd_fin f y"
    using assms ey p by (intro rnd_fin_ge_multiple ilog2_bounds) auto
  finally show ?thesis .
qed

lemma rnd_fin_mono:
  assumes "x \<le> y" "0 < prec f"
  shows "rnd_fin f x \<le> rnd_fin f y"
proof -
  consider "0 < x" | "x \<le> 0" "0 \<le> y" | "y < 0" by linarith
  then show ?thesis
  proof cases
    case 1
    then show ?thesis using assms by (intro rnd_fin_mono_pos)
  next
    case 2
    then show ?thesis
      using rnd_fin_nonneg [of y f] rnd_fin_nonneg [of "- x" f] by (simp add: rnd_fin_minus)
  next
    case 3
    then show ?thesis
      using rnd_fin_mono_pos [of "- y" "- x" f] assms by (simp add: rnd_fin_minus)
  qed
qed


lemma rnd_fin_exact:
  assumes "x = of_int m * 2 powi k" "qexp f x \<le> k"
  shows "rnd_fin f x = x"
proof (cases "x = 0")
  case False
  let ?e = "qexp f x"
  have "x / 2 powi ?e = of_int m * 2 powi (k - ?e)"
    unfolding assms(1) [symmetric] by (simp add: power_int_diff assms(1))
  also have "\<dots> = of_int (m * 2 ^ nat (k - ?e))"
    using assms(2) by (simp add: powi_two_int)
  finally have eq: "x / 2 powi ?e = of_int (m * 2 ^ nat (k - ?e))" .
  then have "of_int (round_even (x / 2 powi ?e)) = x / 2 powi ?e"
    by (simp only: round_even_of_int)
  with False show ?thesis by (simp add: rnd_fin_def)
qed simp

lemma ilog2_less:
  assumes "0 < x" "x < 2 powi k"
  shows "ilog2 x < k"
proof (rule ccontr)
  assume "\<not> ilog2 x < k"
  then have "(2::rat) powi k \<le> 2 powi ilog2 x" by (intro power_int_increasing) auto
  with ilog2_bounds(1) [OF assms(1)] assms(2) show False by linarith
qed

lemma rnd_fin_of_int:
  assumes "\<bar>n\<bar> < 2 ^ prec f" "qmin f \<le> 0"
  shows "rnd_fin f (of_int n) = of_int n"
proof (cases "n = 0")
  case False
  have "\<bar>of_int n\<bar> < (2::rat) powi int (prec f)"
    using assms(1) by (metis of_int_abs of_int_less_iff of_int_numeral of_int_power power_int_of_nat)
  then have "ilog2 \<bar>of_int n\<bar> < int (prec f)"
    using False by (intro ilog2_less) auto
  then have "qexp f (of_int n) \<le> 0" using assms(2) by (simp add: qexp_def)
  then show ?thesis by (intro rnd_fin_exact [of _ n 0]) auto
qed simp

section \<open>The arithmetic\<close>

lemma fle_refl [simp]: "fle a a \<longleftrightarrow> a \<noteq> NaN"
  by (cases a) auto

lemma fle_trans [trans]: "fle a b \<Longrightarrow> fle b c \<Longrightarrow> fle a c"
  by (cases a; cases b; cases c) auto

lemma fle_antisym: "fle a b \<Longrightarrow> fle b a \<Longrightarrow> a = b"
  by (cases a; cases b) auto

lemma fle_number: "fle a b \<Longrightarrow> a \<noteq> NaN \<and> b \<noteq> NaN"
  by (cases a; cases b) auto

lemma fle_NInf [simp]: "fle NInf a \<longleftrightarrow> a \<noteq> NaN" and fle_PInf [simp]: "fle a PInf \<longleftrightarrow> a \<noteq> NaN"
  by (cases a; simp)+

lemma fle_total: "a \<noteq> NaN \<Longrightarrow> b \<noteq> NaN \<Longrightarrow> fle a b \<or> fle b a"
  by (cases a; cases b) auto

lemma fle_Fin_iff [simp]: "fle (Fin x) (Fin y) \<longleftrightarrow> x \<le> y"
  by simp

lemma flt_Fin_iff [simp]: "flt (Fin x) (Fin y) \<longleftrightarrow> x < y"
  by (auto simp: flt_def)

lemma fle_between_Fin: "fle (Fin l) a \<Longrightarrow> fle a (Fin h) \<Longrightarrow> \<exists>x. a = Fin x \<and> l \<le> x \<and> x \<le> h"
  by (cases a) auto

lemma flt_NaN [simp]: "\<not> flt NaN b" "\<not> flt a NaN"
  by (simp_all add: flt_def)

lemma flt_imp_fle: "flt a b \<Longrightarrow> fle a b"
  using fle_total [of a b] by (auto simp: flt_def)

lemma fneg_NaN_iff [simp]: "fneg a = NaN \<longleftrightarrow> a = NaN"
  by (cases a) auto

lemma fle_fneg [simp]: "fle (fneg a) (fneg b) \<longleftrightarrow> fle b a"
  by (cases a; cases b) auto

locale rounding =
  fixes rn :: "rat \<Rightarrow> fp"
  assumes rn_number: "rn x \<noteq> NaN"
    and rn_mono: "x \<le> y \<Longrightarrow> fle (rn x) (rn y)"
    and rn_of_int: "\<bar>n\<bar> < 2 ^ 24 \<Longrightarrow> rn (of_int n) = Fin (of_int n)"
begin

lemma rn_zero [simp]: "rn 0 = Fin 0"
  using rn_of_int [of 0] by simp

lemma rn_one [simp]: "rn 1 = Fin 1"
  using rn_of_int [of 1] by simp

lemma rn_numeral: "(numeral k :: int) < 2 ^ 24 \<Longrightarrow> rn (numeral k) = Fin (numeral k)"
  using rn_of_int [of "numeral k"] by simp

lemma rn_nonneg: "0 \<le> x \<Longrightarrow> fle (Fin 0) (rn x)"
  using rn_mono [of 0 x] by simp

lemma rn_nonpos: "x \<le> 0 \<Longrightarrow> fle (rn x) (Fin 0)"
  using rn_mono [of x 0] by simp

lemma fsub_antimono: "fle b c \<Longrightarrow> fle (fsub rn (Fin x) c) (fsub rn (Fin x) b)"
  by (cases b; cases c) (auto simp: fsub_def rn_number intro: rn_mono)

lemma fadd_mono_Fin:
  "x \<le> x' \<Longrightarrow> y \<le> y' \<Longrightarrow> fle (fadd rn (Fin x) (Fin y)) (fadd rn (Fin x') (Fin y'))"
  by (simp add: rn_mono add_mono)

lemma fmul_mono: "0 < c \<Longrightarrow> fle a b \<Longrightarrow> fle (fmul rn (Fin c) a) (fmul rn (Fin c) b)"
  by (cases a; cases b) (auto simp: signed_inf_def rn_number intro!: rn_mono mult_left_mono)

lemma fdiv_mono: "0 < c \<Longrightarrow> fle a b \<Longrightarrow> fle (fdiv rn a (Fin c)) (fdiv rn b (Fin c))"
  by (cases a; cases b) (auto simp: signed_inf_def rn_number intro!: rn_mono divide_right_mono)

lemma fdiv_number: "a \<noteq> NaN \<Longrightarrow> c \<noteq> 0 \<Longrightarrow> fdiv rn a (Fin c) \<noteq> NaN"
  by (cases a) (auto simp: signed_inf_def rn_number)

lemma fsub_number: "a \<noteq> NaN \<Longrightarrow> fsub rn (Fin x) a \<noteq> NaN"
  by (cases a) (auto simp: fsub_def rn_number)

end

lemma fle_clip:
  assumes "x \<le> y" "0 \<le> m"
  shows "fle (if m \<le> x then PInf else if x \<le> - m then NInf else Fin x)
             (if m \<le> y then PInf else if y \<le> - m then NInf else Fin y)"
  using assms by auto

lemma rounding_rnd:
  assumes "24 \<le> prec f" "qmin f \<le> 0" "int (prec f) \<le> emax f"
  shows "rounding (rnd f)"
proof
  fix x :: rat show "rnd f x \<noteq> NaN" by (simp add: rnd_def Let_def)
next
  fix x y :: rat
  assume "x \<le> y"
  then have "rnd_fin f x \<le> rnd_fin f y" using assms by (intro rnd_fin_mono) auto
  then show "fle (rnd f x) (rnd f y)" by (auto simp: rnd_def Let_def intro: fle_clip)
next
  fix n :: int
  assume n: "\<bar>n\<bar> < 2 ^ 24"
  also have "(2::int) ^ 24 \<le> 2 ^ prec f" using assms by (intro power_increasing) auto
  finally have np: "\<bar>n\<bar> < 2 ^ prec f" .
  then have "\<bar>of_int n\<bar> < (2::rat) powi int (prec f)"
    by (metis of_int_abs of_int_less_iff of_int_numeral of_int_power power_int_of_nat)
  also have "\<dots> \<le> 2 powi emax f" using assms by (intro power_int_increasing) auto
  finally show "rnd f (of_int n) = Fin (of_int n)"
    using rnd_fin_of_int [OF np assms(2)] by (auto simp: rnd_def Let_def)
qed

interpretation f32: rounding "rnd binary32"
  by (rule rounding_rnd) (simp_all add: binary32_def)

interpretation f64: rounding "rnd binary64"
  by (rule rounding_rnd) (simp_all add: binary64_def)

lemma f64_of_int_exact: "\<bar>n\<bar> < 2 ^ 53 \<Longrightarrow> f64_of_int n = Fin (of_int n)"
proof -
  assume n: "\<bar>n\<bar> < 2 ^ 53"
  have "rnd_fin binary64 (of_int n) = of_int n"
    using n by (intro rnd_fin_of_int) (simp_all add: binary64_def)
  moreover have "\<bar>of_int n :: rat\<bar> < 2 powi 1024"
  proof -
    have "\<bar>of_int n :: rat\<bar> < of_int (2 ^ 53)" using n by (metis of_int_abs of_int_less_iff)
    also have "\<dots> \<le> 2 powi 1024" by simp
    finally show ?thesis .
  qed
  ultimately show ?thesis by (auto simp: f64_of_int_def rnd_def Let_def binary64_def)
qed

lemma f64_of_u64_exact:
  assumes "unat w < 2 ^ 53"
  shows "f64_of_u64 w = Fin (of_nat (unat w))"
proof -
  have "int (unat w) < int (2 ^ 53)" using assms by (simp only: of_nat_less_iff)
  then have "\<bar>int (unat w)\<bar> < 2 ^ 53" by (simp only: abs_of_nat of_nat_power of_nat_numeral)
  from f64_of_int_exact [OF this] show ?thesis
    by (simp only: f64_of_u64_def f64_of_int_def of_int_of_nat_eq)
qed

lemma f64_exact: "\<bar>n\<bar> < 2 ^ 53 \<Longrightarrow> f64 (of_int n) = Fin (of_int n)"
  using f64_of_int_exact [of n] by (simp add: f64_of_int_def)

text \<open>A ratio of at most one, as a percentage: rounding twice keeps it within 0 and 100.\<close>

lemma percent_bounds:
  assumes "0 \<le> a" "a \<le> d" "0 < d"
  shows "fle (Fin 0) (fmul f64 (fdiv f64 (Fin a) (Fin d)) (Fin 100)) \<and> fle (fmul f64 (fdiv f64 (Fin a) (Fin d)) (Fin 100)) (Fin 100)"
proof -
  have "fle (Fin 0) (f64 (a / d))" "fle (f64 (a / d)) (Fin 1)"
    using assms f64.rn_mono [of 0 "a / d"] f64.rn_mono [of "a / d" 1] by simp_all
  then obtain x where x: "f64 (a / d) = Fin x" "0 \<le> x" "x \<le> 1" using fle_between_Fin by blast
  have "fle (f64 0) (f64 (x * 100))" "fle (f64 (x * 100)) (f64 100)" using x by (intro f64.rn_mono; simp)+
  then show ?thesis using x assms(3)
    by (auto simp: f64.rn_numeral)
qed

lemma to_f32_bounds: "fle (Fin 0) a \<Longrightarrow> fle a (Fin 100) \<Longrightarrow> fle (Fin 0) (to_f32 a) \<and> fle (to_f32 a) (Fin 100)"
  using f32.rn_mono [of 0] f32.rn_mono [of _ 100] by (cases a) (auto simp: f32.rn_numeral)

lemma floor_rat_numeral [simp]:
  "\<lfloor>numeral a / (numeral b :: rat)\<rfloor> = numeral a div numeral b"
  "\<lfloor>1 / (numeral b :: rat)\<rfloor> = 1 div numeral b"
  "\<lfloor>- (numeral a / (numeral b :: rat))\<rfloor> = - numeral a div numeral b"
  "\<lfloor>- (1 / (numeral b :: rat))\<rfloor> = - 1 div numeral b"
  using floor_divide_of_int_eq [of "numeral a" "numeral b", where 'a = rat]
    floor_divide_of_int_eq [of 1 "numeral b", where 'a = rat]
    floor_divide_of_int_eq [of "- numeral a" "numeral b", where 'a = rat]
    floor_divide_of_int_eq [of "- 1" "numeral b", where 'a = rat]
  by simp_all

lemma ceiling_rat_numeral [simp]:
  "\<lceil>numeral a / (numeral b :: rat)\<rceil> = - (- numeral a div numeral b)"
  "\<lceil>1 / (numeral b :: rat)\<rceil> = - (- 1 div numeral b)"
  by (simp_all add: ceiling_def)

lemma ilog_numeral [simp]:
  "ilog 1 = 0"
  "ilog (numeral (num.Bit0 n)) = 1 + ilog (numeral n)"
  "ilog (numeral (num.Bit1 n)) = 1 + ilog (numeral n)"
  by (simp_all add: ilog.simps [of 1] ilog.simps [of "numeral (num.Bit0 n)"]
      ilog.simps [of "numeral (num.Bit1 n)"])

lemmas fp_eval = rnd_def rnd_fin_def qexp_def ilog2_def round_even_def
  binary32_def binary64_def Let_def

end
