(* ===== verification/Messages.thy ===== *)
theory Messages
  imports Floats
begin

text \<open>
  The protobuf messages a worker sends and the manager receives (\<open>src/proto\<close>), as records
  with the fields of the \<open>.proto\<close> files in their order; a repeated field is a list, a
  message-typed field an option (its presence bit), and \<open>default_T\<close> is the value a freshly
  added message of type \<open>T\<close> has. Each record's fields carry a prefix of their own. Scalar
  \<open>float\<close> and \<open>double\<close> fields are floating values of \<open>Floats\<close>.
\<close>

record CpuStat =
  cs_cpu_name :: string
  cs_cpu_percent :: fp
  cs_usr_percent :: fp
  cs_system_percent :: fp
  cs_nice_percent :: fp
  cs_idle_percent :: fp
  cs_io_wait_percent :: fp
  cs_irq_percent :: fp
  cs_soft_irq_percent :: fp

definition default_CpuStat :: CpuStat where
  "default_CpuStat =
    \<lparr>cs_cpu_name = [], cs_cpu_percent = Fin 0, cs_usr_percent = Fin 0,
     cs_system_percent = Fin 0, cs_nice_percent = Fin 0, cs_idle_percent = Fin 0,
     cs_io_wait_percent = Fin 0, cs_irq_percent = Fin 0, cs_soft_irq_percent = Fin 0\<rparr>"

record CpuLoad =
  cl_load_avg_1 :: fp
  cl_load_avg_3 :: fp
  cl_load_avg_15 :: fp

definition default_CpuLoad :: CpuLoad where
  "default_CpuLoad =
    \<lparr>cl_load_avg_1 = Fin 0, cl_load_avg_3 = Fin 0, cl_load_avg_15 = Fin 0\<rparr>"

record SoftIrq =
  si_cpu :: string
  si_hi :: fp
  si_timer :: fp
  si_net_tx :: fp
  si_net_rx :: fp
  si_block :: fp
  si_irq_poll :: fp
  si_tasklet :: fp
  si_sched :: fp
  si_hrtimer :: fp
  si_rcu :: fp

definition default_SoftIrq :: SoftIrq where
  "default_SoftIrq =
    \<lparr>si_cpu = [], si_hi = Fin 0, si_timer = Fin 0, si_net_tx = Fin 0,
     si_net_rx = Fin 0, si_block = Fin 0, si_irq_poll = Fin 0, si_tasklet = Fin 0,
     si_sched = Fin 0, si_hrtimer = Fin 0, si_rcu = Fin 0\<rparr>"

record MemInfo =
  mi_total :: fp
  mi_free :: fp
  mi_avail :: fp
  mi_buffers :: fp
  mi_cached :: fp
  mi_swap_cached :: fp
  mi_active :: fp
  mi_inactive :: fp
  mi_active_anon :: fp
  mi_inactive_anon :: fp
  mi_active_file :: fp
  mi_inactive_file :: fp
  mi_dirty :: fp
  mi_writeback :: fp
  mi_anon_pages :: fp
  mi_mapped :: fp
  mi_kReclaimable :: fp
  mi_sReclaimable :: fp
  mi_sUnreclaim :: fp
  mi_used_percent :: fp

definition default_MemInfo :: MemInfo where
  "default_MemInfo =
    \<lparr>mi_total = Fin 0, mi_free = Fin 0, mi_avail = Fin 0, mi_buffers = Fin 0,
     mi_cached = Fin 0, mi_swap_cached = Fin 0, mi_active = Fin 0, mi_inactive = Fin 0,
     mi_active_anon = Fin 0, mi_inactive_anon = Fin 0, mi_active_file = Fin 0,
     mi_inactive_file = Fin 0, mi_dirty = Fin 0, mi_writeback = Fin 0,
     mi_anon_pages = Fin 0, mi_mapped = Fin 0, mi_kReclaimable = Fin 0,
     mi_sReclaimable = Fin 0, mi_sUnreclaim = Fin 0, mi_used_percent = Fin 0\<rparr>"

record NetInfo =
  ni_name :: string
  ni_send_rate :: fp
  ni_rcv_rate :: fp
  ni_send_packets_rate :: fp
  ni_rcv_packets_rate :: fp
  ni_err_in :: u64
  ni_err_out :: u64
  ni_drop_in :: u64
  ni_drop_out :: u64

definition default_NetInfo :: NetInfo where
  "default_NetInfo =
    \<lparr>ni_name = [], ni_send_rate = Fin 0, ni_rcv_rate = Fin 0,
     ni_send_packets_rate = Fin 0, ni_rcv_packets_rate = Fin 0, ni_err_in = 0,
     ni_err_out = 0, ni_drop_in = 0, ni_drop_out = 0\<rparr>"

record DiskInfo =
  di_name :: string
  di_reads :: u64
  di_writes :: u64
  di_sectors_read :: u64
  di_sectors_written :: u64
  di_read_time_ms :: u64
  di_write_time_ms :: u64
  di_io_in_progress :: u64
  di_io_time_ms :: u64
  di_weighted_io_time_ms :: u64
  di_read_bytes_per_sec :: fp
  di_write_bytes_per_sec :: fp
  di_read_iops :: fp
  di_write_iops :: fp
  di_avg_read_latency_ms :: fp
  di_avg_write_latency_ms :: fp
  di_util_percent :: fp

definition default_DiskInfo :: DiskInfo where
  "default_DiskInfo =
    \<lparr>di_name = [], di_reads = 0, di_writes = 0, di_sectors_read = 0,
     di_sectors_written = 0, di_read_time_ms = 0, di_write_time_ms = 0,
     di_io_in_progress = 0, di_io_time_ms = 0, di_weighted_io_time_ms = 0,
     di_read_bytes_per_sec = Fin 0, di_write_bytes_per_sec = Fin 0,
     di_read_iops = Fin 0, di_write_iops = Fin 0, di_avg_read_latency_ms = Fin 0,
     di_avg_write_latency_ms = Fin 0, di_util_percent = Fin 0\<rparr>"

record MysqlInfo =
  my_instance :: string
  my_host :: string
  my_port :: u32
  my_up :: bool
  my_version :: string
  my_role :: string
  my_max_connections :: u64
  my_threads_connected :: u64
  my_threads_running :: u64
  my_aborted_connects :: u64
  my_questions :: u64
  my_com_select :: u64
  my_com_insert :: u64
  my_com_update :: u64
  my_com_delete :: u64
  my_com_commit :: u64
  my_com_rollback :: u64
  my_slow_queries :: u64
  my_innodb_buffer_pool_read_requests :: u64
  my_innodb_buffer_pool_reads :: u64
  my_innodb_buffer_pool_hit_percent :: fp
  my_innodb_row_lock_waits :: u64
  my_innodb_row_lock_time_avg_ms :: fp
  my_replication_configured :: bool
  my_replication_running :: bool
  my_replication_lag_seconds :: fp

definition default_MysqlInfo :: MysqlInfo where
  "default_MysqlInfo =
    \<lparr>my_instance = [], my_host = [], my_port = 0, my_up = False, my_version = [],
     my_role = [], my_max_connections = 0, my_threads_connected = 0,
     my_threads_running = 0, my_aborted_connects = 0, my_questions = 0,
     my_com_select = 0, my_com_insert = 0, my_com_update = 0, my_com_delete = 0,
     my_com_commit = 0, my_com_rollback = 0, my_slow_queries = 0,
     my_innodb_buffer_pool_read_requests = 0, my_innodb_buffer_pool_reads = 0,
     my_innodb_buffer_pool_hit_percent = Fin 0, my_innodb_row_lock_waits = 0,
     my_innodb_row_lock_time_avg_ms = Fin 0, my_replication_configured = False,
     my_replication_running = False, my_replication_lag_seconds = Fin 0\<rparr>"

record RedisInfo =
  rd_instance :: string
  rd_host :: string
  rd_port :: u32
  rd_up :: bool
  rd_version :: string
  rd_role :: string
  rd_uptime_in_seconds :: u64
  rd_connected_clients :: u64
  rd_blocked_clients :: u64
  rd_maxclients :: u64
  rd_used_memory :: u64
  rd_maxmemory :: u64
  rd_mem_fragmentation_ratio :: fp
  rd_memory_used_percent :: fp
  rd_total_commands_processed :: u64
  rd_instantaneous_ops_per_sec :: fp
  rd_keyspace_hits :: u64
  rd_keyspace_misses :: u64
  rd_keyspace_hit_percent :: fp
  rd_expired_keys :: u64
  rd_evicted_keys :: u64
  rd_rejected_connections :: u64
  rd_total_error_replies :: u64
  rd_total_net_input_bytes :: u64
  rd_total_net_output_bytes :: u64
  rd_replication_configured :: bool
  rd_master_link_up :: bool
  rd_connected_slaves :: u64
  rd_master_last_io_seconds_ago :: fp
  rd_slowlog_len :: u64

definition default_RedisInfo :: RedisInfo where
  "default_RedisInfo =
    \<lparr>rd_instance = [], rd_host = [], rd_port = 0, rd_up = False, rd_version = [],
     rd_role = [], rd_uptime_in_seconds = 0, rd_connected_clients = 0,
     rd_blocked_clients = 0, rd_maxclients = 0, rd_used_memory = 0, rd_maxmemory = 0,
     rd_mem_fragmentation_ratio = Fin 0, rd_memory_used_percent = Fin 0,
     rd_total_commands_processed = 0, rd_instantaneous_ops_per_sec = Fin 0,
     rd_keyspace_hits = 0, rd_keyspace_misses = 0, rd_keyspace_hit_percent = Fin 0,
     rd_expired_keys = 0, rd_evicted_keys = 0, rd_rejected_connections = 0,
     rd_total_error_replies = 0, rd_total_net_input_bytes = 0,
     rd_total_net_output_bytes = 0, rd_replication_configured = False,
     rd_master_link_up = False, rd_connected_slaves = 0,
     rd_master_last_io_seconds_ago = Fin 0, rd_slowlog_len = 0\<rparr>"

record HostInfo =
  hi_hostname :: string
  hi_ip_address :: string

record MonitorInfo =
  m_name :: string
  m_host_info :: "HostInfo option"
  m_soft_irq :: "SoftIrq list"
  m_cpu_load :: "CpuLoad option"
  m_cpu_stat :: "CpuStat list"
  m_mem_info :: "MemInfo option"
  m_net_info :: "NetInfo list"
  m_disk_info :: "DiskInfo list"
  m_mysql_info :: "MysqlInfo list"
  m_redis_info :: "RedisInfo list"

definition default_MonitorInfo :: MonitorInfo where
  "default_MonitorInfo =
    \<lparr>m_name = [], m_host_info = None, m_soft_irq = [], m_cpu_load = None, m_cpu_stat = [],
     m_mem_info = None, m_net_info = [], m_disk_info = [], m_mysql_info = [], m_redis_info = []\<rparr>"

lemmas message_defaults = default_MonitorInfo_def default_CpuStat_def default_CpuLoad_def
  default_SoftIrq_def default_MemInfo_def default_NetInfo_def default_DiskInfo_def
  default_MysqlInfo_def default_RedisInfo_def

end
