(* ===== verification/Manager_Config.thy ===== *)
theory Manager_Config
  imports Floats
begin

text \<open>
  Configuration of the manager: \<open>ManagerConfig.h/.cpp\<close> (the settings and
  \<open>loadManagerConfigFromEnv\<close>), \<open>MysqlConfig.h\<close> and \<open>ManagerMetrics.h\<close>. The process
  environment is an argument. The lemmas show that a setting given as a decimal number is
  what the loader returns, and which orderings between limits the loader guarantees in
  every environment and which it does not.
\<close>

section \<open>The settings\<close>

record ManagerConfig =
  grpc_num_cqs :: int
  grpc_min_pollers :: int
  grpc_max_pollers :: int
  task_queue_capacity :: u64
  task_queue_high_watermark :: u64
  task_queue_low_watermark :: u64
  task_timeout :: int
  ingest_shard_count :: u64
  ingest_queue_capacity_per_shard :: u64
  query_queue_capacity :: u64
  query_queue_high_watermark :: u64
  query_queue_low_watermark :: u64
  query_threads_min :: int
  query_threads_max :: int
  query_idle_shrink :: int
  business_threads_min :: int
  business_threads_max :: int
  business_idle_shrink :: int
  mysql_write_pool_min :: int
  mysql_write_pool_max :: int
  mysql_query_pool_min :: int
  mysql_query_pool_max :: int
  mysql_connect_timeout :: int
  mysql_read_timeout :: int
  mysql_health_check :: int
  mysql_idle_ttl :: int
  redis_enabled :: bool
  redis_uri :: string
  redis_pool_min :: int
  redis_pool_max :: int
  redis_connect_timeout :: int
  redis_read_timeout :: int
  redis_health_check :: int
  redis_idle_ttl :: int
  redis_cache_ttl :: int
  verbose_log :: bool
  metrics_log_interval :: int

text \<open>The member initialisers; durations are counts of the unit of their type.\<close>

definition default_config :: ManagerConfig where
  "default_config =
    \<lparr>grpc_num_cqs = 4, grpc_min_pollers = 8, grpc_max_pollers = 64,
     task_queue_capacity = 10000, task_queue_high_watermark = 8000,
     task_queue_low_watermark = 3000, task_timeout = 3000, ingest_shard_count = 8,
     ingest_queue_capacity_per_shard = 2048, query_queue_capacity = 10000,
     query_queue_high_watermark = 8000, query_queue_low_watermark = 3000,
     query_threads_min = 4, query_threads_max = 16, query_idle_shrink = 30,
     business_threads_min = 4, business_threads_max = 16, business_idle_shrink = 30,
     mysql_write_pool_min = 2, mysql_write_pool_max = 4, mysql_query_pool_min = 4,
     mysql_query_pool_max = 8, mysql_connect_timeout = 1000, mysql_read_timeout = 2000,
     mysql_health_check = 10, mysql_idle_ttl = 60, redis_enabled = True,
     redis_uri = ''tcp://127.0.0.1:6379'', redis_pool_min = 2, redis_pool_max = 8,
     redis_connect_timeout = 500, redis_read_timeout = 1000, redis_health_check = 10,
     redis_idle_ttl = 60, redis_cache_ttl = 5, verbose_log = False,
     metrics_log_interval = 10\<rparr>"

section \<open>Reading the environment\<close>

definition envInt :: "environment \<Rightarrow> string \<Rightarrow> int \<Rightarrow> int \<Rightarrow> int" where
  "envInt env name fallback minValue =
     (case env name of None \<Rightarrow> fallback
      | Some value \<Rightarrow>
          (case strtol10 value of (parsed, rest) \<Rightarrow>
             if rest = value \<or> rest \<noteq> [] then fallback
             else max (wrap32 parsed) minValue))"

definition envSize :: "environment \<Rightarrow> string \<Rightarrow> u64 \<Rightarrow> u64 \<Rightarrow> u64" where
  "envSize env name fallback minValue =
     size_of_int (envInt env name (int_of_size fallback) (int_of_size minValue))"

definition envBool :: "environment \<Rightarrow> string \<Rightarrow> bool \<Rightarrow> bool" where
  "envBool env name fallback =
     (case env name of None \<Rightarrow> fallback
      | Some value \<Rightarrow>
          (let text = map tolower value
           in text = ''1'' \<or> text = ''true'' \<or> text = ''yes'' \<or> text = ''on''))"

definition envString :: "environment \<Rightarrow> string \<Rightarrow> string \<Rightarrow> string" where
  "envString env name fallback = (case env name of None \<Rightarrow> fallback | Some value \<Rightarrow> value)"

text \<open>Assigning a double to a \<open>size_t\<close> truncates it.\<close>

definition size_of_fp :: "fp \<Rightarrow> u64" where
  "size_of_fp a = (case a of Fin x \<Rightarrow> word_of_int \<lfloor>x\<rfloor> | _ \<Rightarrow> 0)"

text \<open>
  \<open>loadManagerConfigFromEnv\<close>, in the groups the source has; each group updates the
  settings it reads. \<open>hw\<close> is the value of \<open>std::thread::hardware_concurrency ()\<close>.
\<close>

definition cpu_count :: "u32 \<Rightarrow> int" where
  "cpu_count hw = max 1 (wrap32 (uint hw))"

definition load_grpc :: "environment \<Rightarrow> ManagerConfig \<Rightarrow> ManagerConfig" where
  "load_grpc env cfg =
     (let cqs = envInt env ''MANAGER_GRPC_NUM_CQS'' (grpc_num_cqs cfg) 1;
          pmin = envInt env ''MANAGER_GRPC_MIN_POLLERS'' (grpc_min_pollers cfg) 1;
          pmax = envInt env ''MANAGER_GRPC_MAX_POLLERS'' (grpc_max_pollers cfg) pmin
      in cfg\<lparr>grpc_num_cqs := cqs, grpc_min_pollers := pmin, grpc_max_pollers := pmax\<rparr>)"

definition load_task_queue :: "environment \<Rightarrow> ManagerConfig \<Rightarrow> ManagerConfig" where
  "load_task_queue env cfg =
     (let cap = envSize env ''MANAGER_TASK_QUEUE_CAPACITY'' (task_queue_capacity cfg) 1;
          high = envSize env ''MANAGER_TASK_QUEUE_HIGH_WATERMARK'' (cap * 8 div 10) 1;
          low = envSize env ''MANAGER_TASK_QUEUE_LOW_WATERMARK'' (cap * 3 div 10) 0;
          high = (if cap < high then size_of_fp (fmul f64 (f64_of_u64 cap) (f64 (8 / 10))) else high);
          low = (if high < low then high div 2 else low)
      in cfg\<lparr>task_queue_capacity := cap, task_queue_high_watermark := high,
             task_queue_low_watermark := low,
             task_timeout := envInt env ''MANAGER_TASK_TIMEOUT_MS'' (task_timeout cfg) 1\<rparr>)"

definition load_query_queue :: "environment \<Rightarrow> u32 \<Rightarrow> ManagerConfig \<Rightarrow> ManagerConfig" where
  "load_query_queue env hw cfg =
     (let cpu = cpu_count hw;
          shards = envSize env ''MANAGER_INGEST_SHARD_COUNT'' (ingest_shard_count cfg) 1;
          per = envSize env ''MANAGER_INGEST_QUEUE_CAPACITY_PER_SHARD''
                  (ingest_queue_capacity_per_shard cfg) 1;
          cap = envSize env ''MANAGER_QUERY_QUEUE_CAPACITY'' (query_queue_capacity cfg) 1;
          high = envSize env ''MANAGER_QUERY_QUEUE_HIGH_WATERMARK'' (cap * 8 div 10) 1;
          low = envSize env ''MANAGER_QUERY_QUEUE_LOW_WATERMARK'' (cap * 3 div 10) 0;
          high = (if cap < high then cap else high);
          low = (if high < low then high div 2 else low);
          tmin = envInt env ''MANAGER_QUERY_THREADS_MIN'' (max 4 cpu) 1;
          tmax = envInt env ''MANAGER_QUERY_THREADS_MAX'' (max tmin (wrap32 (cpu * 2))) tmin
      in cfg\<lparr>ingest_shard_count := shards, ingest_queue_capacity_per_shard := per,
             query_queue_capacity := cap, query_queue_high_watermark := high,
             query_queue_low_watermark := low, query_threads_min := tmin,
             query_threads_max := tmax,
             query_idle_shrink :=
               envInt env ''MANAGER_QUERY_IDLE_SHRINK_SECONDS'' (query_idle_shrink cfg) 1\<rparr>)"

definition load_business :: "environment \<Rightarrow> u32 \<Rightarrow> ManagerConfig \<Rightarrow> ManagerConfig" where
  "load_business env hw cfg =
     (let cpu = cpu_count hw;
          tmin = envInt env ''MANAGER_BUSINESS_THREADS_MIN'' (max 4 cpu) 1;
          tmax = envInt env ''MANAGER_BUSINESS_THREADS_MAX'' (max tmin (wrap32 (cpu * 2))) tmin
      in cfg\<lparr>business_threads_min := tmin, business_threads_max := tmax,
             business_idle_shrink :=
               envInt env ''MANAGER_BUSINESS_IDLE_SHRINK_SECONDS'' (business_idle_shrink cfg) 1\<rparr>)"

definition load_mysql :: "environment \<Rightarrow> ManagerConfig \<Rightarrow> ManagerConfig" where
  "load_mysql env cfg =
     (let wmin = envInt env ''MANAGER_MYSQL_WRITE_POOL_MIN'' (mysql_write_pool_min cfg) 0;
          wmax = envInt env ''MANAGER_MYSQL_WRITE_POOL_MAX'' (mysql_write_pool_max cfg) wmin;
          qmin = envInt env ''MANAGER_MYSQL_QUERY_POOL_MIN'' (mysql_query_pool_min cfg) 0;
          qmax = envInt env ''MANAGER_MYSQL_QUERY_POOL_MAX'' (mysql_query_pool_max cfg) qmin
      in cfg\<lparr>mysql_write_pool_min := wmin, mysql_write_pool_max := wmax,
             mysql_query_pool_min := qmin, mysql_query_pool_max := qmax,
             mysql_connect_timeout :=
               envInt env ''MANAGER_MYSQL_CONNECT_TIMEOUT_MS'' (mysql_connect_timeout cfg) 1,
             mysql_read_timeout :=
               envInt env ''MANAGER_MYSQL_READ_TIMEOUT_MS'' (mysql_read_timeout cfg) 1,
             mysql_health_check :=
               envInt env ''MANAGER_MYSQL_HEALTH_CHECK_SECONDS'' (mysql_health_check cfg) 1,
             mysql_idle_ttl :=
               envInt env ''MANAGER_MYSQL_IDLE_TTL_SECONDS'' (mysql_idle_ttl cfg) 1\<rparr>)"

definition load_redis :: "environment \<Rightarrow> ManagerConfig \<Rightarrow> ManagerConfig" where
  "load_redis env cfg =
     (let rmin = envInt env ''MANAGER_REDIS_POOL_MIN'' (redis_pool_min cfg) 0;
          rmax = envInt env ''MANAGER_REDIS_POOL_MAX'' (redis_pool_max cfg) rmin
      in cfg\<lparr>redis_enabled := envBool env ''MANAGER_REDIS_ENABLED'' (redis_enabled cfg),
             redis_uri := envString env ''MANAGER_REDIS_URI'' (redis_uri cfg),
             redis_pool_min := rmin, redis_pool_max := rmax,
             redis_connect_timeout :=
               envInt env ''MANAGER_REDIS_CONNECT_TIMEOUT_MS'' (redis_connect_timeout cfg) 1,
             redis_read_timeout :=
               envInt env ''MANAGER_REDIS_READ_TIMEOUT_MS'' (redis_read_timeout cfg) 1,
             redis_health_check :=
               envInt env ''MANAGER_REDIS_HEALTH_CHECK_SECONDS'' (redis_health_check cfg) 1,
             redis_idle_ttl :=
               envInt env ''MANAGER_REDIS_IDLE_TTL_SECONDS'' (redis_idle_ttl cfg) 1,
             redis_cache_ttl :=
               envInt env ''MANAGER_REDIS_CACHE_TTL_SECONDS'' (redis_cache_ttl cfg) 1,
             verbose_log := envBool env ''MANAGER_VERBOSE_LOG'' (verbose_log cfg),
             metrics_log_interval :=
               envInt env ''MANAGER_METRICS_LOG_INTERVAL_SECONDS'' (metrics_log_interval cfg) 1\<rparr>)"

definition loadManagerConfigFromEnv :: "environment \<Rightarrow> u32 \<Rightarrow> ManagerConfig" where
  "loadManagerConfigFromEnv env hw =
     load_redis env (load_mysql env (load_business env hw (load_query_queue env hw
       (load_task_queue env (load_grpc env default_config)))))"

section \<open>The MySQL settings\<close>

record MysqlConfig =
  mc_host :: string
  mc_port :: u32
  mc_user :: string
  mc_password :: string
  mc_database :: string

definition getEnvOrDefault :: "environment \<Rightarrow> string \<Rightarrow> string \<Rightarrow> string" where
  "getEnvOrDefault env name defaultValue =
     (case env name of None \<Rightarrow> defaultValue
      | Some value \<Rightarrow> if value \<noteq> [] then value else defaultValue)"

definition getEnvPortOrDefault :: "environment \<Rightarrow> string \<Rightarrow> u32 \<Rightarrow> u32" where
  "getEnvPortOrDefault env name defaultValue =
     (case env name of None \<Rightarrow> defaultValue
      | Some value \<Rightarrow>
          if value = [] then defaultValue
          else (case strtoul10 value of (port, rest) \<Rightarrow>
                  if rest = value \<or> rest \<noteq> [] \<or> port = 0 \<or> 65535 < port then defaultValue
                  else ucast port))"

definition loadMysqlConfigFromEnv :: "environment \<Rightarrow> MysqlConfig" where
  "loadMysqlConfigFromEnv env =
     \<lparr>mc_host = getEnvOrDefault env ''MYSQL_HOST'' ''127.0.0.1'',
      mc_port = getEnvPortOrDefault env ''MYSQL_PORT'' 3306,
      mc_user = getEnvOrDefault env ''MYSQL_USER'' ''root'',
      mc_password = (case env ''MYSQL_PASSWORD'' of None \<Rightarrow> [] | Some p \<Rightarrow> p),
      mc_database = getEnvOrDefault env ''MYSQL_DATABASE'' ''monitor-system''\<rparr>"

section \<open>The counters\<close>

record ManagerMetrics =
  worker_requests :: u64
  query_requests :: u64
  queue_rejected :: u64
  dropped_monitor_samples :: u64
  task_timeouts :: u64
  task_errors :: u64
  mysql_errors :: u64
  redis_errors :: u64
  pool_timeouts :: u64
  pool_reconnects :: u64

definition zero_metrics :: ManagerMetrics where
  "zero_metrics =
    \<lparr>worker_requests = 0, query_requests = 0, queue_rejected = 0, dropped_monitor_samples = 0,
     task_timeouts = 0, task_errors = 0, mysql_errors = 0, redis_errors = 0,
     pool_timeouts = 0, pool_reconnects = 0\<rparr>"

text \<open>The line \<open>ManagerMetrics::print\<close> writes.\<close>

definition print_metrics :: "ManagerMetrics \<Rightarrow> nat \<Rightarrow> int \<Rightarrow> int \<Rightarrow> int \<Rightarrow> int \<Rightarrow> string" where
  "print_metrics m queueSize businessThreads mysqlWriteAvailable mysqlQueryAvailable redisAvailable =
     ''[manager.metrics] worker_requests='' @ show_nat (unat (worker_requests m))
     @ '' query_requests='' @ show_nat (unat (query_requests m))
     @ '' queue_size='' @ show_nat queueSize
     @ '' business_threads='' @ show_int businessThreads
     @ '' mysql_write_available='' @ show_int mysqlWriteAvailable
     @ '' mysql_query_available='' @ show_int mysqlQueryAvailable
     @ '' redis_available='' @ show_int redisAvailable
     @ '' queue_rejected='' @ show_nat (unat (queue_rejected m))
     @ '' dropped_monitor_samples='' @ show_nat (unat (dropped_monitor_samples m))
     @ '' task_timeouts='' @ show_nat (unat (task_timeouts m))
     @ '' task_errors='' @ show_nat (unat (task_errors m))
     @ '' mysql_errors='' @ show_nat (unat (mysql_errors m))
     @ '' redis_errors='' @ show_nat (unat (redis_errors m))
     @ '' pool_timeouts='' @ show_nat (unat (pool_timeouts m))
     @ '' pool_reconnects='' @ show_nat (unat (pool_reconnects m))"

section \<open>Facts about the loader\<close>

lemma envInt_set:
  assumes "env name = Some (show_nat n)" "n < 2 ^ 31"
  shows "envInt env name fallback lo = max (int n) lo"
  using assms show_nat_nonempty [of n]
  by (auto simp: envInt_def strtol10_show_nat wrap32_id)

lemma envInt_ge: "lo \<le> fallback \<Longrightarrow> lo \<le> envInt env name fallback lo"
  by (auto simp: envInt_def split: option.splits prod.splits)

lemma envInt_upper:
  assumes "fallback < 2 ^ 31" "lo < 2 ^ 31"
  shows "envInt env name fallback lo < 2 ^ 31"
  using assms wrap32_bounds by (auto simp: envInt_def split: option.splits prod.splits)

lemma int_of_size_small:
  assumes "uint w < 2 ^ 31"
  shows "int_of_size w = uint w"
proof -
  have "- (2 ^ 31) \<le> (0::int)" by simp
  also note uint_ge_0 [of w]
  finally show ?thesis unfolding int_of_size_def using assms by (rule wrap32_id)
qed

lemma unat_envSize:
  assumes "uint lo \<le> uint fb" "uint fb < 2 ^ 31"
  shows "unat lo \<le> unat (envSize env name fb lo)" and "unat (envSize env name fb lo) < 2 ^ 31"
proof -
  define i where "i = envInt env name (uint fb) (uint lo)"
  have e: "envSize env name fb lo = size_of_int i"
    using assms by (simp add: envSize_def int_of_size_small i_def)
  have lo: "uint lo \<le> i" using assms(1) unfolding i_def by (rule envInt_ge)
  moreover have hi: "i < 2 ^ 31" unfolding i_def using assms by (intro envInt_upper) auto
  moreover have "0 \<le> i" using lo uint_ge_0 [of lo] by linarith
  ultimately have u: "unat (envSize env name fb lo) = nat i"
    unfolding e by (intro unat_size_of_int) auto
  show "unat lo \<le> unat (envSize env name fb lo)"
    unfolding u using nat_mono [OF lo] by (simp only: unat_eq_nat_uint)
  show "unat (envSize env name fb lo) < 2 ^ 31"
    unfolding u using hi by (simp add: nat_less_iff \<open>0 \<le> i\<close>)
qed

text \<open>Groups loaded later leave the query group alone.\<close>

lemma loaded_query_group [frame_simps]:
  "query_queue_capacity (loadManagerConfigFromEnv env hw) =
     query_queue_capacity (load_query_queue env hw default_config)"
  "query_queue_high_watermark (loadManagerConfigFromEnv env hw) =
     query_queue_high_watermark (load_query_queue env hw default_config)"
  "query_queue_low_watermark (loadManagerConfigFromEnv env hw) =
     query_queue_low_watermark (load_query_queue env hw default_config)"
  "query_threads_min (loadManagerConfigFromEnv env hw) =
     query_threads_min (load_query_queue env hw default_config)"
  "query_threads_max (loadManagerConfigFromEnv env hw) =
     query_threads_max (load_query_queue env hw default_config)"
  "ingest_shard_count (loadManagerConfigFromEnv env hw) =
     ingest_shard_count (load_query_queue env hw default_config)"
  "ingest_queue_capacity_per_shard (loadManagerConfigFromEnv env hw) =
     ingest_queue_capacity_per_shard (load_query_queue env hw default_config)"
  by (simp_all add: loadManagerConfigFromEnv_def load_redis_def load_mysql_def load_business_def
      load_query_queue_def load_task_queue_def load_grpc_def Let_def default_config_def)

lemma loaded_pollers [frame_simps]:
  "grpc_min_pollers (loadManagerConfigFromEnv env hw) = envInt env ''MANAGER_GRPC_MIN_POLLERS'' 8 1"
  "grpc_max_pollers (loadManagerConfigFromEnv env hw) =
     envInt env ''MANAGER_GRPC_MAX_POLLERS'' 64 (envInt env ''MANAGER_GRPC_MIN_POLLERS'' 8 1)"
  by (simp_all add: loadManagerConfigFromEnv_def load_redis_def load_mysql_def load_business_def
      load_query_queue_def load_task_queue_def load_grpc_def Let_def default_config_def)

lemma watermark_order:
  fixes cap high low :: u64
  defines "h \<equiv> (if cap < high then cap else high)"
  shows "h \<le> cap" and "(if h < low then h div 2 else low) \<le> h"
  by (auto simp: h_def not_less word_le_nat_alt word_less_nat_alt unat_div)

lemma query_limits_ordered:
  fixes env hw
  defines "c \<equiv> load_query_queue env hw default_config"
  shows "query_queue_high_watermark c \<le> query_queue_capacity c"
    and "query_queue_low_watermark c \<le> query_queue_high_watermark c"
    and "1 \<le> unat (query_queue_capacity c)" and "1 \<le> unat (ingest_shard_count c)"
    and "1 \<le> unat (ingest_queue_capacity_per_shard c)"
    and "1 \<le> query_threads_min c" and "query_threads_min c \<le> query_threads_max c"
proof -
  show "query_queue_high_watermark c \<le> query_queue_capacity c"
      "query_queue_low_watermark c \<le> query_queue_high_watermark c"
    using watermark_order
    by (simp_all add: c_def load_query_queue_def Let_def)
  show "1 \<le> unat (query_queue_capacity c)" "1 \<le> unat (ingest_shard_count c)"
      "1 \<le> unat (ingest_queue_capacity_per_shard c)"
    using unat_envSize(1) [of 1 10000 env "''MANAGER_QUERY_QUEUE_CAPACITY''"]
      unat_envSize(1) [of 1 8 env "''MANAGER_INGEST_SHARD_COUNT''"]
      unat_envSize(1) [of 1 2048 env "''MANAGER_INGEST_QUEUE_CAPACITY_PER_SHARD''"]
    by (simp_all add: c_def load_query_queue_def Let_def default_config_def)
  show "1 \<le> query_threads_min c" "query_threads_min c \<le> query_threads_max c"
    by (simp_all add: c_def load_query_queue_def Let_def envInt_ge)
qed

lemma getEnvPort_set:
  assumes "env name = Some (show_nat n)"
  shows "getEnvPortOrDefault env name dflt = (if 1 \<le> n \<and> n \<le> 65535 then of_nat n else dflt)"
proof (cases "n < 2 ^ 64")
  case True
  have ne: "show_nat n \<noteq> []" by (rule show_nat_nonempty)
  have u: "unat (word_of_nat n :: u64) = n" using True by (simp add: unat_of_nat)
  have "(65535 :: u64) < word_of_nat n \<longleftrightarrow> 65535 < n" by (simp add: word_less_nat_alt u)
  moreover have "(word_of_nat n :: u64) = 0 \<longleftrightarrow> n = 0" by (simp add: u flip: unat_eq_zero)
  moreover have "ucast (word_of_nat n :: u64) = (word_of_nat n :: u32)"
    by transfer (simp add: take_bit_take_bit)
  ultimately show ?thesis
    using assms ne by (auto simp: getEnvPortOrDefault_def strtoul10_show_nat [OF True])
next
  case False
  have "(65535 :: u64) < - 1" by simp
  with False assms show_nat_nonempty [of n] show ?thesis
    by (auto simp: getEnvPortOrDefault_def strtoul10_def scan_number_show_nat)
qed

section \<open>Properties\<close>

text \<open>
  C32: In every environment, well-formed or not, and for every processor count the loaded
  query and ingest limits are usable and ordered: at least one shard, one slot per queue
  and one query thread; low watermark \<open>\<le>\<close> high watermark \<open>\<le>\<close> capacity; minimum \<open>\<le>\<close> maximum
  number of threads.
\<close>

theorem query_limits:
  "1 \<le> unat (ingest_shard_count (loadManagerConfigFromEnv env hw))
   \<and> 1 \<le> unat (ingest_queue_capacity_per_shard (loadManagerConfigFromEnv env hw))
   \<and> 1 \<le> unat (query_queue_capacity (loadManagerConfigFromEnv env hw))
   \<and> query_queue_high_watermark (loadManagerConfigFromEnv env hw)
       \<le> query_queue_capacity (loadManagerConfigFromEnv env hw)
   \<and> query_queue_low_watermark (loadManagerConfigFromEnv env hw)
       \<le> query_queue_high_watermark (loadManagerConfigFromEnv env hw)
   \<and> 1 \<le> query_threads_min (loadManagerConfigFromEnv env hw)
   \<and> query_threads_min (loadManagerConfigFromEnv env hw) \<le> query_threads_max (loadManagerConfigFromEnv env hw)"
  using query_limits_ordered [of env hw] by (simp add: frame_simps)

text \<open>
  The same does not hold of the settings whose fallback is a constant: with only the
  minimum number of pollers set, to 100, the loader returns a maximum of 64.
\<close>

theorem pollers_unordered:
  "grpc_min_pollers (loadManagerConfigFromEnv [''MANAGER_GRPC_MIN_POLLERS'' \<mapsto> show_nat 100] hw) = 100
   \<and> grpc_max_pollers (loadManagerConfigFromEnv [''MANAGER_GRPC_MIN_POLLERS'' \<mapsto> show_nat 100] hw) = 64"
  using envInt_set [of "[''MANAGER_GRPC_MIN_POLLERS'' \<mapsto> show_nat 100]" "''MANAGER_GRPC_MIN_POLLERS''" 100 8 1]
  by (simp add: frame_simps) (simp add: envInt_def)

text \<open>
  C27: A port written in decimal in \<open>MYSQL_PORT\<close> is the port used when it is one
  (1 to 65535); any other number, zero and numbers beyond 64 bits included, gives 3306.
\<close>

theorem mysql_port_roundtrip:
  assumes "env ''MYSQL_PORT'' = Some (show_nat n)"
  shows "mc_port (loadMysqlConfigFromEnv env) = (if 1 \<le> n \<and> n \<le> 65535 then of_nat n else 3306)"
  using getEnvPort_set [of env "''MYSQL_PORT''", OF assms] by (simp add: loadMysqlConfigFromEnv_def)

theorem mysql_port_roundtrip_witness:
  "mc_port (loadMysqlConfigFromEnv [''MYSQL_PORT'' \<mapsto> show_nat 3307]) = 3307
   \<and> mc_port (loadMysqlConfigFromEnv [''MYSQL_PORT'' \<mapsto> show_nat 70000]) = 3306"
  using mysql_port_roundtrip [of "[''MYSQL_PORT'' \<mapsto> show_nat 3307]" 3307]
    mysql_port_roundtrip [of "[''MYSQL_PORT'' \<mapsto> show_nat 70000]" 70000] by simp

end
