(* ===== verification/Dispatcher.thy ===== *)
theory Dispatcher
  imports Manager_Config
begin

text \<open>
  The task dispatcher, \<open>ManagerDispatcher.h/.cpp\<close>. Monitor pushes go to the shard their
  partition key hashes to, each shard a bounded queue with one worker thread; queries go to
  one bounded queue served by a pool of worker threads that grows above a watermark and
  shrinks when idle. The first part has the operations as functions on the dispatcher's
  state, one iteration of each worker loop included; the second has the threads and their
  interleavings as a step relation at the granularity of the atomic reads and writes.

  \<open>folly::MPMCQueue\<close> and \<open>std::hash\<close> are parameters. The locale \<open>mpmc\<close> states what the
  queue's documentation promises (a bounded FIFO); \<open>fifo_ops\<close> is a list implementation of
  it and shows that the promises can be met.
\<close>

section \<open>The queue interface\<close>

record ('q, 't) mpmc_ops =
  mq_new :: "u64 \<Rightarrow> 'q"
  mq_write :: "'t \<Rightarrow> 'q \<Rightarrow> bool \<times> 'q"
  mq_read :: "'q \<Rightarrow> ('t \<times> 'q) option"
  mq_size :: "'q \<Rightarrow> nat"

locale mpmc =
  fixes ops :: "('q, 't) mpmc_ops"
    and items :: "'q \<Rightarrow> 't list"
    and cap :: "'q \<Rightarrow> nat"
  assumes items_new: "items (mq_new ops c) = []"
    and cap_new: "cap (mq_new ops c) = unat c"
    and write_full: "cap q \<le> length (items q) \<Longrightarrow> mq_write ops t q = (False, q)"
    and write_room: "length (items q) < cap q \<Longrightarrow>
          \<exists>q'. mq_write ops t q = (True, q') \<and> items q' = items q @ [t] \<and> cap q' = cap q"
    and read_empty: "items q = [] \<Longrightarrow> mq_read ops q = None"
    and read_head: "items q = t # ts \<Longrightarrow>
          \<exists>q'. mq_read ops q = Some (t, q') \<and> items q' = ts \<and> cap q' = cap q"
    and size_items: "mq_size ops q = length (items q)"
begin

lemma read_Some: "mq_read ops q = Some (t, q') \<Longrightarrow> items q = t # items q' \<and> cap q' = cap q"
  using read_empty [of q] read_head [of q] by (cases "items q") fastforce+

lemma read_None: "mq_read ops q = None \<longleftrightarrow> items q = []"
  using read_empty [of q] read_head [of q] by (cases "items q") fastforce+

lemma write_cases:
  "mq_write ops t q = (b, q') \<Longrightarrow>
     cap q' = cap q \<and> b = (length (items q) < cap q)
     \<and> items q' = (if b then items q @ [t] else items q)"
  using write_full [of q t] write_room [of q t] by (cases "length (items q) < cap q") auto

lemma write_bounded:
  "mq_write ops t q = (b, q') \<Longrightarrow> length (items q) \<le> cap q \<Longrightarrow> length (items q') \<le> cap q'"
  by (auto dest!: write_cases)

end

text \<open>The bounded FIFO of the documentation: a capacity and a list.\<close>

definition fifo_ops :: "(nat \<times> 't list, 't) mpmc_ops" where
  "fifo_ops =
    \<lparr>mq_new = (\<lambda>c. (unat c, [])),
     mq_write = (\<lambda>t q. case q of (c, ts) \<Rightarrow> if length ts < c then (True, (c, ts @ [t])) else (False, q)),
     mq_read = (\<lambda>q. case q of (c, ts) \<Rightarrow> (case ts of [] \<Rightarrow> None | u # us \<Rightarrow> Some (u, (c, us)))),
     mq_size = (\<lambda>q. length (snd q))\<rparr>"

interpretation fifo: mpmc fifo_ops snd fst
  by unfold_locales (auto simp: fifo_ops_def split: prod.splits)

section \<open>State\<close>

datatype ManagerTaskKind = MonitorPush | Query | Shutdown

text \<open>
  \<open>run\<close> is a \<open>std::function\<close>: empty, or an effect on the world of the tasks that returns
  or throws.
\<close>

record 'w ManagerTask =
  kind :: ManagerTaskKind
  partition_key :: string
  run :: "('w \<Rightarrow> outcome \<times> 'w) option"

record 'q IngestShard =
  is_queue :: 'q
  is_worker :: bool

record 'q ManagerDispatcher =
  d_config :: ManagerConfig
  d_metrics :: "ManagerMetrics option"
  ingestShards :: "'q IngestShard list"
  queryQueue :: 'q
  running :: bool
  queryWorkerCount :: int
  queryWorkers :: "int list"

text \<open>\<open>if (metrics_) metrics_->f.fetch_add (1)\<close>.\<close>

definition bump :: "(ManagerMetrics \<Rightarrow> ManagerMetrics) \<Rightarrow> 'q ManagerDispatcher \<Rightarrow> 'q ManagerDispatcher" where
  "bump f d = d\<lparr>d_metrics := map_option f (d_metrics d)\<rparr>"

section \<open>Operations\<close>

definition ManagerDispatcher_new ::
  "('q, 't) mpmc_ops \<Rightarrow> ManagerConfig \<Rightarrow> ManagerMetrics option \<Rightarrow> 'q ManagerDispatcher" where
  "ManagerDispatcher_new ops config metrics =
     (let shardCount = max 1 (ingest_shard_count config)
      in \<lparr>d_config = config, d_metrics = metrics,
          ingestShards = replicate (unat shardCount)
            \<lparr>is_queue = mq_new ops (max 1 (ingest_queue_capacity_per_shard config)),
             is_worker = False\<rparr>,
          queryQueue = mq_new ops (max 1 (query_queue_capacity config)),
          running = False, queryWorkerCount = 0, queryWorkers = []\<rparr>)"

definition spawnQueryWorker :: "'q ManagerDispatcher \<Rightarrow> 'q ManagerDispatcher" where
  "spawnQueryWorker d =
     (let current = queryWorkerCount d
      in if query_threads_max (d_config d) \<le> current then d
         else d\<lparr>queryWorkerCount := current + 1, queryWorkers := queryWorkers d @ [current + 1]\<rparr>)"

definition dispatcher_start :: "'q ManagerDispatcher \<Rightarrow> 'q ManagerDispatcher" where
  "dispatcher_start d =
     (if running d then d
      else let d = d\<lparr>running := True,
                     ingestShards := map (\<lambda>s. s\<lparr>is_worker := True\<rparr>) (ingestShards d)\<rparr>;
               initialQueryThreads =
                 max 1 (min (query_threads_min (d_config d)) (query_threads_max (d_config d)))
           in (spawnQueryWorker ^^ nat initialQueryThreads) d)"

definition shardIndexFor :: "(string \<Rightarrow> u64) \<Rightarrow> 'q ManagerDispatcher \<Rightarrow> string \<Rightarrow> nat" where
  "shardIndexFor hash d partitionKey =
     (if ingestShards d = [] then 0 else unat (hash partitionKey) mod length (ingestShards d))"

definition enqueueIngest ::
  "('q, 't) mpmc_ops \<Rightarrow> (string \<Rightarrow> u64) \<Rightarrow> string \<Rightarrow> 't \<Rightarrow> 'q ManagerDispatcher \<Rightarrow> bool \<times> 'q ManagerDispatcher" where
  "enqueueIngest ops hash partitionKey task d =
     (if \<not> running d \<or> ingestShards d = [] then (False, d)
      else let i = shardIndexFor hash d partitionKey
           in case mq_write ops task (is_queue (ingestShards d ! i)) of (b, q) \<Rightarrow>
                (b, d\<lparr>ingestShards := (ingestShards d)[i := (ingestShards d ! i)\<lparr>is_queue := q\<rparr>]\<rparr>))"

definition enqueueQuery ::
  "('q, 't) mpmc_ops \<Rightarrow> 't \<Rightarrow> 'q ManagerDispatcher \<Rightarrow> bool \<times> 'q ManagerDispatcher" where
  "enqueueQuery ops task d =
     (if \<not> running d then (False, d)
      else case mq_write ops task (queryQueue d) of (b, q) \<Rightarrow> (b, d\<lparr>queryQueue := q\<rparr>))"

definition submitMonitorTask ::
  "('q, 'w ManagerTask) mpmc_ops \<Rightarrow> (string \<Rightarrow> u64) \<Rightarrow> string \<Rightarrow> ('w \<Rightarrow> outcome \<times> 'w) option
     \<Rightarrow> 'q ManagerDispatcher \<Rightarrow> bool \<times> 'q ManagerDispatcher" where
  "submitMonitorTask ops hash partitionKey task d =
     (let managerTask = \<lparr>kind = MonitorPush, partition_key = partitionKey, run = task\<rparr>
      in case enqueueIngest ops hash partitionKey managerTask d of (b, d) \<Rightarrow>
           if \<not> b then (False, bump (\<lambda>m. m\<lparr>queue_rejected := queue_rejected m + 1,
                                          dropped_monitor_samples := dropped_monitor_samples m + 1\<rparr>) d)
           else (True, bump (\<lambda>m. m\<lparr>worker_requests := worker_requests m + 1\<rparr>) d))"

definition queryQueueSize :: "('q, 't) mpmc_ops \<Rightarrow> 'q ManagerDispatcher \<Rightarrow> nat" where
  "queryQueueSize ops d = mq_size ops (queryQueue d)"

definition ingestQueueSize :: "('q, 't) mpmc_ops \<Rightarrow> 'q ManagerDispatcher \<Rightarrow> nat" where
  "ingestQueueSize ops d = sum_list (map (\<lambda>s. mq_size ops (is_queue s)) (ingestShards d))"

definition queueSize :: "('q, 't) mpmc_ops \<Rightarrow> 'q ManagerDispatcher \<Rightarrow> nat" where
  "queueSize ops d = ingestQueueSize ops d + queryQueueSize ops d"

definition workerCount :: "'q ManagerDispatcher \<Rightarrow> int" where
  "workerCount d = int (length (ingestShards d)) + queryWorkerCount d"

definition maybeScaleUpQuery :: "('q, 't) mpmc_ops \<Rightarrow> 'q ManagerDispatcher \<Rightarrow> 'q ManagerDispatcher" where
  "maybeScaleUpQuery ops d =
     (if queryQueueSize ops d < unat (query_queue_high_watermark (d_config d)) then d
      else if query_threads_max (d_config d) \<le> queryWorkerCount d then d
      else spawnQueryWorker d)"

text \<open>
  The world of the tasks: what they act on, and the promises of the queries in flight. A
  promise holds the status and the response object the task filled in.
\<close>

record ('s, 'r) world =
  app :: 's
  promises :: "nat \<Rightarrow> (grpc_Status \<times> 'r option) option"
  next_promise :: nat

type_synonym ('s, 'r) query_fun = "'s \<Rightarrow> (exn + grpc_Status \<times> 'r) \<times> 's"

definition query_run ::
  "nat \<Rightarrow> ('s, 'r) query_fun \<Rightarrow> ('s, 'r) world \<Rightarrow> outcome \<times> ('s, 'r) world" where
  "query_run p task w =
     (case task (app w) of (res, a) \<Rightarrow>
        let v = (case res of
              Inr (status, r) \<Rightarrow> (status, Some r)
            | Inl (StdException what) \<Rightarrow> ((INTERNAL, ''manager query task failed: '' @ what), None)
            | Inl UnknownException \<Rightarrow> ((INTERNAL, ''manager query task failed with unknown error''), None))
        in (Returned, w\<lparr>app := a, promises := (promises w)(p \<mapsto> v)\<rparr>))"

text \<open>
  \<open>submitQueryTask\<close>; \<open>response = None\<close> is the null pointer and \<open>during\<close> is what the other
  threads do to the dispatcher and the world until the future is ready or the timeout has
  passed.
\<close>

definition submitQueryTask ::
  "('q, ('s, 'r) world ManagerTask) mpmc_ops
   \<Rightarrow> ('q ManagerDispatcher \<times> ('s, 'r) world \<Rightarrow> 'q ManagerDispatcher \<times> ('s, 'r) world)
   \<Rightarrow> ('s, 'r) query_fun \<Rightarrow> 'r option \<Rightarrow> 'q ManagerDispatcher \<Rightarrow> ('s, 'r) world
   \<Rightarrow> grpc_Status \<times> 'r option \<times> 'q ManagerDispatcher \<times> ('s, 'r) world" where
  "submitQueryTask ops during task response d w =
     (if response = None then ((INVALID_ARGUMENT, ''null response''), response, d, w)
      else
        let high = unat (query_queue_high_watermark (d_config d)) \<le> queryQueueSize ops d;
            d = (if high then maybeScaleUpQuery ops d else d);
            reject = (\<lambda>d w. ((RESOURCE_EXHAUSTED, ''manager query queue is full''), response,
                       bump (\<lambda>m. m\<lparr>queue_rejected := queue_rejected m + 1\<rparr>) d, w))
        in if high \<and> unat (query_queue_capacity (d_config d)) \<le> queryQueueSize ops d then reject d w
           else
             let p = next_promise w;
                 w = w\<lparr>next_promise := Suc p\<rparr>;
                 managerTask = \<lparr>kind = Query, partition_key = [], run = Some (query_run p task)\<rparr>
             in case enqueueQuery ops managerTask d of (b, d) \<Rightarrow>
                  if \<not> b then reject d w
                  else
                    let d = bump (\<lambda>m. m\<lparr>query_requests := query_requests m + 1\<rparr>) d
                    in case during (d, w) of (d, w) \<Rightarrow>
                         (case promises w p of
                            None \<Rightarrow> ((DEADLINE_EXCEEDED, ''manager query task timed out''), response,
                                     bump (\<lambda>m. m\<lparr>task_timeouts := task_timeouts m + 1\<rparr>) d, w)
                          | Some (status, r) \<Rightarrow> (status, if ok status then r else response, d, w)))"

text \<open>The body of the \<open>try\<close> in both worker loops.\<close>

definition run_task ::
  "'w ManagerTask \<Rightarrow> 'q ManagerDispatcher \<times> 'w \<Rightarrow> 'q ManagerDispatcher \<times> 'w" where
  "run_task task dw =
     (case dw of (d, w) \<Rightarrow>
        (case run task of None \<Rightarrow> (d, w)
         | Some f \<Rightarrow>
             (case f w of
                (Returned, w) \<Rightarrow> (d, w)
              | (Threw, w) \<Rightarrow> (bump (\<lambda>m. m\<lparr>task_errors := task_errors m + 1\<rparr>) d, w))))"

definition ingestWorkerLoop ::
  "('q, 'w ManagerTask) mpmc_ops \<Rightarrow> nat \<Rightarrow> 'q ManagerDispatcher \<times> 'w
     \<Rightarrow> ('q ManagerDispatcher \<times> 'w) loop_step" where
  "ingestWorkerLoop ops shardIndex dw =
     (case dw of (d, w) \<Rightarrow>
        let s = ingestShards d ! shardIndex
        in if running d \<or> 0 < mq_size ops (is_queue s)
           then (case mq_read ops (is_queue s) of
                   None \<Rightarrow> Again (d, w)
                 | Some (task, q) \<Rightarrow>
                     Again (run_task task
                       (d\<lparr>ingestShards := (ingestShards d)[shardIndex := s\<lparr>is_queue := q\<rparr>]\<rparr>, w)))
           else Exit (d, w))"

text \<open>
  One iteration of \<open>queryWorkerLoop\<close>; \<open>idleSince\<close> is its local variable and \<open>now\<close> the time
  of the iteration, in nanoseconds. Both ways out of the function decrement the count.
\<close>

definition queryWorkerLoop ::
  "('q, 'w ManagerTask) mpmc_ops \<Rightarrow> int \<Rightarrow> int \<Rightarrow> 'q ManagerDispatcher \<times> 'w
     \<Rightarrow> (int \<times> 'q ManagerDispatcher \<times> 'w) loop_step" where
  "queryWorkerLoop ops now idleSince dw =
     (case dw of (d, w) \<Rightarrow>
        if running d \<or> 0 < queryQueueSize ops d
        then (case mq_read ops (queryQueue d) of
                None \<Rightarrow>
                  if query_threads_min (d_config d) < queryWorkerCount d
                     \<and> query_idle_shrink (d_config d) * 1000000000 \<le> now - idleSince
                  then Exit (idleSince, d\<lparr>queryWorkerCount := queryWorkerCount d - 1\<rparr>, w)
                  else Again (idleSince, d, w)
              | Some (task, q) \<Rightarrow> Again (now, run_task task (d\<lparr>queryQueue := q\<rparr>, w)))
        else Exit (idleSince, d\<lparr>queryWorkerCount := queryWorkerCount d - 1\<rparr>, w))"

text \<open>
  Joining a thread: its loop runs until it leaves; \<open>None\<close> when the fuel does not suffice.
  After \<open>running\<close> is cleared a loop leaves when its queue is empty, so one unit per queued
  task and one for the exit are enough (\<open>join_ingest_drains\<close>).
\<close>

fun join_ingest ::
  "('q, 'w ManagerTask) mpmc_ops \<Rightarrow> nat \<Rightarrow> nat \<Rightarrow> 'q ManagerDispatcher \<times> 'w
     \<Rightarrow> ('q ManagerDispatcher \<times> 'w) option" where
  "join_ingest ops i 0 dw = None"
| "join_ingest ops i (Suc fuel) dw =
     (case ingestWorkerLoop ops i dw of Exit dw \<Rightarrow> Some dw | Again dw \<Rightarrow> join_ingest ops i fuel dw)"

fun join_query ::
  "('q, 'w ManagerTask) mpmc_ops \<Rightarrow> int \<Rightarrow> nat \<Rightarrow> 'q ManagerDispatcher \<times> 'w
     \<Rightarrow> ('q ManagerDispatcher \<times> 'w) option" where
  "join_query ops now 0 dw = None"
| "join_query ops now (Suc fuel) dw =
     (case queryWorkerLoop ops now now dw of
        Exit (t, dw) \<Rightarrow> Some dw | Again (t, dw) \<Rightarrow> join_query ops now fuel dw)"

text \<open>A query worker goes round \<open>n\<close> times (or leaves earlier).\<close>

fun serve ::
  "('q, 'w ManagerTask) mpmc_ops \<Rightarrow> int \<Rightarrow> nat \<Rightarrow> 'q ManagerDispatcher \<times> 'w \<Rightarrow> 'q ManagerDispatcher \<times> 'w" where
  "serve ops now 0 dw = dw"
| "serve ops now (Suc n) dw =
     (case queryWorkerLoop ops now now dw of Exit (t, dw) \<Rightarrow> dw | Again (t, dw) \<Rightarrow> serve ops now n dw)"

text \<open>\<open>joinable ()\<close> is false afterwards, so a second \<open>join\<close> does nothing.\<close>

definition join_shard ::
  "('q, 'w ManagerTask) mpmc_ops \<Rightarrow> nat \<Rightarrow> nat \<Rightarrow> 'q ManagerDispatcher \<times> 'w
     \<Rightarrow> ('q ManagerDispatcher \<times> 'w) option" where
  "join_shard ops fuel i dw =
     (if is_worker (ingestShards (fst dw) ! i)
      then map_option (\<lambda>(d, w). (d\<lparr>ingestShards :=
             (ingestShards d)[i := (ingestShards d ! i)\<lparr>is_worker := False\<rparr>]\<rparr>, w))
             (join_ingest ops i fuel dw)
      else Some dw)"

fun join_all :: "('b \<Rightarrow> 'a \<Rightarrow> 'a option) \<Rightarrow> 'b list \<Rightarrow> 'a \<Rightarrow> 'a option" where
  "join_all f [] a = Some a"
| "join_all f (x # xs) a = (case f x a of None \<Rightarrow> None | Some b \<Rightarrow> join_all f xs b)"

definition dispatcher_stop ::
  "('q, 'w ManagerTask) mpmc_ops \<Rightarrow> int \<Rightarrow> nat \<Rightarrow> 'q ManagerDispatcher \<times> 'w
     \<Rightarrow> ('q ManagerDispatcher \<times> 'w) option" where
  "dispatcher_stop ops now fuel dw =
     (case dw of (d, w) \<Rightarrow>
        if \<not> running d then Some (d, w)
        else (case join_all (join_shard ops fuel) [0..<length (ingestShards d)]
                     (d\<lparr>running := False\<rparr>, w) of
                None \<Rightarrow> None
              | Some (d, w) \<Rightarrow>
                  join_all (\<lambda>_. join_query ops now fuel) (queryWorkers d) (d\<lparr>queryWorkers := []\<rparr>, w)))"

section \<open>Facts about the operations\<close>

text \<open>The queued tasks per shard, and what running tasks in a given order does to the world.\<close>

definition backlog :: "('q \<Rightarrow> 't list) \<Rightarrow> 'q ManagerDispatcher \<Rightarrow> 't list list" where
  "backlog items d = map (\<lambda>s. items (is_queue s)) (ingestShards d)"

definition effect :: "'w ManagerTask \<Rightarrow> 'w \<Rightarrow> 'w" where
  "effect t w = (case run t of None \<Rightarrow> w | Some f \<Rightarrow> snd (f w))"

lemma bump_simps [simp, frame_simps]:
  "d_config (bump f d) = d_config d" "ingestShards (bump f d) = ingestShards d"
  "queryQueue (bump f d) = queryQueue d" "running (bump f d) = running d"
  "queryWorkerCount (bump f d) = queryWorkerCount d" "queryWorkers (bump f d) = queryWorkers d"
  "d_metrics (bump f d) = map_option f (d_metrics d)"
  by (simp_all add: bump_def)

lemma backlog_bump [simp]: "backlog items (bump f d) = backlog items d"
  by (simp add: backlog_def)

lemma length_backlog [simp]: "length (backlog items d) = length (ingestShards d)"
  by (simp add: backlog_def)

lemma shardIndexFor_less: "ingestShards d \<noteq> [] \<Longrightarrow> shardIndexFor hash d key < length (ingestShards d)"
  by (simp add: shardIndexFor_def)

lemma run_task_frame [simp, frame_simps]:
  "ingestShards (fst (run_task t (d, w))) = ingestShards d"
  "queryQueue (fst (run_task t (d, w))) = queryQueue d"
  "running (fst (run_task t (d, w))) = running d"
  "queryWorkers (fst (run_task t (d, w))) = queryWorkers d"
  "queryWorkerCount (fst (run_task t (d, w))) = queryWorkerCount d"
  "d_config (fst (run_task t (d, w))) = d_config d"
  "snd (run_task t (d, w)) = effect t w"
  by (auto simp: run_task_def effect_def split: option.splits prod.splits outcome.splits)

lemma backlog_update:
  "i < length (ingestShards d) \<Longrightarrow>
     backlog items (d\<lparr>ingestShards := (ingestShards d)[i := (ingestShards d ! i)\<lparr>is_queue := q\<rparr>]\<rparr>) =
       (backlog items d)[i := items q]"
  by (simp add: backlog_def map_update)

lemma new_shape:
  "ingestShards (ManagerDispatcher_new ops cfg m) \<noteq> []"
  "length (ingestShards (ManagerDispatcher_new ops cfg m)) = unat (max 1 (ingest_shard_count cfg))"
proof -
  have "(1::u64) \<le> max 1 (ingest_shard_count cfg)" by (rule max.cobounded1)
  then have "1 \<le> unat (max 1 (ingest_shard_count cfg))" by (simp add: word_le_nat_alt)
  then show "ingestShards (ManagerDispatcher_new ops cfg m) \<noteq> []"
    by (auto simp: ManagerDispatcher_new_def Let_def)
qed (simp add: ManagerDispatcher_new_def Let_def)

lemma spawn_count:
  "queryWorkerCount (spawnQueryWorker d) =
     (if query_threads_max (d_config d) \<le> queryWorkerCount d then queryWorkerCount d
      else queryWorkerCount d + 1)"
  "d_config (spawnQueryWorker d) = d_config d" "queryQueue (spawnQueryWorker d) = queryQueue d"
  "ingestShards (spawnQueryWorker d) = ingestShards d" "running (spawnQueryWorker d) = running d"
  "d_metrics (spawnQueryWorker d) = d_metrics d"
  "length (queryWorkers (spawnQueryWorker d)) =
     (if query_threads_max (d_config d) \<le> queryWorkerCount d then length (queryWorkers d)
      else Suc (length (queryWorkers d)))"
  by (simp_all add: spawnQueryWorker_def Let_def)

lemma spawn_power:
  "d_config ((spawnQueryWorker ^^ n) d) = d_config d"
  "ingestShards ((spawnQueryWorker ^^ n) d) = ingestShards d"
  "running ((spawnQueryWorker ^^ n) d) = running d"
  "int (length (queryWorkers d)) = queryWorkerCount d \<Longrightarrow>
     int (length (queryWorkers ((spawnQueryWorker ^^ n) d))) = queryWorkerCount ((spawnQueryWorker ^^ n) d)"
  "queryWorkerCount d \<le> query_threads_max (d_config d) \<Longrightarrow>
     queryWorkerCount ((spawnQueryWorker ^^ n) d) =
       min (queryWorkerCount d + int n) (query_threads_max (d_config d))"
  by (induction n) (auto simp: spawn_count)

lemma scale_up_frame [simp, frame_simps]:
  "queryQueue (maybeScaleUpQuery ops d) = queryQueue d"
  "d_config (maybeScaleUpQuery ops d) = d_config d" "running (maybeScaleUpQuery ops d) = running d"
  "d_metrics (maybeScaleUpQuery ops d) = d_metrics d"
  by (simp_all add: maybeScaleUpQuery_def spawn_count)

text \<open>A queue of dispatcher tasks.\<close>

locale task_queue = mpmc ops items cap
  for ops :: "('q, 'w ManagerTask) mpmc_ops" and items and cap
begin

lemma submit_refines:
  assumes "ingestShards d \<noteq> []"
    and "submitMonitorTask ops hash key f d = (b, d')"
  defines "i \<equiv> shardIndexFor hash d key"
  shows "b \<longleftrightarrow> running d \<and> length (backlog items d ! i) < cap (is_queue (ingestShards d ! i))"
    and "backlog items d' =
           (if b then (backlog items d)[i := backlog items d ! i @
                         [\<lparr>kind = MonitorPush, partition_key = key, run = f\<rparr>]]
            else backlog items d)"
    and "d_metrics d' = map_option (\<lambda>m. if b then m\<lparr>worker_requests := worker_requests m + 1\<rparr>
           else m\<lparr>queue_rejected := queue_rejected m + 1,
                  dropped_monitor_samples := dropped_monitor_samples m + 1\<rparr>) (d_metrics d)"
proof -
  let ?t = "\<lparr>kind = MonitorPush, partition_key = key, run = f\<rparr>" and ?q = "is_queue (ingestShards d ! i)"
  have i: "i < length (ingestShards d)" unfolding i_def using assms(1) by (rule shardIndexFor_less)
  have it: "backlog items d ! i = items ?q" using i by (simp add: backlog_def)
  obtain c q' where w: "mq_write ops ?t ?q = (c, q')" by (cases "mq_write ops ?t ?q")
  note wc = write_cases [OF w]
  have keep: "(backlog items d)[i := items ?q] = backlog items d"
    using it by (metis list_update_id)
  show "b \<longleftrightarrow> running d \<and> length (backlog items d ! i) < cap ?q"
    using assms(1,2) w wc it
    by (auto simp: submitMonitorTask_def enqueueIngest_def Let_def i_def [symmetric] split: if_splits)
  show "backlog items d' = (if b then (backlog items d)[i := backlog items d ! i @ [?t]] else backlog items d)"
    using assms(1,2) w wc it keep i
    by (auto simp: submitMonitorTask_def enqueueIngest_def Let_def i_def [symmetric] backlog_update
        split: if_splits)
  show "d_metrics d' = map_option (\<lambda>m. if b then m\<lparr>worker_requests := worker_requests m + 1\<rparr>
           else m\<lparr>queue_rejected := queue_rejected m + 1,
                  dropped_monitor_samples := dropped_monitor_samples m + 1\<rparr>) (d_metrics d)"
    using assms(1,2) w
    by (auto simp: submitMonitorTask_def enqueueIngest_def Let_def i_def [symmetric] split: if_splits)
qed

lemma ingest_iteration:
  assumes "i < length (ingestShards d)" "\<not> running d"
  shows "backlog items d ! i = [] \<Longrightarrow> ingestWorkerLoop ops i (d, w) = Exit (d, w)"
    and "backlog items d ! i = t # ts \<Longrightarrow>
      \<exists>d'. ingestWorkerLoop ops i (d, w) = Again (d', effect t w)
        \<and> backlog items d' = (backlog items d)[i := ts] \<and> running d' = running d
        \<and> queryQueue d' = queryQueue d \<and> queryWorkers d' = queryWorkers d
        \<and> map is_worker (ingestShards d') = map is_worker (ingestShards d)"
proof -
  let ?s = "ingestShards d ! i"
  have it: "backlog items d ! i = items (is_queue ?s)" using assms by (simp add: backlog_def)
  show "backlog items d ! i = [] \<Longrightarrow> ingestWorkerLoop ops i (d, w) = Exit (d, w)"
    using assms it by (simp add: ingestWorkerLoop_def Let_def size_items)
  assume hd: "backlog items d ! i = t # ts"
  then obtain q where q: "mq_read ops (is_queue ?s) = Some (t, q)" "items q = ts"
    using read_head [of "is_queue ?s" t ts] it by auto
  let ?d = "d\<lparr>ingestShards := (ingestShards d)[i := ?s\<lparr>is_queue := q\<rparr>]\<rparr>"
  have "items (is_queue ?s) = t # ts" using it hd by simp
  then have "ingestWorkerLoop ops i (d, w) = Again (run_task t (?d, w))"
    using assms(1,2) q(1) by (simp add: ingestWorkerLoop_def Let_def size_items)
  moreover have "map is_worker (ingestShards ?d) = map is_worker (ingestShards d)"
    using assms(1) by (simp add: map_update) (metis list_update_id map_update nth_map)
  ultimately show "\<exists>d'. ingestWorkerLoop ops i (d, w) = Again (d', effect t w)
        \<and> backlog items d' = (backlog items d)[i := ts] \<and> running d' = running d
        \<and> queryQueue d' = queryQueue d \<and> queryWorkers d' = queryWorkers d
        \<and> map is_worker (ingestShards d') = map is_worker (ingestShards d)"
    using assms q(2) backlog_update [of i d items q]
    by (intro exI [of _ "fst (run_task t (?d, w))"]) (auto simp: backlog_def prod_eq_iff)
qed

lemma join_ingest_drains:
  assumes "i < length (ingestShards d)" "\<not> running d" "length (backlog items d ! i) < fuel"
  shows "\<exists>d'. join_ingest ops i fuel (d, w) = Some (d', fold effect (backlog items d ! i) w)
      \<and> backlog items d' = (backlog items d)[i := []] \<and> \<not> running d'
      \<and> queryQueue d' = queryQueue d \<and> queryWorkers d' = queryWorkers d
      \<and> map is_worker (ingestShards d') = map is_worker (ingestShards d)"
  using assms
proof (induction "backlog items d ! i" arbitrary: d w fuel)
  case Nil
  then obtain n where n: "fuel = Suc n" by (cases fuel) auto
  have e: "backlog items d ! i = []" by (simp add: Nil.hyps)
  have "(backlog items d)[i := []] = backlog items d" by (metis e list_update_id)
  with e n Nil.prems ingest_iteration(1) [of i d w] show ?case by simp
next
  case (Cons t ts)
  then obtain n where n: "fuel = Suc n" by (cases fuel) auto
  obtain d1 where d1: "ingestWorkerLoop ops i (d, w) = Again (d1, effect t w)"
      "backlog items d1 = (backlog items d)[i := ts]" "running d1 = running d"
      "queryQueue d1 = queryQueue d" "queryWorkers d1 = queryWorkers d"
      "map is_worker (ingestShards d1) = map is_worker (ingestShards d)"
    using ingest_iteration(2) [of i d t ts w] Cons by auto
  have len: "length (ingestShards d1) = length (ingestShards d)"
    using d1(6) by (rule map_eq_imp_length_eq)
  have "ts = backlog items d1 ! i" "length (backlog items d1 ! i) < n"
    using Cons.hyps(2) [symmetric] Cons.prems d1(2) n by auto
  then show ?case
    using Cons.hyps(1) [of d1 n "effect t w"] Cons.hyps(2) [symmetric] Cons.prems d1 len n by auto
qed

lemma join_shard_drains:
  assumes "i < length (ingestShards d)" "\<not> running d" "length (backlog items d ! i) < fuel"
    and "is_worker (ingestShards d ! i)"
  shows "\<exists>d'. join_shard ops fuel i (d, w) = Some (d', fold effect (backlog items d ! i) w)
      \<and> backlog items d' = (backlog items d)[i := []] \<and> \<not> running d'
      \<and> queryQueue d' = queryQueue d \<and> queryWorkers d' = queryWorkers d
      \<and> map is_worker (ingestShards d') = (map is_worker (ingestShards d))[i := False]"
proof -
  obtain d' where d': "join_ingest ops i fuel (d, w) = Some (d', fold effect (backlog items d ! i) w)"
      "backlog items d' = (backlog items d)[i := []]" "\<not> running d'"
      "queryQueue d' = queryQueue d" "queryWorkers d' = queryWorkers d"
      "map is_worker (ingestShards d') = map is_worker (ingestShards d)"
    using join_ingest_drains [OF assms(1,2,3), of w] by blast
  let ?d = "d'\<lparr>ingestShards := (ingestShards d')[i := (ingestShards d' ! i)\<lparr>is_worker := False\<rparr>]\<rparr>"
  have "i < length (ingestShards d')" using d'(6) assms(1) by (metis map_eq_imp_length_eq)
  then have "backlog items ?d = backlog items d'"
    by (simp add: backlog_def map_update) (metis list_update_id map_update)
  then show ?thesis
    using assms(4) d' by (auto simp: join_shard_def map_update intro!: exI [of _ ?d])
qed

text \<open>Joining the shards one after the other runs every queued task, shard by shard.\<close>

lemma join_shards_drain:
  assumes "k \<le> length (ingestShards d)" "\<not> running d"
    and "\<forall>j < length (ingestShards d). k \<le> j \<longrightarrow> length (backlog items d ! j) < fuel"
    and "\<forall>j < length (ingestShards d). k \<le> j \<longrightarrow> is_worker (ingestShards d ! j)"
    and "\<forall>j < k. backlog items d ! j = []"
  shows "\<exists>d'. join_all (join_shard ops fuel) [k..<length (ingestShards d)] (d, w) =
        Some (d', fold effect (concat (drop k (backlog items d))) w)
      \<and> backlog items d' = replicate (length (ingestShards d)) [] \<and> \<not> running d'
      \<and> queryQueue d' = queryQueue d \<and> queryWorkers d' = queryWorkers d"
  using assms
proof (induction "length (ingestShards d) - k" arbitrary: d k w)
  case 0
  then have "backlog items d = replicate (length (ingestShards d)) []"
    by (intro nth_equalityI) auto
  with 0 show ?case by simp
next
  case (Suc n)
  let ?m = "length (ingestShards d)"
  have k: "k < ?m" using Suc.hyps(2) by simp
  obtain d1 where d1: "join_shard ops fuel k (d, w) = Some (d1, fold effect (backlog items d ! k) w)"
      "backlog items d1 = (backlog items d)[k := []]" "\<not> running d1"
      "queryQueue d1 = queryQueue d" "queryWorkers d1 = queryWorkers d"
      "map is_worker (ingestShards d1) = (map is_worker (ingestShards d))[k := False]"
    using join_shard_drains [of k d fuel w] k Suc.prems by auto
  have len: "length (ingestShards d1) = ?m" by (metis d1(6) length_list_update length_map)
  have w1: "is_worker (ingestShards d1 ! j) = is_worker (ingestShards d ! j)" if "j < ?m" "j \<noteq> k" for j
    using that d1(6) len by (metis length_map nth_list_update_neq nth_map)
  have "\<exists>d'. join_all (join_shard ops fuel) [Suc k..<length (ingestShards d1)]
          (d1, fold effect (backlog items d ! k) w) =
        Some (d', fold effect (concat (drop (Suc k) (backlog items d1))) (fold effect (backlog items d ! k) w))
      \<and> backlog items d' = replicate (length (ingestShards d1)) [] \<and> \<not> running d'
      \<and> queryQueue d' = queryQueue d1 \<and> queryWorkers d' = queryWorkers d1"
  proof (rule Suc.hyps(1))
    show "n = length (ingestShards d1) - Suc k" using Suc.hyps(2) len by simp
    show "\<forall>j<Suc k. backlog items d1 ! j = []"
      using d1(2) k Suc.prems(5) by (auto simp: nth_list_update less_Suc_eq)
  qed (use k len d1 w1 Suc.prems in auto)
  moreover have "drop k (backlog items d) = backlog items d ! k # drop (Suc k) (backlog items d)"
    using k by (simp add: Cons_nth_drop_Suc)
  ultimately show ?case
    using d1 k len by (auto simp: upt_conv_Cons)
qed

lemma query_iteration:
  shows "\<not> running d \<Longrightarrow> items (queryQueue d) = [] \<Longrightarrow>
      queryWorkerLoop ops now t0 (d, w) = Exit (t0, d\<lparr>queryWorkerCount := queryWorkerCount d - 1\<rparr>, w)"
    and "items (queryQueue d) = t # ts \<Longrightarrow>
      \<exists>d'. queryWorkerLoop ops now t0 (d, w) = Again (now, d', effect t w)
        \<and> items (queryQueue d') = ts \<and> running d' = running d \<and> ingestShards d' = ingestShards d
        \<and> queryWorkers d' = queryWorkers d \<and> queryWorkerCount d' = queryWorkerCount d"
proof -
  show "\<not> running d \<Longrightarrow> items (queryQueue d) = [] \<Longrightarrow>
      queryWorkerLoop ops now t0 (d, w) = Exit (t0, d\<lparr>queryWorkerCount := queryWorkerCount d - 1\<rparr>, w)"
    by (simp add: queryWorkerLoop_def queryQueueSize_def size_items)
  assume hd: "items (queryQueue d) = t # ts"
  then obtain q where q: "mq_read ops (queryQueue d) = Some (t, q)" "items q = ts"
    using read_head by blast
  then have "queryWorkerLoop ops now t0 (d, w) = Again (now, run_task t (d\<lparr>queryQueue := q\<rparr>, w))"
    using hd by (simp add: queryWorkerLoop_def queryQueueSize_def size_items)
  then show "\<exists>d'. queryWorkerLoop ops now t0 (d, w) = Again (now, d', effect t w)
        \<and> items (queryQueue d') = ts \<and> running d' = running d \<and> ingestShards d' = ingestShards d
        \<and> queryWorkers d' = queryWorkers d \<and> queryWorkerCount d' = queryWorkerCount d"
    using q(2) by (intro exI [of _ "fst (run_task t (d\<lparr>queryQueue := q\<rparr>, w))"]) (simp add: prod_eq_iff)
qed

lemma join_query_drains:
  assumes "\<not> running d" "length (items (queryQueue d)) < fuel"
  shows "\<exists>d'. join_query ops now fuel (d, w) = Some (d', fold effect (items (queryQueue d)) w)
      \<and> items (queryQueue d') = [] \<and> \<not> running d' \<and> ingestShards d' = ingestShards d
      \<and> queryWorkers d' = queryWorkers d \<and> queryWorkerCount d' = queryWorkerCount d - 1"
  using assms
proof (induction "items (queryQueue d)" arbitrary: d w fuel)
  case Nil
  then obtain n where "fuel = Suc n" by (cases fuel) auto
  with Nil query_iteration(1) [of d now now w] show ?case by (simp add: Nil.hyps [symmetric])
next
  case (Cons t ts)
  then obtain n where n: "fuel = Suc n" by (cases fuel) auto
  obtain d1 where d1: "queryWorkerLoop ops now now (d, w) = Again (now, d1, effect t w)"
      "items (queryQueue d1) = ts" "running d1 = running d" "ingestShards d1 = ingestShards d"
      "queryWorkers d1 = queryWorkers d" "queryWorkerCount d1 = queryWorkerCount d"
    using query_iteration(2) [of d t ts now now w] Cons by auto
  have "length (items (queryQueue d1)) < n"
    using Cons.hyps(2) [symmetric] Cons.prems d1(2) n by simp
  then show ?case
    using Cons.hyps(1) [of d1 n "effect t w"] Cons.hyps(2) [symmetric] Cons.prems d1 n by auto
qed

lemma join_workers_exit:
  assumes "\<not> running d" "items (queryQueue d) = []" "0 < fuel"
  shows "\<exists>d'. join_all (\<lambda>_. join_query ops now fuel) ws (d, w) = Some (d', w)
      \<and> items (queryQueue d') = [] \<and> ingestShards d' = ingestShards d \<and> \<not> running d'
      \<and> queryWorkers d' = queryWorkers d \<and> queryWorkerCount d' = queryWorkerCount d - int (length ws)"
  using assms
proof (induction ws arbitrary: d)
  case (Cons a ws)
  obtain d1 where d1: "join_query ops now fuel (d, w) = Some (d1, w)" "items (queryQueue d1) = []"
      "\<not> running d1" "ingestShards d1 = ingestShards d" "queryWorkers d1 = queryWorkers d"
      "queryWorkerCount d1 = queryWorkerCount d - 1"
    using join_query_drains [of d fuel now w] Cons.prems by auto
  then show ?case using Cons.IH [of d1] Cons.prems by auto
qed simp

lemma stop_drains:
  assumes "running d" "\<forall>s \<in> set (ingestShards d). is_worker s" "queryWorkers d \<noteq> []"
    and "\<forall>b \<in> set (backlog items d). length b < fuel" "length (items (queryQueue d)) < fuel"
  shows "\<exists>d'. dispatcher_stop ops now fuel (d, w) =
        Some (d', fold effect (concat (backlog items d) @ items (queryQueue d)) w)
      \<and> backlog items d' = replicate (length (ingestShards d)) []
      \<and> items (queryQueue d') = [] \<and> \<not> running d' \<and> queryWorkers d' = []"
proof -
  let ?d = "d\<lparr>running := False\<rparr>"
  have bk: "backlog items ?d = backlog items d" by (simp add: backlog_def)
  obtain d1 where d1: "join_all (join_shard ops fuel) [0..<length (ingestShards d)] (?d, w) =
        Some (d1, fold effect (concat (backlog items d)) w)"
      "backlog items d1 = replicate (length (ingestShards d)) []" "\<not> running d1"
      "queryQueue d1 = queryQueue d" "queryWorkers d1 = queryWorkers d"
    using join_shards_drain [of 0 ?d fuel w] assms(2,4) by (auto simp: bk)
  let ?d1 = "d1\<lparr>queryWorkers := []\<rparr>" and ?w1 = "fold effect (concat (backlog items d)) w"
  obtain v vs where vs: "queryWorkers d = v # vs" using assms(3) by (cases "queryWorkers d") auto
  obtain d2 where d2: "join_query ops now fuel (?d1, ?w1) = Some (d2, fold effect (items (queryQueue d)) ?w1)"
      "items (queryQueue d2) = []" "\<not> running d2" "ingestShards d2 = ingestShards d1" "queryWorkers d2 = []"
    using join_query_drains [of ?d1 fuel now ?w1] d1 assms(5) by auto
  obtain d3 where d3: "join_all (\<lambda>_. join_query ops now fuel) vs (d2, fold effect (items (queryQueue d)) ?w1) =
        Some (d3, fold effect (items (queryQueue d)) ?w1)"
      "items (queryQueue d3) = []" "ingestShards d3 = ingestShards d2" "\<not> running d3" "queryWorkers d3 = []"
    using join_workers_exit [of d2 fuel now vs "fold effect (items (queryQueue d)) ?w1"] d2 assms(5) by auto
  have "backlog items d3 = backlog items d1" using d3(3) d2(4) by (simp add: backlog_def)
  then show ?thesis
    using assms(1) d1 d2 d3 vs by (auto simp: dispatcher_stop_def)
qed

lemma serve_all:
  "n = length (items (queryQueue d)) \<Longrightarrow>
     \<exists>d'. serve ops now n (d, w) = (d', fold effect (items (queryQueue d)) w)
       \<and> items (queryQueue d') = []"
proof (induction n arbitrary: d w)
  case (Suc n)
  then obtain t ts where ts: "items (queryQueue d) = t # ts"
    by (cases "items (queryQueue d)") auto
  obtain d1 where "queryWorkerLoop ops now now (d, w) = Again (now, d1, effect t w)"
      "items (queryQueue d1) = ts"
    using query_iteration(2) [OF ts, of now now w] by blast
  with Suc.IH [of d1 "effect t w"] Suc.prems ts show ?case by auto
qed simp

end

interpretation fifo_tasks: task_queue "fifo_ops :: (nat \<times> 'w ManagerTask list, 'w ManagerTask) mpmc_ops" snd fst
  by unfold_locales

section \<open>Properties\<close>

text \<open>
  C15: A monitor task is accepted exactly when the dispatcher runs and the shard of its
  partition key has room; it then is the last task of that shard, no other shard changes,
  and the counters record the acceptance or the rejection.
\<close>

theorem submitMonitorTask_spec:
  assumes "task_queue ops items cap" "ingestShards d \<noteq> []"
    and "submitMonitorTask ops hash key f d = (b, d')"
  defines "i \<equiv> unat (hash key) mod length (ingestShards d)"
  shows "i < length (ingestShards d)
    \<and> (b \<longleftrightarrow> running d \<and> length (backlog items d ! i) < cap (is_queue (ingestShards d ! i)))
    \<and> backlog items d' =
        (if b then (backlog items d)[i := backlog items d ! i @
                      [\<lparr>kind = MonitorPush, partition_key = key, run = f\<rparr>]]
         else backlog items d)
    \<and> d_metrics d' = map_option (\<lambda>m. if b then m\<lparr>worker_requests := worker_requests m + 1\<rparr>
        else m\<lparr>queue_rejected := queue_rejected m + 1,
               dropped_monitor_samples := dropped_monitor_samples m + 1\<rparr>) (d_metrics d)"
proof -
  have "shardIndexFor hash d key = i" using assms(2) by (simp add: shardIndexFor_def i_def)
  then show ?thesis
    using task_queue.submit_refines [OF assms(1-3)] shardIndexFor_less [OF assms(2), of hash key] by simp
qed

text \<open>A small dispatcher for the concrete instances: two shards of capacity one.\<close>

definition demo_config :: ManagerConfig where
  "demo_config = default_config\<lparr>ingest_shard_count := 2, ingest_queue_capacity_per_shard := 1,
     query_queue_capacity := 2, query_queue_high_watermark := 1, query_threads_min := 1,
     query_threads_max := 2\<rparr>"

definition demo_dispatcher :: "(nat \<times> 't list) ManagerDispatcher" where
  "demo_dispatcher = dispatcher_start (ManagerDispatcher_new fifo_ops demo_config (Some zero_metrics))"

lemma demo_dispatcher_eq:
  "demo_dispatcher =
    \<lparr>d_config = demo_config, d_metrics = Some zero_metrics,
     ingestShards = [\<lparr>is_queue = (1, []), is_worker = True\<rparr>, \<lparr>is_queue = (1, []), is_worker = True\<rparr>],
     queryQueue = (2, []), running = True, queryWorkerCount = 1, queryWorkers = [1]\<rparr>"
proof -
  have two: "replicate 2 x = [x, x]" for x :: 'x by (simp add: numeral_2_eq_2)
  show ?thesis
    by (simp add: demo_dispatcher_def dispatcher_start_def ManagerDispatcher_new_def Let_def
        spawnQueryWorker_def fifo_ops_def demo_config_def default_config_def max_def two)
qed

theorem submitMonitorTask_spec_witness:
  "fst (submitMonitorTask fifo_ops (\<lambda>_. 1) ''h1'' (None :: (nat \<Rightarrow> outcome \<times> nat) option) demo_dispatcher)
   \<and> backlog snd (snd (submitMonitorTask fifo_ops (\<lambda>_. 1) ''h1'' None demo_dispatcher)) =
       [[], [\<lparr>kind = MonitorPush, partition_key = ''h1'', run = (None :: (nat \<Rightarrow> outcome \<times> nat) option)\<rparr>]]"
  using submitMonitorTask_spec [OF fifo_tasks.task_queue_axioms _ surjective_pairing,
      of demo_dispatcher "\<lambda>_. 1" "''h1''" "None :: (nat \<Rightarrow> outcome \<times> nat) option"]
  by (simp add: demo_dispatcher_eq backlog_def)


definition demo_task :: "ManagerTaskKind \<Rightarrow> nat \<Rightarrow> nat list ManagerTask" where
  "demo_task k n = \<lparr>kind = k, partition_key = [], run = Some (\<lambda>w. (Returned, w @ [n]))\<rparr>"


lemma submitQueryTask_served:
  fixes w :: "('s, 'r) world"
  assumes "task_queue ops items cap" "running d"
    and "length (items (queryQueue d)) < cap (queryQueue d)"
    and "length (items (queryQueue d)) < unat (query_queue_capacity (d_config d))"
  defines "before \<equiv> fold effect (items (queryQueue d)) (w\<lparr>next_promise := Suc (next_promise w)\<rparr>)"
  assumes "fst (task (app before)) = Inr (status, r)"
  shows "\<exists>d' w'. submitQueryTask ops (serve ops now (Suc (length (items (queryQueue d))))) task (Some r0) d w =
           (status, Some (if ok status then r else r0), d', w')
         \<and> app w' = snd (task (app before)) \<and> items (queryQueue d') = []"
proof -
  let ?p = "next_promise w" and ?w = "w\<lparr>next_promise := Suc (next_promise w)\<rparr>"
  let ?t = "\<lparr>kind = Query, partition_key = [], run = Some (query_run ?p task)\<rparr>"
  define e where "e = (if unat (query_queue_high_watermark (d_config d)) \<le> queryQueueSize ops d
    then maybeScaleUpQuery ops d else d)"
  have e: "queryQueue e = queryQueue d" "d_config e = d_config d" "running e"
    using assms(2) by (simp_all add: e_def)
  have size: "queryQueueSize ops e = length (items (queryQueue d))"
    using mpmc.size_items [OF task_queue.axioms(1) [OF assms(1)]] by (simp add: queryQueueSize_def e)
  obtain q where q: "mq_write ops ?t (queryQueue d) = (True, q)" "items q = items (queryQueue d) @ [?t]"
    using mpmc.write_room [OF task_queue.axioms(1) [OF assms(1)] assms(3)] by blast
  let ?e = "bump (\<lambda>m. m\<lparr>query_requests := query_requests m + 1\<rparr>) (e\<lparr>queryQueue := q\<rparr>)"
  obtain d' where d': "serve ops now (Suc (length (items (queryQueue d)))) (?e, ?w) =
        (d', effect ?t before)" "items (queryQueue d') = []"
    using task_queue.serve_all [OF assms(1), of "Suc (length (items (queryQueue d)))" ?e now ?w] q(2)
    by (auto simp: before_def)
  have eff: "effect ?t before =
      before\<lparr>app := snd (task (app before)), promises := (promises before)(?p \<mapsto> (status, Some r))\<rparr>"
    using assms(6) by (cases "task (app before)") (simp add: effect_def query_run_def)
  have "submitQueryTask ops (serve ops now (Suc (length (items (queryQueue d))))) task (Some r0) d w =
      (status, Some (if ok status then r else r0), d', effect ?t before)"
    using assms(4) size q d' eff e
    by (simp add: submitQueryTask_def Let_def e_def [symmetric] enqueueQuery_def del: serve.simps)
  then show ?thesis using eff d'(2) by simp
qed

text \<open>
  C26: A query that finds room is answered with the status its task computes, on the state
  the queries queued before it leave, and the response is filled in exactly when that
  status is OK, provided a worker goes round often enough before the timeout.
\<close>

theorem submitQueryTask_answers:
  fixes w :: "('s, 'r) world"
  assumes "task_queue ops items cap" "running d"
    and "length (items (queryQueue d)) < cap (queryQueue d)"
    and "length (items (queryQueue d)) < unat (query_queue_capacity (d_config d))"
  defines "before \<equiv> fold effect (items (queryQueue d)) (w\<lparr>next_promise := Suc (next_promise w)\<rparr>)"
  assumes "fst (task (app before)) = Inr (status, r)"
  shows "\<exists>d' w'. submitQueryTask ops (serve ops now (Suc (length (items (queryQueue d))))) task (Some r0) d w =
           (status, Some (if ok status then r else r0), d', w')
         \<and> app w' = snd (task (app before)) \<and> items (queryQueue d') = []"
  using assms(6) unfolding before_def by (rule submitQueryTask_served [OF assms(1-4)])

theorem submitQueryTask_answers_witness:
  "\<exists>d' w'. submitQueryTask fifo_ops (serve fifo_ops 0 1) (\<lambda>n. (Inr (status_OK, n + 1), n * 2)) (Some 0)
       demo_dispatcher \<lparr>app = (5::nat), promises = Map.empty, next_promise = 0\<rparr> = (status_OK, Some 6, d', w')
     \<and> app w' = 10"
  using submitQueryTask_answers [OF fifo_tasks.task_queue_axioms, of demo_dispatcher
      "\<lambda>n. (Inr (status_OK, n + 1), n * 2)" "\<lparr>app = (5::nat), promises = Map.empty, next_promise = 0\<rparr>"
      status_OK 6 0 0]
  by (auto simp: demo_dispatcher_eq demo_config_def ok_def)

text \<open>
  A query submitted to a stopped dispatcher or to a full queue is refused with RESOURCE_EXHAUSTED: nothing is
  queued, the caller's response is untouched and one rejection is counted.
\<close>

theorem submitQueryTask_rejects:
  assumes "task_queue ops items cap"
    and "\<not> running d \<or> cap (queryQueue d) \<le> length (items (queryQueue d))"
  shows "\<exists>d' w'. submitQueryTask ops during task (Some r0) d w =
           ((RESOURCE_EXHAUSTED, ''manager query queue is full''), Some r0, d', w')
         \<and> items (queryQueue d') = items (queryQueue d) \<and> app w' = app w
         \<and> d_metrics d' = map_option (\<lambda>m. m\<lparr>queue_rejected := queue_rejected m + 1\<rparr>) (d_metrics d)"
proof -
  have w: "mq_write ops t (queryQueue d) = (False, queryQueue d)" if "running d" for t
    using mpmc.write_full [OF task_queue.axioms(1) [OF assms(1)]] assms(2) that by blast
  show ?thesis
    by (cases "running d")
      (auto simp: submitQueryTask_def Let_def enqueueQuery_def w)
qed

theorem submitQueryTask_rejects_witness:
  "\<exists>d' w'. submitQueryTask fifo_ops id (\<lambda>n. (Inr (status_OK, n), n)) (Some 0)
       (demo_dispatcher\<lparr>running := False\<rparr>) \<lparr>app = (5::nat), promises = Map.empty, next_promise = 0\<rparr> =
         ((RESOURCE_EXHAUSTED, ''manager query queue is full''), Some (0::nat), d', w')
     \<and> d_metrics d' = Some (zero_metrics\<lparr>queue_rejected := 1\<rparr>)"
  using submitQueryTask_rejects [OF fifo_tasks.task_queue_axioms, of "demo_dispatcher\<lparr>running := False\<rparr>"
      id "\<lambda>n. (Inr (status_OK, n), n)" 0 "\<lparr>app = (5::nat), promises = Map.empty, next_promise = 0\<rparr>"]
  by (auto simp: demo_dispatcher_eq zero_metrics_def)

end
