(* ===== verification/Dispatcher_Threads.thy ===== *)
theory Dispatcher_Threads
  imports Dispatcher
begin

text \<open>
  The dispatcher's threads. Every shard has one worker, the query queue a changing number
  of them, and any number of callers submit tasks. A step is one atomic access to the
  shared state (\<open>running_\<close>, \<open>queryWorkerCount_\<close>, a queue operation); between two accesses of
  one thread the others may step, so a condition a thread has tested may no longer hold
  when it acts on it. \<open>dstep_inv\<close> is the invariant by rule induction: per shard, the tasks
  run so far, the one being run and the queued ones are, in this order, exactly the tasks
  accepted for the shard.
\<close>

section \<open>Threads\<close>

datatype 't ingest_pc = IHead | IRun 't | IExited

text \<open>
  A query worker: at the loop head, running a task, back from its sleep with an empty
  queue, past the test of \<open>queryWorkerCount_\<close> and about to decrement it, or gone.
\<close>

datatype 't query_pc = QHead | QRun 't | QIdle | QShrink | QDone

text \<open>
  \<open>pushers\<close> are callers that have seen \<open>running_\<close> true and have not yet written to a queue,
  \<open>spawners\<close> callers that have seen the worker count below its maximum and have not yet
  incremented it. \<open>accepted\<close> and \<open>executed\<close> record, per shard, the tasks whose write
  succeeded and those that have been run.
\<close>

record ('q, 't) threads =
  disp :: "'q ManagerDispatcher"
  ipcs :: "'t ingest_pc list"
  qpcs :: "'t query_pc list"
  pushers :: "'t list"
  spawners :: nat
  accepted :: "'t list list"
  executed :: "'t list list"

definition set_queue :: "nat \<Rightarrow> 'q \<Rightarrow> 'q ManagerDispatcher \<Rightarrow> 'q ManagerDispatcher" where
  "set_queue i q d = d\<lparr>ingestShards := (ingestShards d)[i := (ingestShards d ! i)\<lparr>is_queue := q\<rparr>]\<rparr>"

definition threads_start ::
  "('q, 't) mpmc_ops \<Rightarrow> ManagerConfig \<Rightarrow> ManagerMetrics option \<Rightarrow> ('q, 't) threads" where
  "threads_start ops cfg m =
     (let d = dispatcher_start (ManagerDispatcher_new ops cfg m); n = length (ingestShards d)
      in \<lparr>disp = d, ipcs = replicate n IHead, qpcs = replicate (nat (queryWorkerCount d)) QHead,
          pushers = [], spawners = 0, accepted = replicate n [], executed = replicate n []\<rparr>)"

inductive dstep ::
  "('q, 'w ManagerTask) mpmc_ops \<Rightarrow> (string \<Rightarrow> u64)
     \<Rightarrow> ('q, 'w ManagerTask) threads \<Rightarrow> ('q, 'w ManagerTask) threads \<Rightarrow> bool"
  for ops hash where
  push_check: "running (disp s) \<Longrightarrow> dstep ops hash s (s\<lparr>pushers := t # pushers s\<rparr>)"
| push_ingest: "pushers s = us @ t # vs \<Longrightarrow> kind t = MonitorPush
    \<Longrightarrow> i = shardIndexFor hash (disp s) (partition_key t)
    \<Longrightarrow> mq_write ops t (is_queue (ingestShards (disp s) ! i)) = (b, q)
    \<Longrightarrow> dstep ops hash s (s\<lparr>pushers := us @ vs, disp := set_queue i q (disp s),
          accepted := (if b then (accepted s)[i := accepted s ! i @ [t]] else accepted s)\<rparr>)"
| push_query: "pushers s = us @ t # vs \<Longrightarrow> kind t = Query
    \<Longrightarrow> mq_write ops t (queryQueue (disp s)) = (b, q)
    \<Longrightarrow> dstep ops hash s (s\<lparr>pushers := us @ vs, disp := (disp s)\<lparr>queryQueue := q\<rparr>\<rparr>)"
| ingest_take: "i < length (ipcs s) \<Longrightarrow> ipcs s ! i = IHead
    \<Longrightarrow> mq_read ops (is_queue (ingestShards (disp s) ! i)) = Some (t, q)
    \<Longrightarrow> dstep ops hash s (s\<lparr>disp := set_queue i q (disp s), ipcs := (ipcs s)[i := IRun t]\<rparr>)"
| ingest_finish: "i < length (ipcs s) \<Longrightarrow> ipcs s ! i = IRun t
    \<Longrightarrow> dstep ops hash s (s\<lparr>ipcs := (ipcs s)[i := IHead],
          executed := (executed s)[i := executed s ! i @ [t]]\<rparr>)"
| ingest_leave: "i < length (ipcs s) \<Longrightarrow> ipcs s ! i = IHead \<Longrightarrow> \<not> running (disp s)
    \<Longrightarrow> mq_size ops (is_queue (ingestShards (disp s) ! i)) = 0
    \<Longrightarrow> dstep ops hash s (s\<lparr>ipcs := (ipcs s)[i := IExited]\<rparr>)"
| spawn_check: "unat (query_queue_high_watermark (d_config (disp s))) \<le> queryQueueSize ops (disp s)
    \<Longrightarrow> queryWorkerCount (disp s) < query_threads_max (d_config (disp s))
    \<Longrightarrow> dstep ops hash s (s\<lparr>spawners := Suc (spawners s)\<rparr>)"
| spawn_add: "spawners s = Suc n
    \<Longrightarrow> dstep ops hash s (s\<lparr>spawners := n, qpcs := qpcs s @ [QHead],
          disp := (disp s)\<lparr>queryWorkerCount := queryWorkerCount (disp s) + 1\<rparr>\<rparr>)"
| query_take: "j < length (qpcs s) \<Longrightarrow> qpcs s ! j = QHead
    \<Longrightarrow> mq_read ops (queryQueue (disp s)) = Some (t, q)
    \<Longrightarrow> dstep ops hash s (s\<lparr>disp := (disp s)\<lparr>queryQueue := q\<rparr>, qpcs := (qpcs s)[j := QRun t]\<rparr>)"
| query_finish: "j < length (qpcs s) \<Longrightarrow> qpcs s ! j = QRun t
    \<Longrightarrow> dstep ops hash s (s\<lparr>qpcs := (qpcs s)[j := QHead]\<rparr>)"
| query_idle: "j < length (qpcs s) \<Longrightarrow> qpcs s ! j = QHead \<Longrightarrow> running (disp s)
    \<Longrightarrow> mq_read ops (queryQueue (disp s)) = None
    \<Longrightarrow> dstep ops hash s (s\<lparr>qpcs := (qpcs s)[j := QIdle]\<rparr>)"
| query_again: "j < length (qpcs s) \<Longrightarrow> qpcs s ! j = QIdle
    \<Longrightarrow> dstep ops hash s (s\<lparr>qpcs := (qpcs s)[j := QHead]\<rparr>)"
| shrink_check: "j < length (qpcs s) \<Longrightarrow> qpcs s ! j = QIdle
    \<Longrightarrow> query_threads_min (d_config (disp s)) < queryWorkerCount (disp s)
    \<Longrightarrow> dstep ops hash s (s\<lparr>qpcs := (qpcs s)[j := QShrink]\<rparr>)"
| shrink: "j < length (qpcs s) \<Longrightarrow> qpcs s ! j = QShrink
    \<Longrightarrow> dstep ops hash s (s\<lparr>qpcs := (qpcs s)[j := QDone],
          disp := (disp s)\<lparr>queryWorkerCount := queryWorkerCount (disp s) - 1\<rparr>\<rparr>)"
| query_leave: "j < length (qpcs s) \<Longrightarrow> qpcs s ! j = QHead \<Longrightarrow> \<not> running (disp s)
    \<Longrightarrow> queryQueueSize ops (disp s) = 0
    \<Longrightarrow> dstep ops hash s (s\<lparr>qpcs := (qpcs s)[j := QDone],
          disp := (disp s)\<lparr>queryWorkerCount := queryWorkerCount (disp s) - 1\<rparr>\<rparr>)"
| stop: "running (disp s) \<Longrightarrow> dstep ops hash s (s\<lparr>disp := (disp s)\<lparr>running := False\<rparr>\<rparr>)"

inductive dreach ::
  "('q, 'w ManagerTask) mpmc_ops \<Rightarrow> (string \<Rightarrow> u64) \<Rightarrow> ManagerConfig \<Rightarrow> ManagerMetrics option
     \<Rightarrow> ('q, 'w ManagerTask) threads \<Rightarrow> bool"
  for ops hash cfg m where
  start: "dreach ops hash cfg m (threads_start ops cfg m)"
| step: "dreach ops hash cfg m s \<Longrightarrow> dstep ops hash s s' \<Longrightarrow> dreach ops hash cfg m s'"

section \<open>The invariant\<close>

fun inflight :: "'t ingest_pc \<Rightarrow> 't list" where
  "inflight (IRun t) = [t]"
| "inflight _ = []"

definition shard_ok ::
  "('q \<Rightarrow> 'w ManagerTask list) \<Rightarrow> ('q \<Rightarrow> nat) \<Rightarrow> (string \<Rightarrow> u64)
     \<Rightarrow> ('q, 'w ManagerTask) threads \<Rightarrow> nat \<Rightarrow> bool" where
  "shard_ok items cap hash s i \<longleftrightarrow>
     accepted s ! i = executed s ! i @ inflight (ipcs s ! i) @ items (is_queue (ingestShards (disp s) ! i))
     \<and> (\<forall>t \<in> set (accepted s ! i). kind t = MonitorPush
          \<and> unat (hash (partition_key t)) mod length (ingestShards (disp s)) = i)
     \<and> length (items (is_queue (ingestShards (disp s) ! i))) \<le> cap (is_queue (ingestShards (disp s) ! i))
     \<and> (ipcs s ! i = IExited \<longrightarrow> \<not> running (disp s))"

definition shape_ok :: "('q, 't) threads \<Rightarrow> bool" where
  "shape_ok s \<longleftrightarrow> 0 < length (ingestShards (disp s))
     \<and> length (ipcs s) = length (ingestShards (disp s))
     \<and> length (accepted s) = length (ingestShards (disp s))
     \<and> length (executed s) = length (ingestShards (disp s))
     \<and> queryWorkerCount (disp s) = int (length (filter (\<lambda>p. p \<noteq> QDone) (qpcs s)))"

lemma set_queue_simps [simp, frame_simps]:
  "length (ingestShards (set_queue i q d)) = length (ingestShards d)"
  "running (set_queue i q d) = running d" "queryWorkerCount (set_queue i q d) = queryWorkerCount d"
  "d_config (set_queue i q d) = d_config d" "queryQueue (set_queue i q d) = queryQueue d"
  by (simp_all add: set_queue_def)

lemma nth_set_queue:
  "i < length (ingestShards d) \<Longrightarrow>
     is_queue (ingestShards (set_queue i q d) ! j) = (if j = i then q else is_queue (ingestShards d ! j))"
  by (simp add: set_queue_def nth_list_update_cases)

lemma dstep_shape:
  "dstep ops hash s s' \<Longrightarrow> shape_ok s \<Longrightarrow> shape_ok s'"
proof (induction rule: dstep.induct)
  case (shrink j s)
  then show ?case using filter_length_update [of j "qpcs s" "\<lambda>p. p \<noteq> QDone" QDone]
    by (auto simp: shape_ok_def)
next
  case (query_leave j s)
  then show ?case using filter_length_update [of j "qpcs s" "\<lambda>p. p \<noteq> QDone" QDone]
    by (auto simp: shape_ok_def)
qed (auto simp: shape_ok_def filter_length_keep)

context task_queue
begin

lemma dstep_shard:
  assumes "dstep ops hash s s'" "shape_ok s" "j < length (ingestShards (disp s))"
    and "shard_ok items cap hash s j"
  shows "shard_ok items cap hash s' j"
  using assms
proof (induction rule: dstep.induct)
  case (push_ingest s us t vs i b q)
  have i: "i < length (ingestShards (disp s))"
    using push_ingest(3,5) by (auto simp: shape_ok_def shardIndexFor_def)
  have h: "unat (hash (partition_key t)) mod length (ingestShards (disp s)) = i"
    using push_ingest(3) i by (auto simp: shardIndexFor_def)
  from push_ingest i h write_cases [OF push_ingest(4)] write_bounded [OF push_ingest(4)]
  show ?case by (auto simp: shard_ok_def shape_ok_def nth_set_queue nth_list_update)
next
  case (ingest_take i s t q)
  then show ?case using read_Some [OF ingest_take(3)]
    by (auto simp: shard_ok_def shape_ok_def nth_set_queue nth_list_update)
qed (auto simp: shard_ok_def shape_ok_def nth_list_update)

lemma start_ok:
  "shape_ok (threads_start ops cfg m)"
  "j < length (ingestShards (disp (threads_start ops cfg m))) \<Longrightarrow>
     shard_ok items cap hash (threads_start ops cfg m) j"
proof -
  let ?n = "ManagerDispatcher_new ops cfg m"
  let ?d = "?n\<lparr>running := True, ingestShards := map (\<lambda>s. s\<lparr>is_worker := True\<rparr>) (ingestShards ?n)\<rparr>"
  let ?k = "nat (max 1 (min (query_threads_min cfg) (query_threads_max cfg)))"
  have st: "dispatcher_start ?n = (spawnQueryWorker ^^ ?k) ?d"
    by (simp add: dispatcher_start_def Let_def ManagerDispatcher_new_def)
  have "queryWorkerCount ?d = 0" "queryWorkers ?d = []"
    by (simp_all add: ManagerDispatcher_new_def Let_def)
  then have c: "int (length (queryWorkers (dispatcher_start ?n))) = queryWorkerCount (dispatcher_start ?n)"
    unfolding st by (intro spawn_power) auto
  then have "0 \<le> queryWorkerCount (dispatcher_start ?n)" by simp
  with c show "shape_ok (threads_start ops cfg m)"
    using new_shape(1) [of ops cfg m]
    by (auto simp: shape_ok_def threads_start_def Let_def st spawn_power)
  have sh: "ingestShards (dispatcher_start ?n) = replicate (unat (max 1 (ingest_shard_count cfg)))
      \<lparr>is_queue = mq_new ops (max 1 (ingest_queue_capacity_per_shard cfg)), is_worker = True\<rparr>"
    unfolding st spawn_power by (simp add: ManagerDispatcher_new_def Let_def)
  assume "j < length (ingestShards (disp (threads_start ops cfg m)))"
  then have "j < length (ingestShards (dispatcher_start ?n))" by (simp add: threads_start_def Let_def)
  then show "shard_ok items cap hash (threads_start ops cfg m) j"
    using sh by (auto simp: shard_ok_def threads_start_def Let_def items_new)
qed

lemma dstep_inv:
  assumes "dreach ops hash cfg m s"
  shows "shape_ok s \<and> (\<forall>j < length (ingestShards (disp s)). shard_ok items cap hash s j)"
  using assms
proof induction
  case start
  then show ?case using start_ok by blast
next
  case (step s s')
  have "length (ingestShards (disp s')) = length (ingestShards (disp s))"
    using step(2) by (cases rule: dstep.cases) auto
  with step dstep_shape dstep_shard show ?case by metis
qed

end

section \<open>Properties\<close>

text \<open>
  C5: Whatever the interleaving of callers, workers, scaling and \<open>stop\<close>: the tasks
  accepted for a shard are, in the order of their acceptance, those its worker has run,
  the one it is running and those still queued (none lost, duplicated or overtaken);
  every task accepted for a shard has a partition key that hashes to the shard; a queue
  never exceeds its capacity; and the worker count is the number of live query workers.
\<close>

theorem shard_order:
  assumes "task_queue ops items cap" "dreach ops hash cfg m s" "i < length (ingestShards (disp s))"
  shows "accepted s ! i =
           executed s ! i @ inflight (ipcs s ! i) @ items (is_queue (ingestShards (disp s) ! i))
     \<and> (\<forall>t \<in> set (accepted s ! i). kind t = MonitorPush
          \<and> unat (hash (partition_key t)) mod length (ingestShards (disp s)) = i)
     \<and> length (items (is_queue (ingestShards (disp s) ! i))) \<le> cap (is_queue (ingestShards (disp s) ! i))
     \<and> queryWorkerCount (disp s) = int (length (filter (\<lambda>p. p \<noteq> QDone) (qpcs s)))"
  using task_queue.dstep_inv [OF assms(1,2)] assms(3) by (simp add: shape_ok_def shard_ok_def)

definition push_task :: "nat ManagerTask" where
  "push_task = \<lparr>kind = MonitorPush, partition_key = ''k'', run = None\<rparr>"

definition query_task :: "nat ManagerTask" where
  "query_task = \<lparr>kind = Query, partition_key = [], run = None\<rparr>"

definition demo_start :: "(nat \<times> nat ManagerTask list, nat ManagerTask) threads" where
  "demo_start = threads_start fifo_ops demo_config (Some zero_metrics)"

lemma demo_start_eq:
  "demo_start = \<lparr>disp = demo_dispatcher, ipcs = [IHead, IHead], qpcs = [QHead], pushers = [],
     spawners = 0, accepted = [[], []], executed = [[], []]\<rparr>"
  by (simp add: demo_start_def threads_start_def demo_dispatcher_def [symmetric] Let_def)
    (simp add: demo_dispatcher_eq)

abbreviation demo_reach :: "(nat \<times> nat ManagerTask list, nat ManagerTask) threads \<Rightarrow> bool" where
  "demo_reach \<equiv> dreach fifo_ops (\<lambda>_. 1) demo_config (Some zero_metrics)"

lemma demo_reach_start: "demo_reach demo_start"
  unfolding demo_start_def by (rule dreach.start)

lemma demo_pushed:
  "demo_reach (demo_start\<lparr>disp := set_queue 1 (1, [push_task]) demo_dispatcher,
     accepted := [[], [push_task]]\<rparr>)"
proof -
  have "demo_reach (demo_start\<lparr>pushers := [push_task]\<rparr>)"
    using dreach.step [OF demo_reach_start dstep.push_check [where t = push_task]]
    by (simp add: demo_start_eq demo_dispatcher_eq)
  from dreach.step [OF this dstep.push_ingest [where us = "[]" and vs = "[]" and t = push_task
      and i = 1 and b = True and q = "(1, [push_task])"]]
  show ?thesis
    by (simp add: demo_start_eq demo_dispatcher_eq push_task_def shardIndexFor_def fifo_ops_def)
qed

theorem shard_order_witness:
  "accepted (demo_start\<lparr>disp := set_queue 1 (1, [push_task]) demo_dispatcher,
       accepted := [[], [push_task]]\<rparr>) ! 1 =
     executed demo_start ! 1 @ inflight IHead @ [push_task]"
  using shard_order [OF fifo_tasks.task_queue_axioms demo_pushed, of 1]
  by (simp add: demo_start_eq demo_dispatcher_eq set_queue_def)

text \<open>The states of a run in which only the query workers move.\<close>

definition qstate ::
  "nat ManagerTask list \<Rightarrow> nat ManagerTask list \<Rightarrow> nat \<Rightarrow> int \<Rightarrow> nat ManagerTask query_pc list
     \<Rightarrow> (nat \<times> nat ManagerTask list, nat ManagerTask) threads" where
  "qstate ps qs sp n pcs = demo_start\<lparr>pushers := ps, spawners := sp, qpcs := pcs,
     disp := demo_dispatcher\<lparr>queryQueue := (2, qs), queryWorkerCount := n\<rparr>\<rparr>"

lemmas qstate_simps = qstate_def demo_start_eq demo_dispatcher_eq demo_config_def query_task_def
  fifo_ops_def queryQueueSize_def

lemma two_query_workers: "demo_reach (qstate [] [query_task] 0 2 [QHead, QHead])"
proof -
  have "demo_reach (qstate [] [] 0 1 [QHead])"
    using demo_reach_start by (simp add: qstate_simps)
  from dreach.step [OF this dstep.push_check [where t = query_task]]
  have "demo_reach (qstate [query_task] [] 0 1 [QHead])" by (simp add: qstate_simps)
  from dreach.step [OF this dstep.push_query [where us = "[]" and vs = "[]" and t = query_task
      and b = True and q = "(2, [query_task])"]]
  have "demo_reach (qstate [] [query_task] 0 1 [QHead])" by (simp add: qstate_simps)
  from dreach.step [OF this dstep.spawn_check]
  have "demo_reach (qstate [] [query_task] 1 1 [QHead])" by (simp add: qstate_simps)
  from dreach.step [OF this dstep.spawn_add [where n = 0]]
  show ?thesis by (simp add: qstate_simps)
qed

lemma both_workers_leave:
  assumes "demo_reach (qstate [] [] 0 2 [QHead, QHead])"
  shows "demo_reach (qstate [] [] 0 0 [QDone, QDone])"
proof -
  from dreach.step [OF assms dstep.query_idle [where j = 0]]
  have "demo_reach (qstate [] [] 0 2 [QIdle, QHead])" by (simp add: qstate_simps)
  from dreach.step [OF this dstep.query_idle [where j = 1]]
  have "demo_reach (qstate [] [] 0 2 [QIdle, QIdle])" by (simp add: qstate_simps)
  from dreach.step [OF this dstep.shrink_check [where j = 0]]
  have "demo_reach (qstate [] [] 0 2 [QShrink, QIdle])" by (simp add: qstate_simps)
  from dreach.step [OF this dstep.shrink_check [where j = 1]]
  have "demo_reach (qstate [] [] 0 2 [QShrink, QShrink])" by (simp add: qstate_simps)
  from dreach.step [OF this dstep.shrink [where j = 0]]
  have "demo_reach (qstate [] [] 0 1 [QDone, QShrink])" by (simp add: qstate_simps)
  from dreach.step [OF this dstep.shrink [where j = 1]]
  show ?thesis by (simp add: qstate_simps)
qed

text \<open>
  C38: The test of the worker count and its decrement are two accesses. Two idle workers
  that both see a count of two above a minimum of one both leave, and the running
  dispatcher is left without any query worker, below the configured minimum.
\<close>

theorem workers_below_minimum:
  "\<exists>s. demo_reach s \<and> running (disp s) \<and> queryWorkerCount (disp s) = 0
     \<and> query_threads_min (d_config (disp s)) = 1 \<and> qpcs s = [QDone, QDone]"
proof -
  from dreach.step [OF two_query_workers dstep.query_take [where j = 0 and t = query_task and q = "(2, [])"]]
  have "demo_reach (qstate [] [] 0 2 [QRun query_task, QHead])" by (simp add: qstate_simps)
  from dreach.step [OF this dstep.query_finish [where j = 0 and t = query_task]]
  have "demo_reach (qstate [] [] 0 2 [QHead, QHead])" by (simp add: qstate_simps)
  from both_workers_leave [OF this] show ?thesis
    by (intro exI [of _ "qstate [] [] 0 0 [QDone, QDone]"]) (simp add: qstate_simps)
qed

text \<open>
  C39: The test of \<open>running_\<close> and the write to the queue are two accesses as well. A caller
  that tested before \<open>stop\<close> and writes after the shard's worker has left is told that its
  task was accepted, and the task is never run.
\<close>

theorem accepted_but_stranded:
  "\<exists>s. demo_reach s \<and> \<not> running (disp s) \<and> ipcs s ! 1 = IExited
     \<and> accepted s ! 1 = [push_task] \<and> executed s ! 1 = [] \<and> pushers s = []"
proof -
  have "demo_reach (demo_start\<lparr>pushers := [push_task]\<rparr>)"
    using dreach.step [OF demo_reach_start dstep.push_check [where t = push_task]]
    by (simp add: demo_start_eq demo_dispatcher_eq)
  from dreach.step [OF this dstep.stop]
  have "demo_reach (demo_start\<lparr>pushers := [push_task], disp := demo_dispatcher\<lparr>running := False\<rparr>\<rparr>)"
    by (simp add: demo_start_eq demo_dispatcher_eq)
  from dreach.step [OF this dstep.ingest_leave [where i = 1]]
  have "demo_reach (demo_start\<lparr>pushers := [push_task], disp := demo_dispatcher\<lparr>running := False\<rparr>,
      ipcs := [IHead, IExited]\<rparr>)"
    by (simp add: demo_start_eq demo_dispatcher_eq fifo_ops_def)
  from dreach.step [OF this dstep.push_ingest [where us = "[]" and vs = "[]" and t = push_task
      and i = 1 and b = True and q = "(1, [push_task])"]]
  show ?thesis
    by (intro exI) (rule conjI, assumption | simp add: demo_start_eq demo_dispatcher_eq push_task_def
        shardIndexFor_def fifo_ops_def)+
qed

end
