(* ===== verification/Kmod_Collectors.thy ===== *)
theory Kmod_Collectors
  imports Prelude
begin

text \<open>
  The kernel modules \<open>worker/src/kmod/CpuStatCollector.c\<close> and \<open>SoftirqCollector.c\<close>. Each
  allocates an array of \<open>MAX_CPUS\<close> entries, fills it from the kernel's per-CPU counters once
  and then every second from a timer, and offers it to user space through \<open>mmap\<close> on a
  character device. The kernel is a parameter: its counters, the outcome of each call that
  may fail, and the two size functions whose documented behaviour the locale
  \<open>kernel_sizes\<close> states.

  The two modules differ in the entry and in the update; the locale \<open>collector\<close> has what
  module loading, the timer and unloading need of the update (it stays inside the array),
  and is interpreted on both.
\<close>

section \<open>The kernel as the modules see it\<close>

datatype cputime = CPUTIME_USER | CPUTIME_NICE | CPUTIME_SYSTEM | CPUTIME_SOFTIRQ | CPUTIME_IRQ
  | CPUTIME_IDLE | CPUTIME_IOWAIT | CPUTIME_STEAL | CPUTIME_GUEST | CPUTIME_GUEST_NICE

datatype softirq_nr = HI_SOFTIRQ | TIMER_SOFTIRQ | NET_TX_SOFTIRQ | NET_RX_SOFTIRQ | BLOCK_SOFTIRQ
  | IRQ_POLL_SOFTIRQ | TASKLET_SOFTIRQ | SCHED_SOFTIRQ | HRTIMER_SOFTIRQ | RCU_SOFTIRQ

text \<open>
  Counters and calls at one moment; a call that may fail returns its C result (an error
  pointer as the negative error code).
\<close>

record kernel =
  possible_cpus :: "nat list"
  HZ :: nat
  kcpustat :: "nat \<Rightarrow> cputime \<Rightarrow> u64"
  get_cpu_idle_time_us :: "nat \<Rightarrow> u64"
  get_cpu_iowait_time_us :: "nat \<Rightarrow> u64"
  usecs_to_jiffies :: "u32 \<Rightarrow> u64"
  kstat_softirqs_cpu :: "softirq_nr \<Rightarrow> nat \<Rightarrow> u32"
  PAGE_SIZE :: nat
  PAGE_ALIGN :: "nat \<Rightarrow> nat"
  get_order :: "nat \<Rightarrow> nat"
  get_free_pages_ok :: bool
  alloc_chrdev_region_ret :: int
  cdev_add_ret :: int
  class_create_ret :: int
  device_create_ret :: int
  remap_pfn_range_ret :: int

abbreviation MAX_CPUS :: nat where "MAX_CPUS \<equiv> 256"

abbreviation ENOMEM :: int where "ENOMEM \<equiv> 12"

abbreviation EINVAL :: int where "EINVAL \<equiv> 22"

definition NSEC_PER_SEC :: nat where
  "NSEC_PER_SEC = 1000000000"

locale kernel_sizes =
  fixes K :: kernel
  assumes page_align: "n \<le> PAGE_ALIGN K n"
    and order: "n \<le> PAGE_SIZE K * 2 ^ get_order K n"

section \<open>CPU time: the entries and their update\<close>

record cpu_stat =
  cpu_name :: string
  user :: u64
  nice :: u64
  system :: u64
  idle :: u64
  iowait :: u64
  irq :: u64
  softirq :: u64
  steal :: u64
  guest :: u64
  guest_nice :: u64

definition zero_cpu_stat :: cpu_stat where
  "zero_cpu_stat = \<lparr>cpu_name = [], user = 0, nice = 0, system = 0, idle = 0, iowait = 0,
     irq = 0, softirq = 0, steal = 0, guest = 0, guest_nice = 0\<rparr>"

definition nsec_to_jiffies :: "kernel \<Rightarrow> u64 \<Rightarrow> u64" where
  "nsec_to_jiffies K nsec = nsec div of_nat (NSEC_PER_SEC div HZ K)"

text \<open>The argument of \<open>usecs_to_jiffies\<close> is an \<open>unsigned int\<close>: the call truncates.\<close>

definition cpu_stat_get_idle_time :: "kernel \<Rightarrow> nat \<Rightarrow> u64" where
  "cpu_stat_get_idle_time K cpu =
     (let idle_time = get_cpu_idle_time_us K cpu
      in if idle_time = - 1 then nsec_to_jiffies K (kcpustat K cpu CPUTIME_IDLE)
         else usecs_to_jiffies K (ucast idle_time))"

definition cpu_stat_get_iowait_time :: "kernel \<Rightarrow> nat \<Rightarrow> u64" where
  "cpu_stat_get_iowait_time K cpu =
     (let iowait_time = get_cpu_iowait_time_us K cpu
      in if iowait_time = - 1 then nsec_to_jiffies K (kcpustat K cpu CPUTIME_IOWAIT)
         else usecs_to_jiffies K (ucast iowait_time))"

text \<open>\<open>snprintf (name, 16, "cpu%d", cpu)\<close>.\<close>

definition cpu_label :: "nat \<Rightarrow> string" where
  "cpu_label cpu = take 15 (''cpu'' @ show_nat cpu)"

definition cpu_entry :: "kernel \<Rightarrow> nat \<Rightarrow> cpu_stat" where
  "cpu_entry K cpu =
    \<lparr>cpu_name = cpu_label cpu,
     user = nsec_to_jiffies K (kcpustat K cpu CPUTIME_USER),
     nice = nsec_to_jiffies K (kcpustat K cpu CPUTIME_NICE),
     system = nsec_to_jiffies K (kcpustat K cpu CPUTIME_SYSTEM),
     idle = cpu_stat_get_idle_time K cpu,
     iowait = cpu_stat_get_iowait_time K cpu,
     irq = nsec_to_jiffies K (kcpustat K cpu CPUTIME_IRQ),
     softirq = nsec_to_jiffies K (kcpustat K cpu CPUTIME_SOFTIRQ),
     steal = nsec_to_jiffies K (kcpustat K cpu CPUTIME_STEAL),
     guest = nsec_to_jiffies K (kcpustat K cpu CPUTIME_GUEST),
     guest_nice = nsec_to_jiffies K (kcpustat K cpu CPUTIME_GUEST_NICE)\<rparr>"

text \<open>A write outside the array is \<open>None\<close>.\<close>

definition store :: "nat \<Rightarrow> 'e \<Rightarrow> 'e list \<Rightarrow> 'e list option" where
  "store i e mem = (if i < length mem then Some (mem[i := e]) else None)"

text \<open>The \<open>for_each_possible_cpu\<close> loop: one entry per CPU until \<open>MAX_CPUS\<close> are filled.\<close>

fun fill :: "(nat \<Rightarrow> 'e) \<Rightarrow> nat list \<Rightarrow> nat \<Rightarrow> 'e list \<Rightarrow> (nat \<times> 'e list) option" where
  "fill entry [] idx mem = Some (idx, mem)"
| "fill entry (cpu # cpus) idx mem =
     (if MAX_CPUS \<le> idx then Some (idx, mem)
      else case store idx (entry cpu) mem of None \<Rightarrow> None
           | Some mem \<Rightarrow> fill entry cpus (Suc idx) mem)"

definition update_cpu_stats :: "kernel \<Rightarrow> cpu_stat list \<Rightarrow> cpu_stat list option" where
  "update_cpu_stats K cpu_stat_data =
     (case fill (cpu_entry K) (possible_cpus K) 0 cpu_stat_data of None \<Rightarrow> None
      | Some (idx, mem) \<Rightarrow>
          if idx < MAX_CPUS
          then (if idx < length mem then store idx ((mem ! idx)\<lparr>cpu_name := []\<rparr>) mem else None)
          else Some mem)"

section \<open>Softirqs: the entries and their update\<close>

record softirq_stat =
  sq_cpu_name :: string
  sq_hi :: u64
  sq_timer :: u64
  sq_net_tx :: u64
  sq_net_rx :: u64
  sq_block :: u64
  sq_irq_poll :: u64
  sq_tasklet :: u64
  sq_sched :: u64
  sq_hrtimer :: u64
  sq_rcu :: u64

definition zero_softirq_stat :: softirq_stat where
  "zero_softirq_stat = \<lparr>sq_cpu_name = [], sq_hi = 0, sq_timer = 0, sq_net_tx = 0, sq_net_rx = 0,
     sq_block = 0, sq_irq_poll = 0, sq_tasklet = 0, sq_sched = 0, sq_hrtimer = 0, sq_rcu = 0\<rparr>"

definition softirq_entry :: "kernel \<Rightarrow> nat \<Rightarrow> softirq_stat" where
  "softirq_entry K cpu =
    \<lparr>sq_cpu_name = cpu_label cpu,
     sq_hi = ucast (kstat_softirqs_cpu K HI_SOFTIRQ cpu),
     sq_timer = ucast (kstat_softirqs_cpu K TIMER_SOFTIRQ cpu),
     sq_net_tx = ucast (kstat_softirqs_cpu K NET_TX_SOFTIRQ cpu),
     sq_net_rx = ucast (kstat_softirqs_cpu K NET_RX_SOFTIRQ cpu),
     sq_block = ucast (kstat_softirqs_cpu K BLOCK_SOFTIRQ cpu),
     sq_irq_poll = ucast (kstat_softirqs_cpu K IRQ_POLL_SOFTIRQ cpu),
     sq_tasklet = ucast (kstat_softirqs_cpu K TASKLET_SOFTIRQ cpu),
     sq_sched = ucast (kstat_softirqs_cpu K SCHED_SOFTIRQ cpu),
     sq_hrtimer = ucast (kstat_softirqs_cpu K HRTIMER_SOFTIRQ cpu),
     sq_rcu = ucast (kstat_softirqs_cpu K RCU_SOFTIRQ cpu)\<rparr>"

definition update_softirq_stats :: "kernel \<Rightarrow> softirq_stat list \<Rightarrow> softirq_stat list option" where
  "update_softirq_stats K softirq_data =
     (case fill (softirq_entry K) (possible_cpus K) 0 softirq_data of None \<Rightarrow> None
      | Some (idx, mem) \<Rightarrow>
          if idx < MAX_CPUS
          then (if idx < length mem then store idx ((mem ! idx)\<lparr>sq_cpu_name := []\<rparr>) mem else None)
          else Some mem)"

section \<open>The module state\<close>

text \<open>
  What the module holds of the kernel, in the order of acquisition with the latest first;
  the shared array (\<open>None\<close> before it is allocated and after it is freed) and the other
  global variables.
\<close>

datatype resource = Pages nat | ChrdevRegion | Cdev | DevClass | Device | Timer

record 'e kmod =
  held :: "resource list"
  shared_data :: "'e list option"
  data_size :: nat
  num_cpus :: nat
  timer_interval :: nat

definition unloaded :: "'e kmod" where
  "unloaded = \<lparr>held = [], shared_data = None, data_size = 0, num_cpus = 0, timer_interval = 0\<rparr>"

definition take_res :: "resource \<Rightarrow> 'e kmod \<Rightarrow> 'e kmod" where
  "take_res r s = s\<lparr>held := r # held s\<rparr>"

definition drop_res :: "resource \<Rightarrow> 'e kmod \<Rightarrow> 'e kmod" where
  "drop_res r s = s\<lparr>held := remove1 r (held s)\<rparr>"

definition free_pages :: "kernel \<Rightarrow> 'e kmod \<Rightarrow> 'e kmod" where
  "free_pages K s = (drop_res (Pages (get_order K (data_size s))) s)\<lparr>shared_data := None\<rparr>"

text \<open>The labels at the end of the initialisation, each falling through to the next.\<close>

definition err_free_mem :: "kernel \<Rightarrow> 'e kmod \<Rightarrow> 'e kmod" where
  "err_free_mem K s = free_pages K s"

definition err_unregister :: "kernel \<Rightarrow> 'e kmod \<Rightarrow> 'e kmod" where
  "err_unregister K s = err_free_mem K (drop_res ChrdevRegion s)"

definition err_cdev_del :: "kernel \<Rightarrow> 'e kmod \<Rightarrow> 'e kmod" where
  "err_cdev_del K s = err_unregister K (drop_res Cdev s)"

definition err_class_destroy :: "kernel \<Rightarrow> 'e kmod \<Rightarrow> 'e kmod" where
  "err_class_destroy K s = err_cdev_del K (drop_res DevClass s)"

text \<open>
  The initialisation, for entries of \<open>entry_size\<close> bytes that are \<open>zero\<close> when their bytes are and
  an update of the array; \<open>None\<close> when the update writes outside the array. One second is
  \<open>1000000000\<close> units of \<open>ktime_t\<close>.
\<close>

definition collector_init ::
  "kernel \<Rightarrow> nat \<Rightarrow> 'e \<Rightarrow> ('e list \<Rightarrow> 'e list option) \<Rightarrow> 'e kmod \<Rightarrow> (int \<times> 'e kmod) option" where
  "collector_init K entry_size zero update s =
     (let s = s\<lparr>num_cpus := min (length (possible_cpus K)) MAX_CPUS,
                data_size := PAGE_ALIGN K (entry_size * MAX_CPUS)\<rparr>
      in if \<not> get_free_pages_ok K then Some (- ENOMEM, s)
         else let s = (take_res (Pages (get_order K (data_size s))) s)
                        \<lparr>shared_data := Some (replicate MAX_CPUS zero)\<rparr>
         in if alloc_chrdev_region_ret K < 0 then Some (alloc_chrdev_region_ret K, err_free_mem K s)
         else let s = take_res ChrdevRegion s
         in if cdev_add_ret K < 0 then Some (cdev_add_ret K, err_unregister K s)
         else let s = take_res Cdev s
         in if class_create_ret K < 0 then Some (class_create_ret K, err_cdev_del K s)
         else let s = take_res DevClass s
         in if device_create_ret K < 0 then Some (device_create_ret K, err_class_destroy K s)
         else let s = (take_res Device s)\<lparr>timer_interval := 1000000000\<rparr>
         in case update (replicate MAX_CPUS zero) of None \<Rightarrow> None
            | Some mem \<Rightarrow> Some (0, take_res Timer (s\<lparr>shared_data := Some mem\<rparr>)))"

definition collector_exit :: "kernel \<Rightarrow> 'e kmod \<Rightarrow> 'e kmod" where
  "collector_exit K s =
     free_pages K (drop_res ChrdevRegion (drop_res Cdev (drop_res DevClass (drop_res Device (drop_res Timer s)))))"

datatype hrtimer_restart = HRTIMER_NORESTART | HRTIMER_RESTART

definition collector_timer_callback ::
  "('e list \<Rightarrow> 'e list option) \<Rightarrow> 'e kmod \<Rightarrow> (hrtimer_restart \<times> 'e kmod) option" where
  "collector_timer_callback update s =
     (case shared_data s of None \<Rightarrow> None
      | Some mem \<Rightarrow>
          (case update mem of None \<Rightarrow> None
           | Some mem \<Rightarrow> Some (HRTIMER_RESTART, s\<lparr>shared_data := Some mem\<rparr>)))"

text \<open>
  \<open>mmap\<close>: the error code, or the number of bytes mapped from the start of the array.
\<close>

definition collector_mmap :: "kernel \<Rightarrow> 'e kmod \<Rightarrow> u64 \<Rightarrow> u64 \<Rightarrow> int + nat" where
  "collector_mmap K s vm_start vm_end =
     (let n = unat (vm_end - vm_start)
      in if data_size s < n then Inl (- EINVAL)
         else if remap_pfn_range_ret K \<noteq> 0 then Inl (remap_pfn_range_ret K)
         else Inr n)"

section \<open>The two modules\<close>

text \<open>\<open>struct cpu_stat\<close> and \<open>struct softirq_stat\<close> are 16 characters and ten 64 bit counters.\<close>

definition cpu_stat_collector_init :: "kernel \<Rightarrow> cpu_stat kmod \<Rightarrow> (int \<times> cpu_stat kmod) option" where
  "cpu_stat_collector_init K = collector_init K (16 + 10 * 8) zero_cpu_stat (update_cpu_stats K)"

definition cpu_stat_timer_callback ::
  "kernel \<Rightarrow> cpu_stat kmod \<Rightarrow> (hrtimer_restart \<times> cpu_stat kmod) option" where
  "cpu_stat_timer_callback K = collector_timer_callback (update_cpu_stats K)"

definition cpu_stat_open :: "cpu_stat kmod \<Rightarrow> int" where
  "cpu_stat_open s = 0"

definition cpu_stat_release :: "cpu_stat kmod \<Rightarrow> int" where
  "cpu_stat_release s = 0"

definition cpu_stat_mmap :: "kernel \<Rightarrow> cpu_stat kmod \<Rightarrow> u64 \<Rightarrow> u64 \<Rightarrow> int + nat" where
  "cpu_stat_mmap K = collector_mmap K"

definition cpu_stat_collector_exit :: "kernel \<Rightarrow> cpu_stat kmod \<Rightarrow> cpu_stat kmod" where
  "cpu_stat_collector_exit K = collector_exit K"

definition softirq_collector_init ::
  "kernel \<Rightarrow> softirq_stat kmod \<Rightarrow> (int \<times> softirq_stat kmod) option" where
  "softirq_collector_init K = collector_init K (16 + 10 * 8) zero_softirq_stat (update_softirq_stats K)"

definition softirq_timer_callback ::
  "kernel \<Rightarrow> softirq_stat kmod \<Rightarrow> (hrtimer_restart \<times> softirq_stat kmod) option" where
  "softirq_timer_callback K = collector_timer_callback (update_softirq_stats K)"

definition softirq_open :: "softirq_stat kmod \<Rightarrow> int" where
  "softirq_open s = 0"

definition softirq_release :: "softirq_stat kmod \<Rightarrow> int" where
  "softirq_release s = 0"

definition softirq_mmap :: "kernel \<Rightarrow> softirq_stat kmod \<Rightarrow> u64 \<Rightarrow> u64 \<Rightarrow> int + nat" where
  "softirq_mmap K = collector_mmap K"

definition softirq_collector_exit :: "kernel \<Rightarrow> softirq_stat kmod \<Rightarrow> softirq_stat kmod" where
  "softirq_collector_exit K = collector_exit K"

text \<open>
  The life of a module: it is loaded (successfully or not), its timer ticks, it is
  unloaded, and it may be loaded again. Every step sees the kernel's counters and call
  results of its own moment; the order function \<open>g\<close> is the same throughout.
\<close>

inductive kmod_life ::
  "(nat \<Rightarrow> nat) \<Rightarrow> nat \<Rightarrow> 'e \<Rightarrow> (kernel \<Rightarrow> 'e list \<Rightarrow> 'e list option) \<Rightarrow> bool \<Rightarrow> 'e kmod \<Rightarrow> bool"
  for g entry_size zero update where
  boot: "kmod_life g entry_size zero update False unloaded"
| load: "kmod_life g entry_size zero update False s \<Longrightarrow> get_order K = g
    \<Longrightarrow> collector_init K entry_size zero (update K) s = Some (ret, s')
    \<Longrightarrow> kmod_life g entry_size zero update (ret = 0) s'"
| tick: "kmod_life g entry_size zero update True s
    \<Longrightarrow> collector_timer_callback (update K) s = Some (r, s')
    \<Longrightarrow> kmod_life g entry_size zero update True s'"
| unload: "kmod_life g entry_size zero update True s \<Longrightarrow> get_order K = g
    \<Longrightarrow> kmod_life g entry_size zero update False (collector_exit K s)"

section \<open>Facts\<close>

lemma fill_spec:
  assumes "length mem = MAX_CPUS" "idx \<le> MAX_CPUS"
  shows "fill entry cpus idx mem =
    Some (min (idx + length cpus) MAX_CPUS,
          take idx mem @ map entry (take (MAX_CPUS - idx) cpus) @ drop (min (idx + length cpus) MAX_CPUS) mem)"
  using assms
proof (induction entry cpus idx mem rule: fill.induct)
  case (1 entry idx mem)
  then show ?case by simp
next
  case (2 entry cpu cpus idx mem)
  show ?case
  proof (cases "idx < MAX_CPUS")
    case True
    have "take (Suc idx) (mem[idx := entry cpu]) = take idx mem @ [entry cpu]"
      using True 2(2) by (simp add: take_Suc_conv_app_nth)
    moreover have "take (MAX_CPUS - idx) (cpu # cpus) = cpu # take (MAX_CPUS - Suc idx) cpus"
      using True by (simp add: take_Cons')
    moreover have "drop n (mem[idx := entry cpu]) = drop n mem" if "Suc idx \<le> n" for n
      using that by simp
    ultimately show ?thesis
      using 2 True by (simp add: store_def)
  next
    case False
    with 2 show ?thesis by (simp add: min_def)
  qed
qed

lemma fill_from_start:
  "length mem = MAX_CPUS \<Longrightarrow>
     fill entry cpus 0 mem = Some (min (length cpus) MAX_CPUS,
       map entry (take MAX_CPUS cpus) @ drop (min (length cpus) MAX_CPUS) mem)"
  using fill_spec [of mem 0 entry cpus] by simp

text \<open>A terminator after the filled entries: what a reader that stops at it sees.\<close>

lemma takeWhile_terminated:
  assumes "\<And>e. P (f e)" "\<not> P t"
  shows "takeWhile P (map f xs @ t # ys) = map f xs" "takeWhile P (map f xs) = map f xs"
  using assms by (induction xs) auto

lemma cpu_label_nonempty [simp]: "cpu_label cpu \<noteq> []"
  by (simp add: cpu_label_def)

lemma update_cpu_stats_spec:
  assumes "length mem = MAX_CPUS"
  shows "\<exists>mem'. update_cpu_stats K mem = Some mem' \<and> length mem' = MAX_CPUS
      \<and> takeWhile (\<lambda>e. cpu_name e \<noteq> []) mem' = map (cpu_entry K) (take MAX_CPUS (possible_cpus K))"
proof (cases "length (possible_cpus K) < MAX_CPUS")
  case True
  let ?n = "length (possible_cpus K)" and ?f = "map (cpu_entry K) (possible_cpus K)"
  let ?mem = "?f @ (mem ! ?n)\<lparr>cpu_name := []\<rparr> # drop (Suc ?n) mem"
  have "drop ?n mem = mem ! ?n # drop (Suc ?n) mem"
    using True assms by (simp add: Cons_nth_drop_Suc)
  then have "update_cpu_stats K mem = Some ?mem"
    using True assms
    by (simp add: update_cpu_stats_def fill_from_start store_def nth_append list_update_append)
  moreover have "takeWhile (\<lambda>e. cpu_name e \<noteq> []) ?mem = ?f"
    by (rule takeWhile_terminated) (simp_all add: cpu_entry_def)
  ultimately show ?thesis using True assms by simp
next
  case False
  let ?f = "map (cpu_entry K) (take MAX_CPUS (possible_cpus K))"
  have "takeWhile (\<lambda>e. cpu_name e \<noteq> []) ?f = ?f"
    by (rule takeWhile_terminated(2) [where t = zero_cpu_stat])
      (simp_all add: cpu_entry_def zero_cpu_stat_def)
  with False assms show ?thesis
    by (simp add: update_cpu_stats_def fill_from_start min_def)
qed

lemma update_softirq_stats_spec:
  assumes "length mem = MAX_CPUS"
  shows "\<exists>mem'. update_softirq_stats K mem = Some mem' \<and> length mem' = MAX_CPUS
      \<and> takeWhile (\<lambda>e. sq_cpu_name e \<noteq> []) mem' = map (softirq_entry K) (take MAX_CPUS (possible_cpus K))"
proof (cases "length (possible_cpus K) < MAX_CPUS")
  case True
  let ?n = "length (possible_cpus K)" and ?f = "map (softirq_entry K) (possible_cpus K)"
  let ?mem = "?f @ (mem ! ?n)\<lparr>sq_cpu_name := []\<rparr> # drop (Suc ?n) mem"
  have "drop ?n mem = mem ! ?n # drop (Suc ?n) mem"
    using True assms by (simp add: Cons_nth_drop_Suc)
  then have "update_softirq_stats K mem = Some ?mem"
    using True assms
    by (simp add: update_softirq_stats_def fill_from_start store_def nth_append list_update_append)
  moreover have "takeWhile (\<lambda>e. sq_cpu_name e \<noteq> []) ?mem = ?f"
    by (rule takeWhile_terminated) (simp_all add: softirq_entry_def)
  ultimately show ?thesis using True assms by simp
next
  case False
  let ?f = "map (softirq_entry K) (take MAX_CPUS (possible_cpus K))"
  have "takeWhile (\<lambda>e. sq_cpu_name e \<noteq> []) ?f = ?f"
    by (rule takeWhile_terminated(2) [where t = zero_softirq_stat])
      (simp_all add: softirq_entry_def zero_softirq_stat_def)
  with False assms show ?thesis
    by (simp add: update_softirq_stats_def fill_from_start min_def)
qed

definition all_held :: "nat \<Rightarrow> resource list" where
  "all_held n = [Timer, Device, DevClass, Cdev, ChrdevRegion, Pages n]"

lemmas unwind_defs = err_class_destroy_def err_cdev_del_def err_unregister_def err_free_mem_def
  free_pages_def drop_res_def take_res_def

locale collector =
  fixes update :: "kernel \<Rightarrow> 'e list \<Rightarrow> 'e list option"
  assumes update_total:
    "length mem = MAX_CPUS \<Longrightarrow> \<exists>mem'. update K mem = Some mem' \<and> length mem' = MAX_CPUS"
begin

lemma init_cases:
  assumes "held s = []" "shared_data s = None"
  shows "\<exists>ret s'. collector_init K n zero (update K) s = Some (ret, s')
    \<and> data_size s' = PAGE_ALIGN K (n * MAX_CPUS)
    \<and> (ret = 0 \<and> held s' = all_held (get_order K (data_size s'))
         \<and> (\<exists>mem. shared_data s' = Some mem \<and> length mem = MAX_CPUS)
       \<or> ret < 0 \<and> held s' = [] \<and> shared_data s' = None)"
  using assms update_total [of "replicate MAX_CPUS zero" K]
  by (auto simp: collector_init_def Let_def unwind_defs all_held_def)

lemma exit_releases:
  assumes "held s = all_held (get_order K (data_size s))"
  shows "held (collector_exit K s) = []" "shared_data (collector_exit K s) = None"
  using assms by (simp_all add: collector_exit_def all_held_def free_pages_def drop_res_def)

lemma tick_total:
  assumes "shared_data s = Some mem" "length mem = MAX_CPUS"
  shows "\<exists>mem'. collector_timer_callback (update K) s =
           Some (HRTIMER_RESTART, s\<lparr>shared_data := Some mem'\<rparr>) \<and> length mem' = MAX_CPUS"
  using assms update_total [of mem K] by (auto simp: collector_timer_callback_def)

lemma life_invariant:
  assumes "kmod_life g n zero update loaded s"
  shows "if loaded then held s = all_held (g (data_size s))
            \<and> (\<exists>mem. shared_data s = Some mem \<and> length mem = MAX_CPUS)
         else held s = [] \<and> shared_data s = None"
  using assms
proof (induction rule: kmod_life.induct)
  case boot
  then show ?case by (simp add: unloaded_def)
next
  case (load s K ret s')
  then show ?case using init_cases [of s K n zero] by auto
next
  case (tick s K r s')
  then show ?case using tick_total [of s _ K] by fastforce
next
  case (unload s K)
  then show ?case using exit_releases [of s K] by simp
qed

end

interpretation cpu: collector update_cpu_stats
  by unfold_locales (use update_cpu_stats_spec in blast)

interpretation sirq: collector update_softirq_stats
  by unfold_locales (use update_softirq_stats_spec in blast)

section \<open>A concrete kernel\<close>

text \<open>Pages of 4096 bytes, two CPUs, 250 ticks per second, every call succeeding.\<close>

fun order_4k :: "nat \<Rightarrow> nat" where
  "order_4k n = (if n \<le> 4096 then 0 else Suc (order_4k ((n + 1) div 2)))"

declare order_4k.simps [simp del]

definition kernel_4k :: kernel where
  "kernel_4k = \<lparr>possible_cpus = [0, 1], HZ = 250, kcpustat = (\<lambda>_ _. 8000000),
     get_cpu_idle_time_us = (\<lambda>_. 8000), get_cpu_iowait_time_us = (\<lambda>_. - 1),
     usecs_to_jiffies = (\<lambda>u. ucast (u div 4000)), kstat_softirqs_cpu = (\<lambda>_ _. 7),
     PAGE_SIZE = 4096, PAGE_ALIGN = (\<lambda>n. (n + 4095) div 4096 * 4096), get_order = order_4k,
     get_free_pages_ok = True, alloc_chrdev_region_ret = 0, cdev_add_ret = 0,
     class_create_ret = 0, device_create_ret = 0, remap_pfn_range_ret = 0\<rparr>"

lemma order_4k_fits: "n \<le> 4096 * 2 ^ order_4k n"
proof (induction n rule: order_4k.induct)
  case (1 n)
  then show ?case by (cases "n \<le> 4096") (auto simp: order_4k.simps [of n])
qed

interpretation k4k: kernel_sizes kernel_4k
  by unfold_locales (simp_all add: kernel_4k_def order_4k_fits)

section \<open>Properties\<close>

text \<open>
  C20: An update of the CPU time array stays inside it and publishes exactly one entry per
  possible CPU, in the kernel's order and at most \<open>MAX_CPUS\<close> of them: a reader that stops
  at the first empty name sees these entries and no stale one.
\<close>

theorem cpu_stats_published:
  assumes "length mem = MAX_CPUS"
  shows "\<exists>mem'. update_cpu_stats K mem = Some mem' \<and> length mem' = MAX_CPUS
      \<and> takeWhile (\<lambda>e. cpu_name e \<noteq> []) mem' = map (cpu_entry K) (take MAX_CPUS (possible_cpus K))"
  using assms by (rule update_cpu_stats_spec)

theorem cpu_stats_published_witness:
  "\<exists>mem'. update_cpu_stats kernel_4k (replicate MAX_CPUS zero_cpu_stat) = Some mem'
     \<and> map cpu_name (takeWhile (\<lambda>e. cpu_name e \<noteq> []) mem') = [''cpu0'', ''cpu1'']
     \<and> map user (takeWhile (\<lambda>e. cpu_name e \<noteq> []) mem') = [2, 2]"
  using cpu_stats_published [of "replicate MAX_CPUS zero_cpu_stat" kernel_4k]
  by (auto simp: kernel_4k_def cpu_entry_def cpu_label_def show_nat.simps digit_simps nsec_to_jiffies_def
      NSEC_PER_SEC_def)

text \<open>
  The same holds of the softirq array.
\<close>

theorem softirq_stats_published:
  assumes "length mem = MAX_CPUS"
  shows "\<exists>mem'. update_softirq_stats K mem = Some mem' \<and> length mem' = MAX_CPUS
      \<and> takeWhile (\<lambda>e. sq_cpu_name e \<noteq> []) mem' = map (softirq_entry K) (take MAX_CPUS (possible_cpus K))"
  using assms by (rule update_softirq_stats_spec)

theorem softirq_stats_published_witness:
  "\<exists>mem'. update_softirq_stats kernel_4k (replicate MAX_CPUS zero_softirq_stat) = Some mem'
     \<and> map sq_net_rx (takeWhile (\<lambda>e. sq_cpu_name e \<noteq> []) mem') = [7, 7]"
  using softirq_stats_published [of "replicate MAX_CPUS zero_softirq_stat" kernel_4k]
  by (auto simp: kernel_4k_def softirq_entry_def)

text \<open>
  C20: However a module is loaded, ticks, is unloaded and loaded again: loading either
  succeeds with all six resources or fails with a negative error code and none, unloading
  gives all of them back, and while the module is loaded the array has \<open>MAX_CPUS\<close> entries
  and every further tick succeeds and restarts the timer. Stated for both modules.
\<close>

theorem module_life:
  assumes "kmod_life g n zero_cpu_stat update_cpu_stats loaded s"
    and "kmod_life g n zero_softirq_stat update_softirq_stats loaded' s'"
  shows "held s = (if loaded then all_held (g (data_size s)) else [])
     \<and> (loaded \<longleftrightarrow> (\<exists>s1. cpu_stat_timer_callback K s = Some (HRTIMER_RESTART, s1)))
     \<and> held s' = (if loaded' then all_held (g (data_size s')) else [])
     \<and> (loaded' \<longleftrightarrow> (\<exists>s1. softirq_timer_callback K s' = Some (HRTIMER_RESTART, s1)))"
proof -
  note c = cpu.life_invariant [OF assms(1)] and q = sirq.life_invariant [OF assms(2)]
  have "loaded \<longleftrightarrow> (\<exists>s1. cpu_stat_timer_callback K s = Some (HRTIMER_RESTART, s1))"
    using c cpu.tick_total [of s _ K]
    by (cases loaded) (auto simp: cpu_stat_timer_callback_def, auto simp: collector_timer_callback_def)
  moreover have "loaded' \<longleftrightarrow> (\<exists>s1. softirq_timer_callback K s' = Some (HRTIMER_RESTART, s1))"
    using q sirq.tick_total [of s' _ K]
    by (cases loaded') (auto simp: softirq_timer_callback_def, auto simp: collector_timer_callback_def)
  ultimately show ?thesis using c q by (auto split: if_splits)
qed

lemma demo_life:
  "\<exists>s. kmod_life order_4k 96 zero_cpu_stat update_cpu_stats True s"
  "\<exists>s. kmod_life order_4k 96 zero_softirq_stat update_softirq_stats True s"
proof -
  have u: "held unloaded = []" "shared_data unloaded = None" by (simp_all add: unloaded_def)
  have k: "get_order kernel_4k = order_4k" by (simp add: kernel_4k_def)
  have "\<exists>s. collector_init kernel_4k 96 zero_cpu_stat (update_cpu_stats kernel_4k) unloaded = Some (0, s)"
    using cpu.update_total [of "replicate MAX_CPUS zero_cpu_stat" kernel_4k]
    by (auto simp: collector_init_def Let_def kernel_4k_def)
  with kmod_life.load [OF kmod_life.boot k] show "\<exists>s. kmod_life order_4k 96 zero_cpu_stat update_cpu_stats True s"
    by fastforce
  have "\<exists>s. collector_init kernel_4k 96 zero_softirq_stat (update_softirq_stats kernel_4k) unloaded = Some (0, s)"
    using sirq.update_total [of "replicate MAX_CPUS zero_softirq_stat" kernel_4k]
    by (auto simp: collector_init_def Let_def kernel_4k_def)
  with kmod_life.load [OF kmod_life.boot k] show "\<exists>s. kmod_life order_4k 96 zero_softirq_stat update_softirq_stats True s"
    by fastforce
qed

theorem module_life_witness:
  "\<exists>s s'. held s = all_held (order_4k (data_size s)) \<and> held s' = all_held (order_4k (data_size s'))
     \<and> (\<exists>s1. cpu_stat_timer_callback kernel_4k s = Some (HRTIMER_RESTART, s1))
     \<and> (\<exists>s1. softirq_timer_callback kernel_4k s' = Some (HRTIMER_RESTART, s1))"
proof -
  obtain s where s: "kmod_life order_4k 96 zero_cpu_stat update_cpu_stats True s"
    using demo_life(1) by blast
  obtain s' where s': "kmod_life order_4k 96 zero_softirq_stat update_softirq_stats True s'"
    using demo_life(2) by blast
  from module_life [OF s s', of kernel_4k] show ?thesis by auto
qed

text \<open>
  C25: A successful \<open>mmap\<close> of a loaded module maps at most the allocated pages, and the
  whole array fits in them; a larger request is refused with \<open>-EINVAL\<close>.
\<close>

theorem mmap_within_allocation:
  assumes "kernel_sizes K" "cpu_stat_collector_init K unloaded = Some (0, s)"
  shows "Pages (get_order K (data_size s)) \<in> set (held s)
     \<and> 96 * MAX_CPUS \<le> data_size s
     \<and> (case cpu_stat_mmap K s a b of
          Inr n \<Rightarrow> n = unat (b - a) \<and> n \<le> data_size s \<and> n \<le> PAGE_SIZE K * 2 ^ get_order K (data_size s)
        | Inl e \<Rightarrow> data_size s < unat (b - a) \<and> e = - EINVAL \<or> e = remap_pfn_range_ret K)"
proof -
  have "data_size s = PAGE_ALIGN K (96 * MAX_CPUS)" "held s = all_held (get_order K (data_size s))"
    using cpu.init_cases [of unloaded K 96 zero_cpu_stat] assms(2)
    by (auto simp: cpu_stat_collector_init_def unloaded_def)
  then show ?thesis
    using kernel_sizes.page_align [OF assms(1), of "96 * MAX_CPUS"] kernel_sizes.order [OF assms(1), of "data_size s"]
    by (auto simp: cpu_stat_mmap_def collector_mmap_def all_held_def Let_def)
qed

theorem mmap_within_allocation_witness:
  "\<exists>s. cpu_stat_collector_init kernel_4k unloaded = Some (0, s) \<and> cpu_stat_mmap kernel_4k s 4096 8192 = Inr 4096
     \<and> 96 * MAX_CPUS \<le> data_size s"
proof -
  obtain s where s: "cpu_stat_collector_init kernel_4k unloaded = Some (0, s)"
    using cpu.update_total [of "replicate MAX_CPUS zero_cpu_stat" kernel_4k]
    by (auto simp: cpu_stat_collector_init_def collector_init_def Let_def kernel_4k_def)
  with mmap_within_allocation [OF k4k.kernel_sizes_axioms s, of 4096 8192] show ?thesis
    by (auto simp: cpu_stat_mmap_def collector_mmap_def kernel_4k_def)
qed

text \<open>
  C15: The idle time published for a CPU depends on the kernel's idle time only modulo
  \<open>2 ^ 32\<close> microseconds (about 71.6 minutes), whatever \<open>usecs_to_jiffies\<close> computes.
\<close>

theorem idle_time_truncated:
  assumes "get_cpu_idle_time_us K cpu = t" "t \<noteq> - 1" "t + 2 ^ 32 \<noteq> - 1"
  shows "cpu_stat_get_idle_time (K\<lparr>get_cpu_idle_time_us := (\<lambda>_. t + 2 ^ 32)\<rparr>) cpu = cpu_stat_get_idle_time K cpu"
proof -
  have "(ucast (t + 2 ^ 32) :: u32) = ucast t"
    by transfer (simp add: take_bit_eq_mod mod_mod_cancel)
  with assms show ?thesis by (simp add: cpu_stat_get_idle_time_def Let_def)
qed

theorem idle_time_truncated_witness:
  "cpu_stat_get_idle_time (kernel_4k\<lparr>get_cpu_idle_time_us := (\<lambda>_. 8000 + 2 ^ 32)\<rparr>) 0 = 2"
  using idle_time_truncated [of kernel_4k 0 8000]
  by (simp add: kernel_4k_def cpu_stat_get_idle_time_def)

end
