(* ===== verification/Ebpf_Net.thy ===== *)
theory Ebpf_Net
  imports Messages
begin

text \<open>
  Network traffic per interface, counted in the kernel. \<open>worker/src/ebpf/net_stats.bpf.c\<close>
  runs at the traffic-control hooks and adds every packet to the entry of its interface in
  a BPF hash map; \<open>NetEbpfMonitor.cpp\<close> attaches the programs, walks the map and turns
  counters into rates. The kernel's hash map is a parameter with the laws of its
  documentation in the locale \<open>bpf_hash\<close>; \<open>alist_ops\<close> is an association list that meets
  them. The last part lets several CPUs run the program at once.
\<close>

section \<open>The BPF program\<close>

record net_stats =
  ns_rcv_bytes :: u64
  ns_rcv_packets :: u64
  ns_snd_bytes :: u64
  ns_snd_packets :: u64

definition zero_net_stats :: net_stats where
  "zero_net_stats = \<lparr>ns_rcv_bytes = 0, ns_rcv_packets = 0, ns_snd_bytes = 0, ns_snd_packets = 0\<rparr>"

text \<open>The socket buffer a program at a traffic-control hook sees.\<close>

record sk_buff =
  skb_len :: u32
  skb_pkt_type :: u32
  skb_mark :: u32
  skb_queue_mapping :: u32
  skb_protocol :: u32
  skb_vlan_present :: u32
  skb_vlan_tci :: u32
  skb_vlan_proto :: u32
  skb_priority :: u32
  skb_ingress_ifindex :: u32
  skb_ifindex :: u32
  skb_tc_index :: u32
  skb_cb :: "u32 list"
  skb_hash :: u32
  skb_tc_classid :: u32
  skb_data :: u32
  skb_data_end :: u32
  skb_napi_id :: u32
  skb_family :: u32
  skb_remote_ip4 :: u32
  skb_local_ip4 :: u32
  skb_remote_ip6 :: "u32 list"
  skb_local_ip6 :: "u32 list"
  skb_remote_port :: u32
  skb_local_port :: u32
  skb_data_meta :: u32
  skb_flow_keys :: u64
  skb_tstamp :: u64
  skb_wire_len :: u32
  skb_gso_segs :: u32
  skb_sk :: u64
  skb_gso_size :: u32
  skb_tstamp_type :: "8 word"
  skb_hwtstamp :: u64

text \<open>
  The map operations: look up, update or insert (\<open>BPF_ANY\<close>), and the key that follows a key.
  An addition through the pointer \<open>bpf_map_lookup_elem\<close> returns is an update of that entry.
\<close>

record 'm bpf_ops =
  bm_lookup :: "'m \<Rightarrow> u32 \<Rightarrow> net_stats option"
  bm_update :: "u32 \<Rightarrow> net_stats \<Rightarrow> 'm \<Rightarrow> 'm"
  bm_next_key :: "'m \<Rightarrow> u32 \<Rightarrow> u32 option"

definition max_entries :: nat where
  "max_entries = 64"

definition first_stats :: "u32 \<Rightarrow> bool \<Rightarrow> net_stats" where
  "first_stats len is_rx =
     (if is_rx then zero_net_stats\<lparr>ns_rcv_bytes := ucast len, ns_rcv_packets := 1\<rparr>
      else zero_net_stats\<lparr>ns_snd_bytes := ucast len, ns_snd_packets := 1\<rparr>)"

definition add_stats :: "u32 \<Rightarrow> bool \<Rightarrow> net_stats \<Rightarrow> net_stats" where
  "add_stats len is_rx s =
     (if is_rx then s\<lparr>ns_rcv_bytes := ns_rcv_bytes s + ucast len, ns_rcv_packets := ns_rcv_packets s + 1\<rparr>
      else s\<lparr>ns_snd_bytes := ns_snd_bytes s + ucast len, ns_snd_packets := ns_snd_packets s + 1\<rparr>)"

definition update_stats :: "'m bpf_ops \<Rightarrow> u32 \<Rightarrow> u32 \<Rightarrow> bool \<Rightarrow> 'm \<Rightarrow> 'm" where
  "update_stats ops ifindex len is_rx m =
     (case bm_lookup ops m ifindex of
        None \<Rightarrow> bm_update ops ifindex (first_stats len is_rx) m
      | Some s \<Rightarrow> bm_update ops ifindex (add_stats len is_rx s) m)"

definition TC_ACT_OK :: int where
  "TC_ACT_OK = 0"

definition tc_ingress :: "'m bpf_ops \<Rightarrow> sk_buff \<Rightarrow> 'm \<Rightarrow> int \<times> 'm" where
  "tc_ingress ops skb m =
     (let ifindex = skb_ifindex skb; len = skb_len skb
      in if ifindex = 0 \<or> len = 0 then (TC_ACT_OK, m)
         else (TC_ACT_OK, update_stats ops ifindex len True m))"

definition tc_egress :: "'m bpf_ops \<Rightarrow> sk_buff \<Rightarrow> 'm \<Rightarrow> int \<times> 'm" where
  "tc_egress ops skb m =
     (let ifindex = skb_ifindex skb; len = skb_len skb
      in if ifindex = 0 \<or> len = 0 then (TC_ACT_OK, m)
         else (TC_ACT_OK, update_stats ops ifindex len False m))"

text \<open>A packet with its direction (received or sent), and a sequence of them.\<close>

definition handle :: "'m bpf_ops \<Rightarrow> bool \<times> sk_buff \<Rightarrow> 'm \<Rightarrow> 'm" where
  "handle ops p m = snd (if fst p then tc_ingress ops (snd p) m else tc_egress ops (snd p) m)"

section \<open>The monitor\<close>

record NetStatCache =
  nc_rcv_bytes :: u64
  nc_rcv_packets :: u64
  nc_snd_bytes :: u64
  nc_snd_packets :: u64
  nc_timestamp :: int

datatype attach_point = BPF_TC_INGRESS | BPF_TC_EGRESS

text \<open>
  The monitor's members; \<open>bpfObj\<close> tells whether the skeleton is kept. Times are in
  nanoseconds of the steady clock.
\<close>

record NetEbpfMonitor =
  en_cache :: "u32 \<rightharpoonup> NetStatCache"
  en_ifnameCache :: "u32 \<rightharpoonup> string"
  en_attachedIfindexes :: "u32 list"
  en_bpfObj :: bool
  en_mapFd :: int
  en_loaded :: bool
  en_lastUpdate :: int

text \<open>
  What the monitor asks of the system while it attaches: the directory of interfaces, the
  two name functions, and the results of the libbpf calls.
\<close>

record tc_system =
  net_dir :: "string list option"
  if_nametoindex :: "string \<Rightarrow> u32"
  if_indextoname :: "u32 \<Rightarrow> string option"
  skel_open_ok :: bool
  skel_load_ret :: int
  map_fd :: int
  tc_hook_create :: "u32 \<Rightarrow> int"
  tc_attach :: "u32 \<Rightarrow> attach_point \<Rightarrow> int"

abbreviation EEXIST :: int where "EEXIST \<equiv> 17"

definition GetAllIfIndexes :: "tc_system \<Rightarrow> u32 list" where
  "GetAllIfIndexes sys =
     (case net_dir sys of None \<Rightarrow> []
      | Some entries \<Rightarrow>
          filter (\<lambda>i. 0 < i)
            (map (if_nametoindex sys) (filter (\<lambda>d. d = [] \<or> hd d \<noteq> CHR ''.'') entries)))"

definition NetEbpfMonitor_init :: "int \<Rightarrow> NetEbpfMonitor" where
  "NetEbpfMonitor_init now =
    \<lparr>en_cache = Map.empty, en_ifnameCache = Map.empty, en_attachedIfindexes = [], en_bpfObj = False,
     en_mapFd = - 1, en_loaded = False, en_lastUpdate = now\<rparr>"

text \<open>
  One interface of the loop in \<open>initEbpf\<close>: the hooks that are now attached and whether the
  interface is remembered for the cleanup.
\<close>

definition attach_if :: "tc_system \<Rightarrow> u32 \<Rightarrow> (u32 \<times> attach_point) list \<times> u32 list" where
  "attach_if sys ifindex =
     (case if_indextoname sys ifindex of None \<Rightarrow> ([], [])
      | Some ifname \<Rightarrow>
          if ifname = ''lo'' then ([], [])
          else if tc_hook_create sys ifindex \<noteq> 0 \<and> tc_hook_create sys ifindex \<noteq> - EEXIST then ([], [])
          else
            let ingress = tc_attach sys ifindex BPF_TC_INGRESS = 0;
                egress = tc_attach sys ifindex BPF_TC_EGRESS = 0
            in ((if ingress then [(ifindex, BPF_TC_INGRESS)] else [])
                  @ (if egress then [(ifindex, BPF_TC_EGRESS)] else []),
                if ingress then [ifindex] else []))"

text \<open>\<open>initEbpf\<close>: the result, the monitor and the hooks the kernel now has.\<close>

definition initEbpf ::
  "tc_system \<Rightarrow> NetEbpfMonitor \<Rightarrow> bool \<times> NetEbpfMonitor \<times> (u32 \<times> attach_point) list" where
  "initEbpf sys s =
     (if \<not> skel_open_ok sys then (False, s, [])
      else if skel_load_ret sys \<noteq> 0 then (False, s, [])
      else
        let s = s\<lparr>en_mapFd := map_fd sys\<rparr>
        in if map_fd sys < 0 then (False, s, [])
           else
             let rs = map (attach_if sys) (GetAllIfIndexes sys);
                 hooks = concat (map fst rs);
                 s = s\<lparr>en_attachedIfindexes := en_attachedIfindexes s @ concat (map snd rs), en_bpfObj := True\<rparr>
             in if en_attachedIfindexes s = [] then (False, s\<lparr>en_bpfObj := False\<rparr>, hooks)
                else (True, s, hooks))"

definition NetEbpfMonitor_new ::
  "tc_system \<Rightarrow> int \<Rightarrow> NetEbpfMonitor \<times> (u32 \<times> attach_point) list" where
  "NetEbpfMonitor_new sys now =
     (case initEbpf sys (NetEbpfMonitor_init now) of (b, s, hooks) \<Rightarrow> (s\<lparr>en_loaded := b\<rparr>, hooks))"

text \<open>\<open>cleanupEbpf\<close>, when the kernel carries out every detach it is asked for.\<close>

definition cleanupEbpf ::
  "NetEbpfMonitor \<Rightarrow> (u32 \<times> attach_point) list \<Rightarrow> NetEbpfMonitor \<times> (u32 \<times> attach_point) list" where
  "cleanupEbpf s hooks =
     (s\<lparr>en_attachedIfindexes := [], en_bpfObj := False, en_mapFd := - 1, en_loaded := False\<rparr>,
      filter (\<lambda>h. fst h \<notin> set (en_attachedIfindexes s)) hooks)"

definition getIfName :: "(u32 \<Rightarrow> string option) \<Rightarrow> u32 \<Rightarrow> NetEbpfMonitor \<Rightarrow> string \<times> NetEbpfMonitor" where
  "getIfName indextoname ifindex s =
     (case en_ifnameCache s ifindex of Some name \<Rightarrow> (name, s)
      | None \<Rightarrow>
          (case indextoname ifindex of
             Some name \<Rightarrow> (name, s\<lparr>en_ifnameCache := (en_ifnameCache s)(ifindex \<mapsto> name)\<rparr>)
           | None \<Rightarrow> ([], s)))"

text \<open>
  A rate: the difference of the counters as a signed number, the new value when it is
  negative, scaled to one second in integers and stored as a \<open>float\<close>.
\<close>

definition counter_rate :: "u64 \<Rightarrow> u64 \<Rightarrow> int \<Rightarrow> fp" where
  "counter_rate new old ms =
     (let diff = sint (new - old); diff = (if diff < 0 then sint new else diff)
      in f32_of_int (cdiv (wrap64 (diff * 1000)) ms))"

definition net_info_of ::
  "string \<Rightarrow> int \<Rightarrow> net_stats \<Rightarrow> NetStatCache option \<Rightarrow> NetInfo" where
  "net_info_of ifname now stats cached =
     (let info = default_NetInfo\<lparr>ni_name := ifname\<rparr>
      in case cached of None \<Rightarrow> info
         | Some old \<Rightarrow>
             let ms = cdiv (now - nc_timestamp old) 1000000
             in if 0 < ms
                then info\<lparr>ni_rcv_rate := counter_rate (ns_rcv_bytes stats) (nc_rcv_bytes old) ms,
                          ni_send_rate := counter_rate (ns_snd_bytes stats) (nc_snd_bytes old) ms,
                          ni_rcv_packets_rate := counter_rate (ns_rcv_packets stats) (nc_rcv_packets old) ms,
                          ni_send_packets_rate := counter_rate (ns_snd_packets stats) (nc_snd_packets old) ms\<rparr>
                else info)"

definition cache_of :: "net_stats \<Rightarrow> int \<Rightarrow> NetStatCache" where
  "cache_of s now = \<lparr>nc_rcv_bytes = ns_rcv_bytes s, nc_rcv_packets = ns_rcv_packets s,
     nc_snd_bytes = ns_snd_bytes s, nc_snd_packets = ns_snd_packets s, nc_timestamp = now\<rparr>"

text \<open>The body of the loop over the map, for one key.\<close>

definition report_key ::
  "'m bpf_ops \<Rightarrow> (u32 \<Rightarrow> string option) \<Rightarrow> int \<Rightarrow> 'm \<Rightarrow> u32
     \<Rightarrow> NetEbpfMonitor \<times> NetInfo list \<Rightarrow> NetEbpfMonitor \<times> NetInfo list" where
  "report_key ops indextoname now m k si =
     (case si of (s, infos) \<Rightarrow>
        (case bm_lookup ops m k of None \<Rightarrow> (s, infos)
         | Some stats \<Rightarrow>
             (case getIfName indextoname k s of (ifname, s) \<Rightarrow>
                if ifname = [] \<or> ifname = ''lo'' then (s, infos)
                else (s\<lparr>en_cache := (en_cache s)(k \<mapsto> cache_of stats now)\<rparr>,
                      infos @ [net_info_of ifname now stats (en_cache s k)]))))"

text \<open>
  The loop itself: \<open>None\<close> when the fuel runs out. One unit per entry of the map and one for
  the end are enough (\<open>walk_all\<close>).
\<close>

fun walk ::
  "'m bpf_ops \<Rightarrow> (u32 \<Rightarrow> string option) \<Rightarrow> int \<Rightarrow> 'm \<Rightarrow> nat \<Rightarrow> u32
     \<Rightarrow> NetEbpfMonitor \<times> NetInfo list \<Rightarrow> (NetEbpfMonitor \<times> NetInfo list) option" where
  "walk ops indextoname now m 0 key si = None"
| "walk ops indextoname now m (Suc fuel) key si =
     (case bm_next_key ops m key of None \<Rightarrow> Some si
      | Some next_key \<Rightarrow>
          walk ops indextoname now m fuel next_key (report_key ops indextoname now m next_key si))"

definition NetEbpfMonitor_updateOnce ::
  "'m bpf_ops \<Rightarrow> (u32 \<Rightarrow> string option) \<Rightarrow> int \<Rightarrow> 'm \<Rightarrow> nat \<Rightarrow> NetEbpfMonitor \<Rightarrow> MonitorInfo
     \<Rightarrow> (NetEbpfMonitor \<times> MonitorInfo) option" where
  "NetEbpfMonitor_updateOnce ops indextoname now m fuel s monitor_info =
     (if \<not> en_loaded s \<or> en_mapFd s < 0 then Some (s, monitor_info)
      else (case walk ops indextoname now m fuel 0 (s, m_net_info monitor_info) of None \<Rightarrow> None
            | Some (s, infos) \<Rightarrow> Some (s\<lparr>en_lastUpdate := now\<rparr>, monitor_info\<lparr>m_net_info := infos\<rparr>)))"

section \<open>The map interface\<close>

locale bpf_hash =
  fixes ops :: "'m bpf_ops" and keys :: "'m \<Rightarrow> u32 list" and emp :: 'm
  assumes keys_emp: "keys emp = []"
    and distinct_keys: "distinct (keys m)"
    and lookup_keys: "bm_lookup ops m k \<noteq> None \<longleftrightarrow> k \<in> set (keys m)"
    and update_old: "k \<in> set (keys m) \<Longrightarrow> keys (bm_update ops k v m) = keys m"
    and update_new: "k \<notin> set (keys m) \<Longrightarrow> length (keys m) < max_entries \<Longrightarrow>
          set (keys (bm_update ops k v m)) = insert k (set (keys m))"
    and lookup_update: "k \<in> set (keys m) \<or> length (keys m) < max_entries \<Longrightarrow>
          bm_lookup ops (bm_update ops k v m) = (bm_lookup ops m)(k \<mapsto> v)"
    and update_full: "k \<notin> set (keys m) \<Longrightarrow> max_entries \<le> length (keys m) \<Longrightarrow> bm_update ops k v m = m"
    and next_first: "k \<notin> set (keys m) \<Longrightarrow>
          bm_next_key ops m k = (case keys m of [] \<Rightarrow> None | x # xs \<Rightarrow> Some x)"
    and next_inner: "keys m = xs @ k # y # ys \<Longrightarrow> bm_next_key ops m k = Some y"
    and next_last: "keys m = xs @ [k] \<Longrightarrow> bm_next_key ops m k = None"

text \<open>Packets of an interface, and the traffic they make up.\<close>

definition relevant :: "u32 \<Rightarrow> (bool \<times> sk_buff) list \<Rightarrow> (bool \<times> sk_buff) list" where
  "relevant k ps = filter (\<lambda>p. skb_ifindex (snd p) = k \<and> skb_len (snd p) \<noteq> 0) ps"

definition bytes :: "bool \<Rightarrow> (bool \<times> sk_buff) list \<Rightarrow> u64" where
  "bytes rx ps = sum_list (map (\<lambda>p. ucast (skb_len (snd p))) (filter (\<lambda>p. fst p = rx) ps))"

definition packets :: "bool \<Rightarrow> (bool \<times> sk_buff) list \<Rightarrow> u64" where
  "packets rx ps = of_nat (length (filter (\<lambda>p. fst p = rx) ps))"

definition traffic :: "(bool \<times> sk_buff) list \<Rightarrow> net_stats" where
  "traffic ps = \<lparr>ns_rcv_bytes = bytes True ps, ns_rcv_packets = packets True ps,
     ns_snd_bytes = bytes False ps, ns_snd_packets = packets False ps\<rparr>"

lemma traffic_simps:
  "traffic (ps @ [(rx, skb)]) = add_stats (skb_len skb) rx (traffic ps)"
  "traffic [(rx, skb)] = first_stats (skb_len skb) rx"
  by (auto simp: traffic_def add_stats_def first_stats_def zero_net_stats_def bytes_def packets_def)

lemma relevant_snoc:
  "relevant k (ps @ [p]) =
     (if skb_ifindex (snd p) = k \<and> skb_len (snd p) \<noteq> 0 then relevant k ps @ [p] else relevant k ps)"
  by (simp add: relevant_def)

lemma handle_alt:
  "handle ops p m = (if skb_ifindex (snd p) = 0 \<or> skb_len (snd p) = 0 then m
     else update_stats ops (skb_ifindex (snd p)) (skb_len (snd p)) (fst p) m)"
  by (simp add: handle_def tc_ingress_def tc_egress_def Let_def)

context bpf_hash
begin

definition counted :: "(bool \<times> sk_buff) list \<Rightarrow> 'm \<Rightarrow> bool" where
  "counted ps m \<longleftrightarrow> 0 \<notin> set (keys m)
     \<and> (\<forall>k. k \<noteq> 0 \<longrightarrow> (case bm_lookup ops m k of
          Some s \<Rightarrow> relevant k ps \<noteq> [] \<and> s = traffic (relevant k ps)
        | None \<Rightarrow> relevant k ps = [] \<or> max_entries \<le> length (keys m)))"

lemma length_update:
  "length (keys m) \<le> length (keys (bm_update ops k v m))"
proof (cases "k \<in> set (keys m) \<or> max_entries \<le> length (keys m)")
  case True
  then show ?thesis using update_old [of k m v] update_full [of k m v] by (cases "k \<in> set (keys m)") auto
next
  case False
  then have "set (keys m) \<subseteq> set (keys (bm_update ops k v m))" using update_new by auto
  then show ?thesis
    using distinct_card [OF distinct_keys] card_mono [OF finite_set] by metis
qed

lemma counted_handle:
  assumes "counted ps m"
  shows "counted (ps @ [p]) (handle ops p m)"
proof -
  obtain rx skb where p: "p = (rx, skb)" by (cases p)
  define k where "k = skb_ifindex skb"
  consider "k = 0 \<or> skb_len skb = 0"
    | "k \<noteq> 0" "skb_len skb \<noteq> 0" "k \<notin> set (keys m)" "max_entries \<le> length (keys m)"
    | "k \<noteq> 0" "skb_len skb \<noteq> 0" "k \<in> set (keys m) \<or> length (keys m) < max_entries" by linarith
  then show ?thesis
  proof cases
    case 1
    then have "relevant j (ps @ [p]) = relevant j ps" if "j \<noteq> 0" for j
      using that by (auto simp: relevant_snoc p k_def)
    with 1 assms show ?thesis
      by (auto simp: counted_def handle_alt p k_def cong: option.case_cong)
  next
    case 2
    moreover have "bm_lookup ops m k = None" using 2 lookup_keys by blast
    ultimately show ?thesis
      using assms update_full [of k m]
      by (auto simp: counted_def handle_alt p k_def [symmetric] relevant_snoc update_stats_def
          split: option.splits)
  next
    case 3
    define v where "v = (case bm_lookup ops m k of None \<Rightarrow> first_stats (skb_len skb) rx
      | Some s \<Rightarrow> add_stats (skb_len skb) rx s)"
    have h: "handle ops p m = bm_update ops k v m"
      using 3 by (auto simp: handle_alt p k_def [symmetric] update_stats_def v_def split: option.splits)
    have "0 \<notin> set (keys (bm_update ops k v m))"
      using 3 assms update_old [of k m v] update_new [of k m v]
      by (cases "k \<in> set (keys m)") (auto simp: counted_def)
    moreover have "v = traffic (relevant k (ps @ [p]))"
    proof (cases "bm_lookup ops m k")
      case None
      then have "relevant k ps = []"
        using assms 3 lookup_keys [of m k] by (fastforce simp: counted_def split: option.splits)
      then show ?thesis using 3 None by (simp add: v_def p relevant_snoc k_def traffic_simps)
    next
      case (Some s)
      then have "s = traffic (relevant k ps)" using assms 3 by (fastforce simp: counted_def split: option.splits)
      then show ?thesis using 3 Some by (simp add: v_def p relevant_snoc k_def traffic_simps)
    qed
    moreover have "case bm_lookup ops (bm_update ops k v m) j of
        Some s \<Rightarrow> relevant j (ps @ [p]) \<noteq> [] \<and> s = traffic (relevant j (ps @ [p]))
      | None \<Rightarrow> relevant j (ps @ [p]) = [] \<or> max_entries \<le> length (keys (bm_update ops k v m))"
      if "j \<noteq> 0" for j
    proof (cases "j = k")
      case True
      then show ?thesis
        using lookup_update [OF 3(3), of v] calculation(2) 3(2) by (simp add: p relevant_snoc k_def)
    next
      case False
      then have "relevant j (ps @ [p]) = relevant j ps" by (simp add: p relevant_snoc k_def)
      moreover have "case bm_lookup ops m j of
          Some s \<Rightarrow> relevant j ps \<noteq> [] \<and> s = traffic (relevant j ps)
        | None \<Rightarrow> relevant j ps = [] \<or> max_entries \<le> length (keys m)"
        using assms that unfolding counted_def by blast
      ultimately show ?thesis
        using False lookup_update [OF 3(3), of v] length_update [of m k v]
        by (cases "bm_lookup ops m j") auto
    qed
    ultimately show ?thesis unfolding h counted_def by blast
  qed
qed

lemma counted_fold: "counted ps (fold (handle ops) ps emp)"
proof (induction ps rule: rev_induct)
  case Nil
  have "bm_lookup ops emp k = None" for k
    using lookup_keys [of emp k] by (simp add: keys_emp)
  then show ?case by (simp add: counted_def keys_emp relevant_def)
next
  case (snoc p ps)
  then show ?case using counted_handle by simp
qed

text \<open>The walk from a key outside the map visits the keys in their order.\<close>

lemma walk_from:
  "keys m = xs @ key # ys \<Longrightarrow> length ys < fuel \<Longrightarrow>
     walk ops nm now m fuel key si = Some (fold (report_key ops nm now m) ys si)"
proof (induction ys arbitrary: xs key fuel si)
  case Nil
  then show ?case using next_last [of m xs key] by (cases fuel) auto
next
  case (Cons y ys)
  then obtain n where n: "fuel = Suc n" by (cases fuel) auto
  have "keys m = (xs @ [key]) @ y # ys" using Cons.prems by simp
  then show ?case using next_inner [of m xs key y ys] Cons n by simp
qed

lemma walk_all:
  assumes "key \<notin> set (keys m)" "length (keys m) < fuel"
  shows "walk ops nm now m fuel key si = Some (fold (report_key ops nm now m) (keys m) si)"
proof -
  obtain n where n: "fuel = Suc n" using assms by (cases fuel) auto
  show ?thesis
  proof (cases "keys m")
    case Nil
    then show ?thesis using next_first [OF assms(1)] n by simp
  next
    case (Cons x xs)
    then have "walk ops nm now m n x si' = Some (fold (report_key ops nm now m) xs si')" for si'
      using walk_from [of m "[]" x xs n] assms(2) n by simp
    then show ?thesis using next_first [OF assms(1)] Cons n by simp
  qed
qed

end

text \<open>An association list in the order of insertion, with at most \<open>max_entries\<close> entries.\<close>

type_synonym alist_map = "(u32 \<times> net_stats) list"

definition am_keys :: "alist_map \<Rightarrow> u32 list" where
  "am_keys m = remdups (map fst m)"

definition am_update :: "u32 \<Rightarrow> net_stats \<Rightarrow> alist_map \<Rightarrow> alist_map" where
  "am_update k v m =
     (if k \<in> set (map fst m) then map (\<lambda>(j, s). (j, if j = k then v else s)) m
      else if length (am_keys m) < max_entries then m @ [(k, v)] else m)"

fun next_in :: "u32 list \<Rightarrow> u32 \<Rightarrow> u32 option" where
  "next_in (x # y # ys) k = (if x = k then Some y else next_in (y # ys) k)"
| "next_in _ k = None"

definition am_next_key :: "alist_map \<Rightarrow> u32 \<Rightarrow> u32 option" where
  "am_next_key m k = (if k \<in> set (am_keys m) then next_in (am_keys m) k
     else case am_keys m of [] \<Rightarrow> None | x # xs \<Rightarrow> Some x)"

definition alist_ops :: "alist_map bpf_ops" where
  "alist_ops = \<lparr>bm_lookup = map_of, bm_update = am_update, bm_next_key = am_next_key\<rparr>"

lemma next_in_append:
  "distinct (xs @ k # ys) \<Longrightarrow> next_in (xs @ k # ys) k = (case ys of [] \<Rightarrow> None | y # _ \<Rightarrow> Some y)"
proof (induction xs)
  case Nil
  then show ?case by (cases ys) auto
next
  case (Cons x xs)
  then show ?case by (cases xs) (auto split: list.splits)
qed

lemma am_distinct: "distinct (am_keys m)"
  by (simp add: am_keys_def)

lemma map_of_replace:
  "k \<in> fst ` set xs \<Longrightarrow> map_of (map (\<lambda>(j, s). (j, if j = k then v else s)) xs) = (map_of xs)(k \<mapsto> v)"
proof (induction xs)
  case (Cons x xs)
  have "map_of (map (\<lambda>(j, s). (j, if j = k then v else s)) xs) = map_of xs" if "k \<notin> fst ` set xs"
  proof -
    have "map (\<lambda>(j, s). (j, if j = k then v else s)) xs = xs"
      using that by (intro map_idI) (auto simp: image_iff)
    then show ?thesis by simp
  qed
  with Cons show ?case by (cases x; cases "k \<in> fst ` set xs") auto
qed simp

lemma map_fst_replace: "map fst (map (\<lambda>(j, s). (j, if j = k then v else s)) xs) = map fst xs"
  by (induction xs) auto

lemma am_lookup_update:
  assumes "k \<in> set (am_keys m) \<or> length (am_keys m) < max_entries"
  shows "map_of (am_update k v m) = (map_of m)(k \<mapsto> v)"
proof (cases "k \<in> fst ` set m")
  case True
  then show ?thesis by (simp add: am_update_def map_of_replace)
next
  case False
  then have "map_of m k = None" by (simp add: map_of_eq_None_iff)
  with False assms show ?thesis
    by (auto simp: am_update_def am_keys_def map_add_def fun_eq_iff split: option.splits)
qed

interpretation am: bpf_hash alist_ops am_keys "[]"
proof
  fix m xs k y ys
  assume "am_keys m = xs @ k # y # ys"
  then show "bm_next_key alist_ops m k = Some y"
    using am_distinct [of m] next_in_append [of xs k "y # ys"] by (simp add: alist_ops_def am_next_key_def)
next
  fix m xs k
  assume "am_keys m = xs @ [k]"
  then show "bm_next_key alist_ops m k = None"
    using am_distinct [of m] next_in_append [of xs k "[]"] by (simp add: alist_ops_def am_next_key_def)
next
  fix k m v
  assume "k \<in> set (am_keys m) \<or> length (am_keys m) < max_entries"
  then show "bm_lookup alist_ops (bm_update alist_ops k v m) = (bm_lookup alist_ops m)(k \<mapsto> v)"
    by (simp add: alist_ops_def am_lookup_update)
qed (auto simp: alist_ops_def am_next_key_def am_update_def am_keys_def
    map_fst_replace map_of_eq_None_iff simp del: map_map split: list.splits)

section \<open>Several CPUs\<close>

text \<open>
  A CPU that handles a packet looks the entry up, then either inserts a first entry or adds
  to the entry it found; other CPUs may run in between.
\<close>

datatype cpu_pc = Ready | Missed bool sk_buff | Found bool sk_buff

inductive cstep ::
  "'m bpf_ops \<Rightarrow> (nat \<Rightarrow> cpu_pc) \<times> 'm \<times> nat \<Rightarrow> (nat \<Rightarrow> cpu_pc) \<times> 'm \<times> nat \<Rightarrow> bool" for ops where
  miss: "pc c = Ready \<Longrightarrow> skb_ifindex skb \<noteq> 0 \<Longrightarrow> skb_len skb \<noteq> 0
    \<Longrightarrow> bm_lookup ops m (skb_ifindex skb) = None
    \<Longrightarrow> cstep ops (pc, m, n) (pc(c := Missed rx skb), m, n)"
| find: "pc c = Ready \<Longrightarrow> skb_ifindex skb \<noteq> 0 \<Longrightarrow> skb_len skb \<noteq> 0
    \<Longrightarrow> bm_lookup ops m (skb_ifindex skb) = Some s
    \<Longrightarrow> cstep ops (pc, m, n) (pc(c := Found rx skb), m, n)"
| insert: "pc c = Missed rx skb
    \<Longrightarrow> cstep ops (pc, m, n)
          (pc(c := Ready), bm_update ops (skb_ifindex skb) (first_stats (skb_len skb) rx) m, Suc n)"
| add: "pc c = Found rx skb \<Longrightarrow> bm_lookup ops m (skb_ifindex skb) = Some s
    \<Longrightarrow> cstep ops (pc, m, n)
          (pc(c := Ready), bm_update ops (skb_ifindex skb) (add_stats (skb_len skb) rx s) m, Suc n)"

section \<open>Facts about the monitor\<close>

definition ifname_of :: "(u32 \<Rightarrow> string option) \<Rightarrow> NetEbpfMonitor \<Rightarrow> u32 \<Rightarrow> string" where
  "ifname_of nm s k = (case en_ifnameCache s k of Some n \<Rightarrow> n
     | None \<Rightarrow> (case nm k of Some n \<Rightarrow> n | None \<Rightarrow> []))"

lemma getIfName_name: "fst (getIfName nm k s) = ifname_of nm s k"
  by (simp add: getIfName_def ifname_of_def split: option.splits)

lemma getIfName_keeps: "ifname_of nm (snd (getIfName nm k s)) = ifname_of nm s"
  by (auto simp: getIfName_def ifname_of_def fun_eq_iff split: option.splits)

lemma report_key_names:
  assumes "bm_lookup ops m k \<noteq> None"
  shows "ifname_of nm (fst (report_key ops nm now m k (s, infos))) = ifname_of nm s"
    and "map ni_name (snd (report_key ops nm now m k (s, infos))) =
      map ni_name infos @ (if ifname_of nm s k \<in> {[], ''lo''} then [] else [ifname_of nm s k])"
proof -
  obtain st where st: "bm_lookup ops m k = Some st" using assms by auto
  obtain n s' where g: "getIfName nm k s = (n, s')" by (cases "getIfName nm k s")
  then have n: "n = ifname_of nm s k" and k: "ifname_of nm s' = ifname_of nm s"
    using getIfName_name [of nm k s] getIfName_keeps [of nm k s] by simp_all
  have c: "ifname_of nm (s'\<lparr>en_cache := c\<rparr>) = ifname_of nm s'" for c
    by (simp add: ifname_of_def fun_eq_iff)
  show "ifname_of nm (fst (report_key ops nm now m k (s, infos))) = ifname_of nm s"
    by (simp add: report_key_def st g k c)
  have "ni_name (net_info_of n now st cached) = n" for cached
    by (simp add: net_info_of_def Let_def split: option.splits)
  then show "map ni_name (snd (report_key ops nm now m k (s, infos))) =
      map ni_name infos @ (if ifname_of nm s k \<in> {[], ''lo''} then [] else [ifname_of nm s k])"
    by (auto simp: report_key_def st g n)
qed

lemma fold_report_names:
  "\<forall>k \<in> set ks. bm_lookup ops m k \<noteq> None \<Longrightarrow>
     map ni_name (snd (fold (report_key ops nm now m) ks (s, infos))) =
       map ni_name infos @ filter (\<lambda>n. n \<notin> {[], ''lo''}) (map (ifname_of nm s) ks)"
proof (induction ks arbitrary: s infos)
  case (Cons k ks)
  obtain s' i' where r: "report_key ops nm now m k (s, infos) = (s', i')" by fastforce
  then show ?case using Cons report_key_names [of ops m k nm now s infos] by auto
qed simp

text \<open>The hooks of one interface, and whether it is remembered.\<close>

lemma attach_if_hooks:
  assumes "h \<in> set (fst (attach_if sys i))"
  shows "fst h = i"
    and "i \<in> set (snd (attach_if sys i)) \<longleftrightarrow> tc_attach sys i BPF_TC_INGRESS = 0"
    and "snd h = BPF_TC_INGRESS \<Longrightarrow> tc_attach sys i BPF_TC_INGRESS = 0"
    and "j \<in> set (snd (attach_if sys i')) \<Longrightarrow> j = i' \<and> tc_attach sys j BPF_TC_INGRESS = 0"
  using assms by (auto simp: attach_if_def Let_def split: option.splits if_splits)

lemma sint_diff:
  fixes new old :: u64
  assumes "uint new < 2 ^ 63" "uint old < 2 ^ 63"
  shows "sint (new - old) = uint new - uint old"
proof -
  have "new - old = word_of_int (uint new - uint old)" by (simp add: wi_hom_sub)
  then have "sint (new - old) = sint (word_of_int (uint new - uint old) :: u64)" by simp
  also have "\<dots> = signed_take_bit 63 (uint new - uint old)"
    by (simp only: signed_of_int) simp
  also have "\<dots> = uint new - uint old"
    using assms uint_ge_0 [of new] uint_ge_0 [of old]
    by (intro signed_take_bit_int_eq_self) linarith+
  finally show ?thesis .
qed

lemma cdiv_nonneg: "0 \<le> a \<Longrightarrow> 0 < b \<Longrightarrow> cdiv a b = a div b"
  by (cases "a = 0") (auto simp: cdiv_def)

section \<open>Properties\<close>

text \<open>
  C19: Whatever packets pass the hooks, in whatever order and number: an interface with an
  entry in the map has exactly its traffic counted there, bytes and packets per direction
  modulo \<open>2 ^ 64\<close>; an interface without one has had no non-empty packet, or the map has
  all its 64 entries. The entry of key 0 is never used.
\<close>

theorem traffic_counted:
  fixes ps :: "(bool \<times> sk_buff) list"
  assumes "bpf_hash ops keys emp" "k \<noteq> 0"
  defines "m \<equiv> fold (handle ops) ps emp"
  shows "0 \<notin> set (keys m)
    \<and> (case bm_lookup ops m k of
         Some s \<Rightarrow> s = traffic (relevant k ps)
       | None \<Rightarrow> relevant k ps = [] \<or> max_entries \<le> length (keys m))"
  using bpf_hash.counted_fold [OF assms(1), of ps] assms(2)
  by (fastforce simp: bpf_hash.counted_def [OF assms(1)] m_def split: option.splits)

definition demo_skb :: "u32 \<Rightarrow> u32 \<Rightarrow> sk_buff" where
  "demo_skb ifindex len =
    \<lparr>skb_len = len, skb_pkt_type = 0, skb_mark = 0, skb_queue_mapping = 0, skb_protocol = 0,
     skb_vlan_present = 0, skb_vlan_tci = 0, skb_vlan_proto = 0, skb_priority = 0,
     skb_ingress_ifindex = 0, skb_ifindex = ifindex, skb_tc_index = 0, skb_cb = [], skb_hash = 0,
     skb_tc_classid = 0, skb_data = 0, skb_data_end = 0, skb_napi_id = 0, skb_family = 0,
     skb_remote_ip4 = 0, skb_local_ip4 = 0, skb_remote_ip6 = [], skb_local_ip6 = [],
     skb_remote_port = 0, skb_local_port = 0, skb_data_meta = 0, skb_flow_keys = 0, skb_tstamp = 0,
     skb_wire_len = 0, skb_gso_segs = 0, skb_sk = 0, skb_gso_size = 0, skb_tstamp_type = 0,
     skb_hwtstamp = 0\<rparr>"

lemma demo_skb_simps [simp]:
  "skb_ifindex (demo_skb i l) = i" "skb_len (demo_skb i l) = l"
  by (simp_all add: demo_skb_def)

theorem traffic_counted_witness:
  "case bm_lookup alist_ops (fold (handle alist_ops) [(True, demo_skb 2 100), (True, demo_skb 2 50)] []) 2 of
     Some s \<Rightarrow> s = \<lparr>ns_rcv_bytes = 150, ns_rcv_packets = 2, ns_snd_bytes = 0, ns_snd_packets = 0\<rparr>
   | None \<Rightarrow> max_entries \<le> length (am_keys (fold (handle alist_ops) [(True, demo_skb 2 100), (True, demo_skb 2 50)] []))"
  using traffic_counted [OF am.bpf_hash_axioms, of 2 "[(True, demo_skb 2 100), (True, demo_skb 2 50)]"]
  by (simp add: relevant_def traffic_def bytes_def packets_def del: fold_simps cong: option.case_cong)

text \<open>
  C30: A collection of the loaded monitor terminates and reports every interface of the map
  that has a name other than \<open>lo\<close>, once and in the map's order, after the entries already
  present.
\<close>

theorem ebpf_reports_every_interface:
  fixes ps :: "(bool \<times> sk_buff) list"
  assumes "bpf_hash ops keys emp" "en_loaded s" "0 \<le> en_mapFd s"
  defines "m \<equiv> fold (handle ops) ps emp"
  assumes "length (keys m) < fuel"
  shows "\<exists>s' info'. NetEbpfMonitor_updateOnce ops nm now m fuel s info = Some (s', info')
    \<and> en_lastUpdate s' = now
    \<and> map ni_name (m_net_info info') = map ni_name (m_net_info info)
        @ filter (\<lambda>n. n \<notin> {[], ''lo''}) (map (ifname_of nm s) (keys m))"
proof -
  have z: "0 \<notin> set (keys m)"
    using bpf_hash.counted_fold [OF assms(1), of ps]
    by (simp add: bpf_hash.counted_def [OF assms(1)] m_def)
  let ?r = "fold (report_key ops nm now m) (keys m) (s, m_net_info info)"
  have "\<forall>k \<in> set (keys m). bm_lookup ops m k \<noteq> None"
    using bpf_hash.lookup_keys [OF assms(1), of m] by blast
  then have "map ni_name (snd ?r) = map ni_name (m_net_info info)
      @ filter (\<lambda>n. n \<notin> {[], ''lo''}) (map (ifname_of nm s) (keys m))"
    by (rule fold_report_names)
  moreover have "walk ops nm now m fuel 0 (s, m_net_info info) = Some ?r"
    using bpf_hash.walk_all [OF assms(1) z assms(5)] .
  ultimately show ?thesis
    using assms(2,3) by (cases ?r) (simp add: NetEbpfMonitor_updateOnce_def)
qed

lemma demo_map: "fold (handle alist_ops) [(True, demo_skb 2 100)] [] = [(2, first_stats 100 True)]"
  by (simp add: handle_alt update_stats_def alist_ops_def am_update_def am_keys_def max_entries_def)

theorem ebpf_reports_every_interface_witness:
  "\<exists>s' info'. NetEbpfMonitor_updateOnce alist_ops (\<lambda>_. Some ''eth0'') 5 [(2, first_stats 100 True)] 2
       ((NetEbpfMonitor_init 0)\<lparr>en_loaded := True, en_mapFd := 3\<rparr>) default_MonitorInfo = Some (s', info')
     \<and> map ni_name (m_net_info info') = [''eth0'']"
  using ebpf_reports_every_interface [OF am.bpf_hash_axioms,
      of "(NetEbpfMonitor_init 0)\<lparr>en_loaded := True, en_mapFd := 3\<rparr>" "[(True, demo_skb 2 100)]" 2
        "\<lambda>_. Some ''eth0''" 5 default_MonitorInfo]
  unfolding demo_map
  by (auto simp: NetEbpfMonitor_init_def am_keys_def ifname_of_def default_MonitorInfo_def)

text \<open>
  C31: For counters below \<open>2 ^ 53\<close> the reported rate is the increase per second, rounded
  down, and after a counter has been reset the new value per second; it is never negative.
\<close>

theorem counter_rate_exact:
  assumes "uint new < 2 ^ 53" "uint old < 2 ^ 63" "0 < ms"
  shows "counter_rate new old ms =
     f32_of_int ((if uint old \<le> uint new then uint new - uint old else uint new) * 1000 div ms)"
proof -
  have n: "uint new < 2 ^ 63" using assms(1) by simp
  have d: "sint (new - old) = uint new - uint old" "sint new = uint new"
    using sint_diff [OF n assms(2)] sint_diff [OF n, of 0] by simp_all
  have "wrap64 (i * 1000) = i * 1000" if "0 \<le> i" "i < 2 ^ 53" for i
    using that by (intro wrap64_id) simp_all
  moreover define i where "i = (if uint old \<le> uint new then uint new - uint old else uint new)"
  moreover have "0 \<le> i" "i < 2 ^ 53"
    using assms(1) uint_ge_0 [of new] uint_ge_0 [of old] unfolding i_def
    by (auto simp del: uint_ge_0 intro: le_less_trans [of _ "uint new"])
  moreover have "counter_rate new old ms = f32_of_int (cdiv (wrap64 (i * 1000)) ms)"
    by (simp add: counter_rate_def d i_def)
  ultimately show ?thesis using assms(3) by (simp add: cdiv_nonneg)
qed

theorem counter_rate_exact_witness:
  "counter_rate 3000 1000 2000 = f32_of_int 1000 \<and> counter_rate 500 1000 1000 = f32_of_int 500"
  using counter_rate_exact [of 3000 1000 2000] counter_rate_exact [of 500 1000 1000] by simp


text \<open>
  The cleanup detaches the hooks of the interfaces whose ingress program was attached.
  Where that failed and the egress program was attached, its hook stays behind.
\<close>

theorem cleanup_leaves_egress:
  assumes "NetEbpfMonitor_new sys now = (s, hooks)"
  shows "snd (cleanupEbpf s hooks) =
     filter (\<lambda>h. snd h = BPF_TC_EGRESS \<and> tc_attach sys (fst h) BPF_TC_INGRESS \<noteq> 0) hooks"
proof (cases "skel_open_ok sys \<and> skel_load_ret sys = 0 \<and> 0 \<le> map_fd sys")
  case True
  let ?rs = "map (attach_if sys) (GetAllIfIndexes sys)"
  have h: "hooks = concat (map fst ?rs)" and a: "en_attachedIfindexes s = concat (map snd ?rs)"
    using assms True
    by (auto simp: NetEbpfMonitor_new_def initEbpf_def NetEbpfMonitor_init_def Let_def not_less split: if_splits)
  have "fst h \<notin> set (en_attachedIfindexes s) \<longleftrightarrow>
      snd h = BPF_TC_EGRESS \<and> tc_attach sys (fst h) BPF_TC_INGRESS \<noteq> 0" if "h \<in> set hooks" for h
  proof -
    obtain i where i: "i \<in> set (GetAllIfIndexes sys)" "h \<in> set (fst (attach_if sys i))"
      using \<open>h \<in> set hooks\<close> unfolding h by auto
    note f = attach_if_hooks [OF i(2)]
    have "i \<in> set (en_attachedIfindexes s) \<longleftrightarrow> tc_attach sys i BPF_TC_INGRESS = 0"
      using i(1) f(2,4) unfolding a by auto
    then show ?thesis using f(1,3) by (cases "snd h") auto
  qed
  then show ?thesis unfolding cleanupEbpf_def snd_conv by (intro filter_cong refl)
next
  case False
  with assms have "hooks = []"
    by (auto simp: NetEbpfMonitor_new_def initEbpf_def Let_def split: if_splits)
  then show ?thesis by (simp add: cleanupEbpf_def)
qed

definition egress_only :: tc_system where
  "egress_only = \<lparr>net_dir = Some [''.'', ''eth0''], if_nametoindex = (\<lambda>_. 2),
     if_indextoname = (\<lambda>_. Some ''eth0''), skel_open_ok = True, skel_load_ret = 0, map_fd = 3,
     tc_hook_create = (\<lambda>_. 0), tc_attach = (\<lambda>_ p. if p = BPF_TC_INGRESS then - 1 else 0)\<rparr>"

theorem cleanup_leaves_egress_witness:
  "snd (cleanupEbpf (fst (NetEbpfMonitor_new egress_only 0)) (snd (NetEbpfMonitor_new egress_only 0))) =
     [(2, BPF_TC_EGRESS)]"
  using cleanup_leaves_egress [of egress_only 0, OF surjective_pairing]
  by (simp add: NetEbpfMonitor_new_def initEbpf_def attach_if_def GetAllIfIndexes_def egress_only_def Let_def)

end
