(* ===== verification/Host_Manager.thy ===== *)
theory Host_Manager
  imports Messages Manager_Config
begin

text \<open>
  The host manager, \<open>HostManager.h/.cpp\<close>: it authorises the pushes of the workers against
  the registry, scores every host, keeps the latest score per host, forgets hosts that fall
  silent, and queues the samples for the MySQL writers. The rows that are written are in
  \<open>Mysql_Write\<close>.

  The MySQL client is a parameter: \<open>escape\<close> is \<open>mysql_real_escape_string\<close> and a function
  from statements to replies stands for the registry query; \<open>show_double\<close> is how a stream
  prints a double. Times are in nanoseconds of the system clock. The scores are computed
  in IEEE double precision as in \<open>Floats\<close>, so the bounds and the monotonicity below are
  about the rounded results.
\<close>

section \<open>Data\<close>

record WorkerIdentity =
  worker_id :: string
  worker_token :: string

record WorkerScope =
  tenant_id :: string
  team_id :: string
  cluster_id :: string
  server_id :: u64

record HostScore =
  hs_info :: MonitorInfo
  hs_score :: fp
  hs_timestamp :: int

record HostMonitoringData =
  hd_host_name :: string
  hd_scope :: WorkerScope
  hd_host_score :: HostScore
  hd_net_in_rate :: fp
  hd_net_out_rate :: fp
  hd_cpu_percent_rate :: fp
  hd_usr_percent_rate :: fp
  hd_system_percent_rate :: fp
  hd_nice_percent_rate :: fp
  hd_idle_percent_rate :: fp
  hd_io_wait_percent_rate :: fp
  hd_irq_percent_rate :: fp
  hd_soft_irq_percent_rate :: fp
  hd_steal_percent_rate :: fp
  hd_guest_percent_rate :: fp
  hd_guest_nice_percent_rate :: fp
  hd_load_avg_1_rate :: fp
  hd_load_avg_3_rate :: fp
  hd_load_avg_15_rate :: fp
  hd_mem_used_percent_rate :: fp
  hd_mem_total_rate :: fp
  hd_mem_free_rate :: fp
  hd_mem_avail_rate :: fp
  hd_net_in_rate_rate :: fp
  hd_net_out_rate_rate :: fp
  hd_net_in_drop_rate_rate :: fp
  hd_net_out_drop_rate_rate :: fp

record PerfSample =
  p_cpu_percent :: fp
  p_usr_percent :: fp
  p_system_percent :: fp
  p_nice_percent :: fp
  p_idle_percent :: fp
  p_io_wait_percent :: fp
  p_irq_percent :: fp
  p_soft_irq_percent :: fp
  p_steal_percent :: fp
  p_guest_percent :: fp
  p_guest_nice_percent :: fp
  p_load_avg_1 :: fp
  p_load_avg_3 :: fp
  p_load_avg_15 :: fp
  p_mem_used_percent :: fp
  p_mem_total :: fp
  p_mem_free :: fp
  p_mem_avail :: fp
  p_net_in_rate :: fp
  p_net_out_rate :: fp
  p_score :: fp

definition zero_PerfSample :: PerfSample where
  "zero_PerfSample =
    \<lparr>p_cpu_percent = Fin 0, p_usr_percent = Fin 0, p_system_percent = Fin 0, p_nice_percent = Fin 0,
     p_idle_percent = Fin 0, p_io_wait_percent = Fin 0, p_irq_percent = Fin 0,
     p_soft_irq_percent = Fin 0, p_steal_percent = Fin 0, p_guest_percent = Fin 0,
     p_guest_nice_percent = Fin 0, p_load_avg_1 = Fin 0, p_load_avg_3 = Fin 0, p_load_avg_15 = Fin 0,
     p_mem_used_percent = Fin 0, p_mem_total = Fin 0, p_mem_free = Fin 0, p_mem_avail = Fin 0,
     p_net_in_rate = Fin 0, p_net_out_rate = Fin 0, p_score = Fin 0\<rparr>"

text \<open>
  The manager's members and the static map of last samples. \<open>hostScores\<close> lists the entries
  of the hash map in its iteration order; \<open>redisSets\<close> the calls of \<open>redisCache_->set\<close> so
  far, \<open>None\<close> without a cache; \<open>writers\<close> is the number of writer threads.
\<close>

record HostManager =
  hostScores :: "(string \<times> HostScore) list"
  hm_running :: bool
  hm_config :: ManagerConfig
  hm_metrics :: "ManagerMetrics option"
  mysqlWritePool :: bool
  redisSets :: "(string \<times> string) list option"
  mysqlWriteQueue :: "HostMonitoringData list"
  writers :: nat
  lastPerfSamples :: "string \<rightharpoonup> PerfSample"

section \<open>Score\<close>

definition selectAggregateCpuStat :: "MonitorInfo \<Rightarrow> CpuStat option" where
  "selectAggregateCpuStat info =
     (case find (\<lambda>c. cs_cpu_name c = ''all'') (m_cpu_stat info) of Some c \<Rightarrow> Some c
      | None \<Rightarrow>
          (case find (\<lambda>c. cs_cpu_name c = ''cpu'') (m_cpu_stat info) of Some c \<Rightarrow> Some c
           | None \<Rightarrow> (case m_cpu_stat info of [] \<Rightarrow> None | c # _ \<Rightarrow> Some c)))"

definition isPerCoreCpuName :: "string \<Rightarrow> bool" where
  "isPerCoreCpuName name \<longleftrightarrow>
     3 < length name \<and> take 3 name = ''cpu'' \<and> list_all isdigit (drop 3 name)"

definition countCpuCores :: "MonitorInfo \<Rightarrow> int" where
  "countCpuCores info =
     (let cores = int (length (filter (\<lambda>c. isPerCoreCpuName (cs_cpu_name c)) (m_cpu_stat info)))
      in if 0 < cores then cores else 1)"

definition clamp :: "fp \<Rightarrow> fp" where
  "clamp v = (if flt v (Fin 0) then Fin 0 else if flt (Fin 1) v then Fin 1 else v)"

text \<open>\<open>clamp (1.0 - value / scale)\<close>.\<close>

definition subscore :: "fp \<Rightarrow> fp \<Rightarrow> fp" where
  "subscore v scale = clamp (fsub f64 (Fin 1) (fdiv f64 v scale))"

text \<open>The weighted sum of the subscores, scaled to 0 to 100.\<close>

definition combine_scores :: "fp \<Rightarrow> fp \<Rightarrow> fp \<Rightarrow> fp \<Rightarrow> fp \<Rightarrow> fp \<Rightarrow> fp" where
  "combine_scores cpuScore memScore loadScore diskScore netRecvScore netSendScore =
     (let netScore = fdiv f64 (fadd f64 netRecvScore netSendScore) (Fin 2);
          score = fadd f64 (fadd f64 (fadd f64 (fadd f64
                    (fmul f64 (f64 (35 / 100)) cpuScore) (fmul f64 (f64 (30 / 100)) memScore))
                    (fmul f64 (f64 (15 / 100)) loadScore)) (fmul f64 (f64 (15 / 100)) diskScore))
                    (fmul f64 (f64 (5 / 100)) netScore);
          score = fmul f64 score (Fin 100)
      in if flt score (Fin 0) then Fin 0 else if flt (Fin 100) score then Fin 100 else score)"

text \<open>The score from the six readings and the number of cores.\<close>

definition weighted_score :: "fp \<Rightarrow> fp \<Rightarrow> fp \<Rightarrow> int \<Rightarrow> fp \<Rightarrow> fp \<Rightarrow> fp \<Rightarrow> fp" where
  "weighted_score cpuPercent memPercent loadAvg1 cpuCores diskUtil netRecvRate netSendRate =
     combine_scores (subscore cpuPercent (Fin 100)) (subscore memPercent (Fin 100))
       (subscore loadAvg1 (fmul f64 (f64_of_int cpuCores) (Fin (3 / 2))))
       (subscore diskUtil (Fin 100)) (subscore netRecvRate (Fin 125000000))
       (subscore netSendRate (Fin 125000000))"

definition max_util :: "DiskInfo list \<Rightarrow> fp" where
  "max_util ds = foldl (\<lambda>m d. if flt m (di_util_percent d) then di_util_percent d else m) (Fin 0) ds"

definition calculateScore :: "MonitorInfo \<Rightarrow> fp" where
  "calculateScore info =
     (let (cpuPercent, cpuCores) =
            (case selectAggregateCpuStat info of None \<Rightarrow> (Fin 0, 1)
             | Some cpu \<Rightarrow> (cs_cpu_percent cpu, countCpuCores info));
          loadAvg1 = (case m_cpu_load info of None \<Rightarrow> Fin 0 | Some l \<Rightarrow> cl_load_avg_1 l);
          memPercent = (case m_mem_info info of None \<Rightarrow> Fin 0 | Some m \<Rightarrow> mi_used_percent m);
          (netRecvRate, netSendRate) =
            (case m_net_info info of [] \<Rightarrow> (Fin 0, Fin 0) | n # _ \<Rightarrow> (ni_rcv_rate n, ni_send_rate n))
      in weighted_score cpuPercent memPercent loadAvg1 cpuCores (max_util (m_disk_info info))
           netRecvRate netSendRate)"

section \<open>Authorisation\<close>

text \<open>
  The reply to the registry query: no pool or no connection, an error, no result set, no
  row, or the five columns of the row, each possibly NULL.
\<close>

datatype registry_reply = NoConnection | QueryError | NoResult | NoRow
  | Row "string option" "string option" "string option" "string option" "string option"

definition quoteSqlString :: "(string \<Rightarrow> string) \<Rightarrow> string \<Rightarrow> string" where
  "quoteSqlString escape v = [CHR 0x27] @ escape v @ [CHR 0x27]"

definition registry_sql :: "(string \<Rightarrow> string) \<Rightarrow> string \<Rightarrow> string" where
  "registry_sql escape workerId =
     ''SELECT tenant_id, team_id, cluster_id, COALESCE(server_id, 0), token_hash ''
     @ ''FROM worker_registrations WHERE worker_id='' @ quoteSqlString escape workerId
     @ '' AND status='' @ [CHR 0x27] @ ''active'' @ [CHR 0x27] @ '' LIMIT 1''"

definition text_of :: "string option \<Rightarrow> string" where
  "text_of c = (case c of None \<Rightarrow> [] | Some s \<Rightarrow> s)"

definition resolveWorkerScope ::
  "(string \<Rightarrow> string) \<Rightarrow> (string \<Rightarrow> registry_reply) \<Rightarrow> HostManager \<Rightarrow> WorkerIdentity \<Rightarrow> WorkerScope option" where
  "resolveWorkerScope escape db s w =
     (if worker_id w = [] then None
      else if \<not> mysqlWritePool s then None
      else case db (registry_sql escape (worker_id w)) of
        Row c0 c1 c2 c3 c4 \<Rightarrow>
          (let expectedToken = text_of c4
           in if expectedToken \<noteq> [] \<and> expectedToken \<noteq> worker_token w then None
              else let scope = \<lparr>tenant_id = text_of c0, team_id = text_of c1, cluster_id = text_of c2,
                                server_id = (case c3 of None \<Rightarrow> 0 | Some n \<Rightarrow> fst (strtoul10 n))\<rparr>
                   in if tenant_id scope \<noteq> [] \<and> team_id scope \<noteq> [] \<and> cluster_id scope \<noteq> []
                      then Some scope else None)
      | _ \<Rightarrow> None)"

section \<open>Receiving data\<close>

definition host_id :: "MonitorInfo \<Rightarrow> string" where
  "host_id info =
     (let hostID = (case m_host_info info of None \<Rightarrow> []
            | Some h \<Rightarrow>
                if hi_hostname h \<noteq> [] \<and> hi_ip_address h \<noteq> []
                then hi_hostname h @ ''_'' @ hi_ip_address h
                else if hi_ip_address h \<noteq> [] then hi_ip_address h
                else hi_hostname h)
      in if hostID = [] then m_name info else hostID)"

definition perf_sample :: "MonitorInfo \<Rightarrow> fp \<Rightarrow> fp \<Rightarrow> fp \<Rightarrow> PerfSample" where
  "perf_sample info netInRate netOutRate score =
     (let c = zero_PerfSample;
          c = (case selectAggregateCpuStat info of None \<Rightarrow> c
               | Some cpu \<Rightarrow> c\<lparr>p_cpu_percent := cs_cpu_percent cpu, p_usr_percent := cs_usr_percent cpu,
                    p_system_percent := cs_system_percent cpu, p_nice_percent := cs_nice_percent cpu,
                    p_idle_percent := cs_idle_percent cpu, p_io_wait_percent := cs_io_wait_percent cpu,
                    p_irq_percent := cs_irq_percent cpu, p_soft_irq_percent := cs_soft_irq_percent cpu\<rparr>);
          c = (case m_cpu_load info of None \<Rightarrow> c
               | Some l \<Rightarrow> c\<lparr>p_load_avg_1 := cl_load_avg_1 l, p_load_avg_3 := cl_load_avg_3 l,
                    p_load_avg_15 := cl_load_avg_15 l\<rparr>);
          c = (case m_mem_info info of None \<Rightarrow> c
               | Some mm \<Rightarrow> c\<lparr>p_mem_used_percent := mi_used_percent mm, p_mem_total := mi_total mm,
                    p_mem_free := mi_free mm, p_mem_avail := mi_avail mm\<rparr>)
      in c\<lparr>p_net_in_rate := to_f32 netInRate, p_net_out_rate := to_f32 netOutRate, p_score := to_f32 score\<rparr>)"

text \<open>The relative change, in single precision; no change is reported from a zero.\<close>

definition change_rate :: "fp \<Rightarrow> fp \<Rightarrow> fp" where
  "change_rate nowVal lastVal =
     (if feq lastVal (Fin 0) then Fin 0 else fdiv f32 (fsub f32 nowVal lastVal) lastVal)"

definition monitoring_data ::
  "string \<Rightarrow> WorkerScope \<Rightarrow> HostScore \<Rightarrow> PerfSample \<Rightarrow> PerfSample \<Rightarrow> HostMonitoringData" where
  "monitoring_data hostID scope hs cur prev =
     (let r = (\<lambda>f. change_rate (f cur) (f prev))
      in \<lparr>hd_host_name = hostID, hd_scope = scope, hd_host_score = hs,
          hd_net_in_rate = p_net_in_rate cur, hd_net_out_rate = p_net_out_rate cur,
          hd_cpu_percent_rate = r p_cpu_percent, hd_usr_percent_rate = r p_usr_percent,
          hd_system_percent_rate = r p_system_percent, hd_nice_percent_rate = r p_nice_percent,
          hd_idle_percent_rate = r p_idle_percent, hd_io_wait_percent_rate = r p_io_wait_percent,
          hd_irq_percent_rate = r p_irq_percent, hd_soft_irq_percent_rate = r p_soft_irq_percent,
          hd_steal_percent_rate = Fin 0, hd_guest_percent_rate = Fin 0, hd_guest_nice_percent_rate = Fin 0,
          hd_load_avg_1_rate = r p_load_avg_1, hd_load_avg_3_rate = r p_load_avg_3,
          hd_load_avg_15_rate = r p_load_avg_15, hd_mem_used_percent_rate = r p_mem_used_percent,
          hd_mem_total_rate = r p_mem_total, hd_mem_free_rate = r p_mem_free,
          hd_mem_avail_rate = r p_mem_avail, hd_net_in_rate_rate = r p_net_in_rate,
          hd_net_out_rate_rate = r p_net_out_rate, hd_net_in_drop_rate_rate = Fin 0,
          hd_net_out_drop_rate_rate = Fin 0\<rparr>)"

definition hm_bump :: "(ManagerMetrics \<Rightarrow> ManagerMetrics) \<Rightarrow> HostManager \<Rightarrow> HostManager" where
  "hm_bump f s = s\<lparr>hm_metrics := map_option f (hm_metrics s)\<rparr>"

definition drop_sample :: "HostManager \<Rightarrow> HostManager" where
  "drop_sample = hm_bump (\<lambda>m. m\<lparr>dropped_monitor_samples := dropped_monitor_samples m + 1\<rparr>)"

definition write_capacity :: "HostManager \<Rightarrow> nat" where
  "write_capacity s = unat (max 1 (task_queue_capacity (hm_config s)))"

definition enqueueMysqlWrite :: "HostMonitoringData \<Rightarrow> HostManager \<Rightarrow> HostManager" where
  "enqueueMysqlWrite data s =
     (let s = (if write_capacity s \<le> length (mysqlWriteQueue s)
               then drop_sample (s\<lparr>mysqlWriteQueue := tl (mysqlWriteQueue s)\<rparr>) else s)
      in s\<lparr>mysqlWriteQueue := mysqlWriteQueue s @ [data]\<rparr>)"

text \<open>\<open>m[k] = v\<close> on a hash map listed in its iteration order.\<close>

fun put :: "'k \<Rightarrow> 'v \<Rightarrow> ('k \<times> 'v) list \<Rightarrow> ('k \<times> 'v) list" where
  "put k v [] = [(k, v)]"
| "put k v ((j, w) # xs) = (if j = k then (k, v) # xs else (j, w) # put k v xs)"

definition score_json :: "(fp \<Rightarrow> string) \<Rightarrow> string \<Rightarrow> fp \<Rightarrow> string" where
  "score_json show_double hostID score =
     ''{'' @ [CHR 0x22] @ ''server_name'' @ [CHR 0x22] @ '':'' @ [CHR 0x22] @ hostID @ [CHR 0x22]
     @ '','' @ [CHR 0x22] @ ''score'' @ [CHR 0x22] @ '':'' @ show_double score @ ''}''"

definition net_mb :: "(NetInfo \<Rightarrow> fp) \<Rightarrow> MonitorInfo \<Rightarrow> fp" where
  "net_mb f info = (case m_net_info info of [] \<Rightarrow> Fin 0 | n # _ \<Rightarrow> fdiv f64 (f n) (Fin 1048576))"

definition accept_data ::
  "(fp \<Rightarrow> string) \<Rightarrow> int \<Rightarrow> string \<Rightarrow> WorkerScope \<Rightarrow> MonitorInfo \<Rightarrow> HostManager \<Rightarrow> HostManager" where
  "accept_data show_double now hostID scope info s =
     (let score = calculateScore info;
          cur = perf_sample info (net_mb ni_rcv_rate info) (net_mb ni_send_rate info) score;
          prev = (case lastPerfSamples s hostID of None \<Rightarrow> zero_PerfSample | Some p \<Rightarrow> p);
          hs = \<lparr>hs_info = info, hs_score = score, hs_timestamp = now\<rparr>;
          data = monitoring_data hostID scope hs cur prev
      in enqueueMysqlWrite data
           (s\<lparr>lastPerfSamples := (lastPerfSamples s)(hostID \<mapsto> cur),
              hostScores := put hostID hs (hostScores s),
              redisSets := map_option (\<lambda>l. l @ [(''manager:latest_score:'' @ hostID,
                             score_json show_double hostID score)]) (redisSets s)\<rparr>))"

definition onDataReceived ::
  "(string \<Rightarrow> string) \<Rightarrow> (string \<Rightarrow> registry_reply) \<Rightarrow> (fp \<Rightarrow> string) \<Rightarrow> int \<Rightarrow> MonitorInfo \<Rightarrow> WorkerIdentity
     \<Rightarrow> HostManager \<Rightarrow> HostManager" where
  "onDataReceived escape db show_double now info workerIdentity s =
     (case resolveWorkerScope escape db s workerIdentity of None \<Rightarrow> drop_sample s
      | Some scope \<Rightarrow>
          if host_id info = [] then s
          else accept_data show_double now (host_id info) scope info s)"

section \<open>Background work\<close>

definition HostManager_new :: HostManager where
  "HostManager_new = \<lparr>hostScores = [], hm_running = False, hm_config = default_config, hm_metrics = None,
     mysqlWritePool = False, redisSets = None, mysqlWriteQueue = [], writers = 0,
     lastPerfSamples = Map.empty\<rparr>"

definition configure :: "ManagerConfig \<Rightarrow> ManagerMetrics option \<Rightarrow> bool \<Rightarrow> bool \<Rightarrow> HostManager \<Rightarrow> HostManager" where
  "configure config metrics pool redis s =
     s\<lparr>hm_config := config, hm_metrics := metrics, mysqlWritePool := pool,
       redisSets := (if redis then Some [] else None)\<rparr>"

definition hm_start :: "HostManager \<Rightarrow> HostManager" where
  "hm_start s = s\<lparr>hm_running := True,
     writers := writers s + nat (max 1 (mysql_write_pool_max (hm_config s)))\<rparr>"

text \<open>One round of \<open>processLoop\<close> after its sleep: hosts silent for more than 60 seconds go.\<close>

definition stale :: "int \<Rightarrow> HostScore \<Rightarrow> bool" where
  "stale now h \<longleftrightarrow> 60 < cdiv (now - hs_timestamp h) 1000000000"

definition processLoop :: "int \<Rightarrow> HostManager \<Rightarrow> HostManager" where
  "processLoop now s = s\<lparr>hostScores := filter (\<lambda>(h, d). \<not> stale now d) (hostScores s)\<rparr>"

text \<open>
  One round of \<open>mysqlWriteLoop\<close> of one writer: leave, go round without data, or take the
  oldest sample and write it.
\<close>

definition mysqlWriteLoop :: "HostManager \<Rightarrow> (HostMonitoringData option \<times> HostManager) loop_step" where
  "mysqlWriteLoop s =
     (case mysqlWriteQueue s of
        [] \<Rightarrow> if \<not> hm_running s then Exit (None, s) else Again (None, s)
      | data # rest \<Rightarrow> Again (Some data, s\<lparr>mysqlWriteQueue := rest\<rparr>))"

text \<open>
  \<open>stop\<close>: the writers are joined, each goes on until the queue is empty; the written samples
  in their order. One unit of fuel per sample and one for the exit are enough.
\<close>

fun drain :: "nat \<Rightarrow> HostManager \<Rightarrow> HostMonitoringData list \<Rightarrow> (HostMonitoringData list \<times> HostManager) option" where
  "drain 0 s written = None"
| "drain (Suc fuel) s written =
     (case mysqlWriteLoop s of
        Exit (d, s) \<Rightarrow> Some (written, s)
      | Again (None, s) \<Rightarrow> drain fuel s written
      | Again (Some data, s) \<Rightarrow> drain fuel s (written @ [data]))"

definition hm_stop :: "nat \<Rightarrow> HostManager \<Rightarrow> (HostMonitoringData list \<times> HostManager) option" where
  "hm_stop fuel s =
     (let s = s\<lparr>hm_running := False\<rparr>
      in if writers s = 0 then Some ([], s)
         else map_option (\<lambda>(ds, s). (ds, s\<lparr>writers := 0\<rparr>)) (drain fuel s []))"

definition getAllHostScores :: "HostManager \<Rightarrow> (string \<times> HostScore) list" where
  "getAllHostScores s = hostScores s"

definition getBestHost :: "HostManager \<Rightarrow> string" where
  "getBestHost s = fst (foldl (\<lambda>(bestHost, bestScore) (host, data).
       if flt bestScore (hs_score data) then (host, hs_score data) else (bestHost, bestScore))
     ([], Fin (- 2147483648)) (hostScores s))"

section \<open>Facts about the score\<close>

text \<open>A floating value that is a number between 0 and \<open>n\<close>.\<close>

definition ranged :: "nat \<Rightarrow> fp \<Rightarrow> bool" where
  "ranged n a \<longleftrightarrow> (\<exists>x. a = Fin x \<and> 0 \<le> x \<and> x \<le> of_nat n)"

lemma ranged_iff: "ranged n a \<longleftrightarrow> fle (Fin 0) a \<and> fle a (Fin (of_nat n))"
  by (cases a) (auto simp: ranged_def)

lemma clamp_ranged: "v \<noteq> NaN \<Longrightarrow> ranged 1 (clamp v)"
  by (cases v) (auto simp: clamp_def ranged_def flt_def)

lemma clamp_mono: "fle a b \<Longrightarrow> fle (clamp a) (clamp b)"
  by (cases a; cases b) (auto simp: clamp_def flt_def)

lemma subscore_ranged: "v \<noteq> NaN \<Longrightarrow> 0 < c \<Longrightarrow> ranged 1 (subscore v (Fin c))"
  unfolding subscore_def by (intro clamp_ranged f64.fsub_number f64.fdiv_number) auto

lemma subscore_antimono: "fle v w \<Longrightarrow> 0 < c \<Longrightarrow> fle (subscore w (Fin c)) (subscore v (Fin c))"
  unfolding subscore_def by (intro clamp_mono f64.fsub_antimono f64.fdiv_mono)

context rounding
begin

lemma ranged_rn:
  assumes "0 \<le> x" "x \<le> of_nat n" "n < 2 ^ 24"
  shows "ranged n (rn x)"
proof -
  have "rn (of_nat n) = Fin (of_nat n)" using rn_of_int [of "int n"] assms(3) by simp
  with rn_mono [OF assms(1)] rn_mono [OF assms(2)] show ?thesis by (simp add: ranged_iff)
qed

lemma ranged_weight:
  assumes "0 < c" "c \<le> 1" "ranged 1 a"
  shows "ranged 1 (fmul rn (rn c) a)"
proof -
  obtain x where x: "a = Fin x" "0 \<le> x" "x \<le> 1" using assms(3) by (auto simp: ranged_def)
  obtain d where d: "rn c = Fin d" "0 \<le> d" "d \<le> 1"
    using ranged_rn [of c 1] assms(1,2) by (auto simp: ranged_def)
  have "ranged 1 (rn (d * x))"
    using x(2,3) d(2,3) by (intro ranged_rn) (simp_all add: mult_le_one)
  then show ?thesis by (simp add: x(1) d(1))
qed

lemma ranged_add:
  assumes "ranged m a" "ranged n b" "m + n < 2 ^ 24"
  shows "ranged (m + n) (fadd rn a b)"
  using assms ranged_rn by (auto simp: ranged_def [of m] ranged_def [of n])

lemma ranged_half: "ranged (1 + 1) a \<Longrightarrow> ranged 1 (fdiv rn a (Fin 2))"
  by (auto simp: ranged_def [of "Suc (Suc 0)" a] intro!: ranged_rn [where n = 1, simplified])

lemma weight_mono:
  assumes "0 < c" "c \<le> 1" "ranged 1 a" "ranged 1 b" "fle a b"
  shows "fle (fmul rn (rn c) a) (fmul rn (rn c) b)"
proof -
  obtain x y where xy: "a = Fin x" "b = Fin y" "x \<le> y" "0 \<le> x"
    using assms by (auto simp: ranged_def)
  obtain d where "rn c = Fin d" "0 \<le> d"
    using ranged_rn [of c 1] assms(1,2) by (auto simp: ranged_def)
  then show ?thesis using xy by (auto intro: rn_mono mult_left_mono)
qed

lemma add_mono:
  "ranged m a \<Longrightarrow> ranged m a' \<Longrightarrow> ranged n b \<Longrightarrow> ranged n b' \<Longrightarrow> fle a a' \<Longrightarrow> fle b b' \<Longrightarrow>
     fle (fadd rn a b) (fadd rn a' b')"
  by (auto simp: ranged_def intro!: rn_mono)

end

text \<open>The weighted sum of subscores between 0 and 1, before the scaling.\<close>

definition score_sum :: "fp \<Rightarrow> fp \<Rightarrow> fp \<Rightarrow> fp \<Rightarrow> fp \<Rightarrow> fp \<Rightarrow> fp" where
  "score_sum a b c d e f = fadd f64 (fadd f64 (fadd f64 (fadd f64
     (fmul f64 (f64 (35 / 100)) a) (fmul f64 (f64 (30 / 100)) b))
     (fmul f64 (f64 (15 / 100)) c)) (fmul f64 (f64 (15 / 100)) d))
     (fmul f64 (f64 (5 / 100)) (fdiv f64 (fadd f64 e f) (Fin 2)))"

lemmas weights = f64.ranged_weight [of "35 / 100"] f64.ranged_weight [of "30 / 100"]
  f64.ranged_weight [of "15 / 100"] f64.ranged_weight [of "5 / 100"]

lemma net_ranged:
  assumes "ranged 1 e" "ranged 1 f"
  shows "ranged 1 (fdiv f64 (fadd f64 e f) (Fin 2))"
  by (intro f64.ranged_half f64.ranged_add assms) simp

lemma score_sum_ranged:
  assumes "ranged 1 a" "ranged 1 b" "ranged 1 c" "ranged 1 d" "ranged 1 e" "ranged 1 f"
  shows "ranged (1 + 1 + 1 + 1 + 1) (score_sum a b c d e f)"
  unfolding score_sum_def
  by (intro f64.ranged_add weights net_ranged assms) simp_all

lemma score_sum_mono:
  assumes "ranged 1 a" "ranged 1 b" "ranged 1 c" "ranged 1 d" "ranged 1 e" "ranged 1 f"
    and "ranged 1 a'" "ranged 1 b'" "ranged 1 c'" "ranged 1 d'" "ranged 1 e'" "ranged 1 f'"
    and "fle a a'" "fle b b'" "fle c c'" "fle d d'" "fle e e'" "fle f f'"
  shows "fle (score_sum a b c d e f) (score_sum a' b' c' d' e' f')"
proof -
  have net: "fle (fdiv f64 (fadd f64 e f) (Fin 2)) (fdiv f64 (fadd f64 e' f') (Fin 2))"
    using f64.add_mono [of 1 e e' 1 f f'] assms by (intro f64.fdiv_mono) simp_all
  note r = weights net_ranged f64.ranged_add [where m = 1 and n = 1]
    f64.ranged_add [where m = "1 + 1" and n = 1] f64.ranged_add [where m = "1 + 1 + 1" and n = 1]
  show ?thesis unfolding score_sum_def
    by (intro f64.add_mono [where m = "1 + 1 + 1 + 1" and n = 1] f64.add_mono [where m = "1 + 1 + 1" and n = 1]
        f64.add_mono [where m = "1 + 1" and n = 1] f64.add_mono [where m = 1 and n = 1]
        f64.weight_mono r net assms) simp_all
qed

lemma combine_scores_alt:
  "combine_scores a b c d e f =
     (let s = fmul f64 (score_sum a b c d e f) (Fin 100)
      in if flt s (Fin 0) then Fin 0 else if flt (Fin 100) s then Fin 100 else s)"
  by (simp add: combine_scores_def score_sum_def Let_def)

lemma fmul_100_mono: "ranged n x \<Longrightarrow> ranged n y \<Longrightarrow> fle x y \<Longrightarrow> fle (fmul f64 x (Fin 100)) (fmul f64 y (Fin 100))"
  by (auto simp: ranged_def intro!: f64.rn_mono)

lemma clip_100_mono:
  "fle s t \<Longrightarrow> fle (if flt s (Fin 0) then Fin 0 else if flt (Fin 100) s then Fin 100 else s)
                (if flt t (Fin 0) then Fin 0 else if flt (Fin 100) t then Fin 100 else t)"
  by (cases s; cases t) (auto simp: flt_def)

lemma combine_ranged:
  assumes "ranged 1 a" "ranged 1 b" "ranged 1 c" "ranged 1 d" "ranged 1 e" "ranged 1 f"
  shows "ranged 100 (combine_scores a b c d e f)"
proof -
  have "fmul f64 (score_sum a b c d e f) (Fin 100) \<noteq> NaN"
    using score_sum_ranged [OF assms] by (auto simp: ranged_def f64.rn_number)
  then show ?thesis
    unfolding combine_scores_alt Let_def
    by (cases "fmul f64 (score_sum a b c d e f) (Fin 100)") (auto simp: ranged_def flt_def)
qed

lemma combine_mono:
  assumes "ranged 1 a" "ranged 1 b" "ranged 1 c" "ranged 1 d" "ranged 1 e" "ranged 1 f"
    and "ranged 1 a'" "ranged 1 b'" "ranged 1 c'" "ranged 1 d'" "ranged 1 e'" "ranged 1 f'"
    and "fle a a'" "fle b b'" "fle c c'" "fle d d'" "fle e e'" "fle f f'"
  shows "fle (combine_scores a b c d e f) (combine_scores a' b' c' d' e' f')"
  unfolding combine_scores_alt Let_def
  using assms
  by (intro clip_100_mono fmul_100_mono [OF score_sum_ranged score_sum_ranged score_sum_mono])

text \<open>The divisor of the load is a positive number.\<close>

lemma load_scale:
  assumes "1 \<le> n" "n < 2 ^ 31"
  shows "\<exists>c>0. fmul f64 (f64_of_int n) (Fin (3 / 2)) = Fin c"
proof -
  have n: "f64_of_int n = Fin (of_int n)" using assms by (intro f64_of_int_exact) simp
  have "1 \<le> (of_int n :: rat)" "(of_int n :: rat) < of_int (2 ^ 31)"
    using assms by (simp_all only: of_int_1_le_iff of_int_less_iff)
  then have "fle (f64 1) (f64 (of_int n * (3 / 2)))" "fle (f64 (of_int n * (3 / 2))) (f64 (of_int (2 ^ 32)))"
    by (intro f64.rn_mono; simp)+
  moreover have "f64 (of_int (2 ^ 32)) = Fin (of_int (2 ^ 32))"
    using f64_of_int_exact [of "2 ^ 32"] by (simp only: f64_of_int_def) simp
  ultimately obtain c where "f64 (of_int n * (3 / 2)) = Fin c" "1 \<le> c"
    by (cases "f64 (of_int n * (3 / 2))") auto
  then show ?thesis using n by (intro exI [of _ c]) simp
qed

lemma weighted_score_ranged:
  assumes "cpu \<noteq> NaN" "mem \<noteq> NaN" "load \<noteq> NaN" "disk \<noteq> NaN" "rcv \<noteq> NaN" "snt \<noteq> NaN"
    and "1 \<le> cores" "cores < 2 ^ 31"
  shows "ranged 100 (weighted_score cpu mem load cores disk rcv snt)"
proof -
  obtain c where "0 < c" "fmul f64 (f64_of_int cores) (Fin (3 / 2)) = Fin c"
    using load_scale [OF assms(7,8)] by blast
  with assms show ?thesis
    unfolding weighted_score_def by (auto intro!: combine_ranged subscore_ranged)
qed

lemma max_util_number: "max_util ds \<noteq> NaN"
proof -
  have "foldl (\<lambda>m d. if flt m (di_util_percent d) then di_util_percent d else m) m ds \<noteq> NaN"
    if "m \<noteq> NaN" for m
    using that by (induction ds arbitrary: m) (auto simp: flt_def)
  then show ?thesis by (simp add: max_util_def)
qed

lemma selectAggregateCpuStat_in: "selectAggregateCpuStat info = Some c \<Longrightarrow> c \<in> set (m_cpu_stat info)"
  by (auto simp: selectAggregateCpuStat_def find_Some_iff split: option.splits list.splits)

lemma countCpuCores_bounds:
  assumes "length (m_cpu_stat info) < 2 ^ 31"
  shows "1 \<le> countCpuCores info" "countCpuCores info < 2 ^ 31"
proof -
  define n where "n = length (filter (\<lambda>c. isPerCoreCpuName (cs_cpu_name c)) (m_cpu_stat info))"
  have "n < 2 ^ 31" unfolding n_def using assms length_filter_le le_less_trans by blast
  then have "int n < 2 ^ 31" by simp
  then show "1 \<le> countCpuCores info" "countCpuCores info < 2 ^ 31"
    by (auto simp: countCpuCores_def Let_def n_def [symmetric])
qed

section \<open>Facts about the board, the queue and the writers\<close>

lemma put_map_of: "map_of (put k v xs) = (map_of xs)(k \<mapsto> v)"
  by (induction k v xs rule: put.induct) auto

lemma put_keys: "set (map fst (put k v xs)) = insert k (set (map fst xs))"
  by (induction k v xs rule: put.induct) auto

lemma put_distinct: "distinct (map fst xs) \<Longrightarrow> distinct (map fst (put k v xs))"
  by (induction k v xs rule: put.induct) (auto simp del: set_map simp add: put_keys)

lemma enqueue_frame [simp, frame_simps]:
  "hostScores (enqueueMysqlWrite d s) = hostScores s"
  "lastPerfSamples (enqueueMysqlWrite d s) = lastPerfSamples s"
  "redisSets (enqueueMysqlWrite d s) = redisSets s" "hm_config (enqueueMysqlWrite d s) = hm_config s"
  "hm_running (enqueueMysqlWrite d s) = hm_running s" "writers (enqueueMysqlWrite d s) = writers s"
  by (simp_all add: enqueueMysqlWrite_def Let_def drop_sample_def hm_bump_def)

lemma write_capacity_pos: "0 < write_capacity s"
proof -
  have "(1::u64) \<le> max 1 (task_queue_capacity (hm_config s))" by (rule max.cobounded1)
  then show ?thesis by (simp add: write_capacity_def word_le_nat_alt)
qed

lemma enqueue_queue:
  "mysqlWriteQueue (enqueueMysqlWrite d s) =
     (if write_capacity s \<le> length (mysqlWriteQueue s) then tl (mysqlWriteQueue s) else mysqlWriteQueue s) @ [d]"
  by (simp add: enqueueMysqlWrite_def Let_def drop_sample_def hm_bump_def)

lemma enqueue_capacity [simp]: "write_capacity (enqueueMysqlWrite d s) = write_capacity s"
  by (simp add: write_capacity_def)

lemma fold_enqueue:
  assumes "mysqlWriteQueue s = []"
  shows "mysqlWriteQueue (fold enqueueMysqlWrite ds s) = drop (length ds - write_capacity s) ds
       \<and> write_capacity (fold enqueueMysqlWrite ds s) = write_capacity s"
proof (induction ds rule: rev_induct)
  case Nil
  then show ?case using assms by simp
next
  case (snoc d ds)
  let ?c = "write_capacity s"
  have "tl (drop (length ds - ?c) ds) @ [d] = drop (Suc (length ds) - ?c) (ds @ [d])" if "?c \<le> length ds"
    using that write_capacity_pos [of s] by (simp add: tl_drop Suc_diff_le drop_Suc)
  with snoc show ?case by (auto simp: enqueue_queue)
qed

lemma drain_writes:
  "\<not> hm_running s \<Longrightarrow> length (mysqlWriteQueue s) < fuel \<Longrightarrow>
     drain fuel s ws = Some (ws @ mysqlWriteQueue s, s\<lparr>mysqlWriteQueue := []\<rparr>)"
proof (induction fuel s ws rule: drain.induct)
  case (2 fuel s ws)
  then show ?case by (cases "mysqlWriteQueue s") (auto simp: mysqlWriteLoop_def)
qed simp

lemma hm_stop_writes:
  assumes "0 < writers s" "length (mysqlWriteQueue s) < fuel"
  shows "\<exists>s'. hm_stop fuel s = Some (mysqlWriteQueue s, s') \<and> mysqlWriteQueue s' = [] \<and> \<not> hm_running s'"
  using assms drain_writes [of "s\<lparr>hm_running := False\<rparr>" fuel "[]"]
  by (simp add: hm_stop_def Let_def)

lemma best_fold:
  assumes "foldl (\<lambda>(bh, bs) (h, d). if flt bs (hs_score d) then (h, hs_score d) else (bh, bs)) (b0, s0) xs = (b, t)"
    and "s0 \<noteq> NaN"
  shows "fle s0 t \<and> (\<forall>(h, d) \<in> set xs. hs_score d \<noteq> NaN \<longrightarrow> fle (hs_score d) t)
     \<and> ((b, t) = (b0, s0) \<or> (\<exists>d. (b, d) \<in> set xs \<and> hs_score d = t))"
  using assms
proof (induction xs arbitrary: b0 s0)
  case (Cons x xs)
  obtain h d where x: "x = (h, d)" by (cases x)
  show ?case
  proof (cases "flt s0 (hs_score d)")
    case True
    with Cons.prems x have "foldl (\<lambda>(bh, bs) (h, d). if flt bs (hs_score d) then (h, hs_score d) else (bh, bs))
        (h, hs_score d) xs = (b, t)" "hs_score d \<noteq> NaN" by (auto simp: flt_def)
    from Cons.IH [OF this] True show ?thesis
      by (auto simp: x intro: fle_trans flt_imp_fle)
  next
    case False
    with Cons.prems x have "foldl (\<lambda>(bh, bs) (h, d). if flt bs (hs_score d) then (h, hs_score d) else (bh, bs))
        (b0, s0) xs = (b, t)" by auto
    note ih = Cons.IH [OF this Cons.prems(2)]
    have "fle (hs_score d) s0" if "hs_score d \<noteq> NaN"
      using False that Cons.prems(2) by (auto simp: flt_def)
    with ih show ?thesis by (auto simp: x intro: fle_trans)
  qed
qed simp

lemma calculateScore_ranged:
  assumes "\<forall>c \<in> set (m_cpu_stat info). cs_cpu_percent c \<noteq> NaN" "length (m_cpu_stat info) < 2 ^ 31"
    and "\<forall>l. m_cpu_load info = Some l \<longrightarrow> cl_load_avg_1 l \<noteq> NaN"
    and "\<forall>mm. m_mem_info info = Some mm \<longrightarrow> mi_used_percent mm \<noteq> NaN"
    and "\<forall>n \<in> set (m_net_info info). ni_rcv_rate n \<noteq> NaN \<and> ni_send_rate n \<noteq> NaN"
  shows "ranged 100 (calculateScore info)"
  using assms(1,3,4,5) countCpuCores_bounds [OF assms(2)] max_util_number [of "m_disk_info info"]
  by (auto simp: calculateScore_def Let_def dest: selectAggregateCpuStat_in intro!: weighted_score_ranged
      split: option.splits list.splits)

section \<open>Properties\<close>

text \<open>
  C12: The score of every message whose readings are numbers is a number between 0 and 100,
  computed in double precision: negative, huge and infinite readings, a missing CPU, memory,
  load, network or disk part, and disks that report no number included.
\<close>

theorem score_bounds:
  assumes "\<forall>c \<in> set (m_cpu_stat info). cs_cpu_percent c \<noteq> NaN" "length (m_cpu_stat info) < 2 ^ 31"
    and "\<forall>l. m_cpu_load info = Some l \<longrightarrow> cl_load_avg_1 l \<noteq> NaN"
    and "\<forall>mm. m_mem_info info = Some mm \<longrightarrow> mi_used_percent mm \<noteq> NaN"
    and "\<forall>n \<in> set (m_net_info info). ni_rcv_rate n \<noteq> NaN \<and> ni_send_rate n \<noteq> NaN"
  shows "\<exists>x. calculateScore info = Fin x \<and> 0 \<le> x \<and> x \<le> 100"
  using calculateScore_ranged [OF assms] by (auto simp: ranged_def)

theorem score_bounds_witness:
  "\<exists>x. calculateScore (default_MonitorInfo\<lparr>m_cpu_load := Some (default_CpuLoad\<lparr>cl_load_avg_1 := PInf\<rparr>),
       m_mem_info := Some (default_MemInfo\<lparr>mi_used_percent := Fin (- 3)\<rparr>)\<rparr>) = Fin x \<and> 0 \<le> x \<and> x \<le> 100"
  using score_bounds [of "default_MonitorInfo\<lparr>m_cpu_load := Some (default_CpuLoad\<lparr>cl_load_avg_1 := PInf\<rparr>),
       m_mem_info := Some (default_MemInfo\<lparr>mi_used_percent := Fin (- 3)\<rparr>)\<rparr>"]
  by (simp add: default_MonitorInfo_def)

text \<open>
  C34: A host with the same number of cores and no smaller CPU, memory, load, disk and
  network readings never gets a higher score, rounding included.
\<close>

theorem score_antitone:
  assumes "fle cpu cpu'" "fle mem mem'" "fle load load'" "fle disk disk'" "fle rcv rcv'" "fle snt snt'"
    and "1 \<le> cores" "cores < 2 ^ 31"
  shows "fle (weighted_score cpu' mem' load' cores disk' rcv' snt')
             (weighted_score cpu mem load cores disk rcv snt)"
proof -
  obtain c where c: "0 < c" "fmul f64 (f64_of_int cores) (Fin (3 / 2)) = Fin c"
    using load_scale [OF assms(7,8)] by blast
  have "cpu \<noteq> NaN" "cpu' \<noteq> NaN" "mem \<noteq> NaN" "mem' \<noteq> NaN" "load \<noteq> NaN" "load' \<noteq> NaN"
      "disk \<noteq> NaN" "disk' \<noteq> NaN" "rcv \<noteq> NaN" "rcv' \<noteq> NaN" "snt \<noteq> NaN" "snt' \<noteq> NaN"
    using assms(1-6) fle_number by blast+
  with c show ?thesis
    unfolding weighted_score_def c(2)
    by (intro combine_mono subscore_ranged subscore_antimono assms) auto
qed

theorem score_antitone_witness:
  "fle (weighted_score (Fin 90) (Fin 50) (Fin 1) 4 (Fin 0) (Fin 0) (Fin 0))
       (weighted_score (Fin 10) (Fin 50) (Fin 1) 4 (Fin 0) (Fin 0) (Fin 0))"
  using score_antitone [of "Fin 10" "Fin 90" "Fin 50" "Fin 50" "Fin 1" "Fin 1" "Fin 0" "Fin 0" "Fin 0" "Fin 0"
      "Fin 0" "Fin 0" 4] by simp


definition demo_manager :: HostManager where
  "demo_manager = configure (default_config\<lparr>task_queue_capacity := 2\<rparr>) (Some zero_metrics) True True HostManager_new"

definition demo_info :: MonitorInfo where
  "demo_info = default_MonitorInfo\<lparr>m_name := ''web1''\<rparr>"

definition demo_db :: "string \<Rightarrow> registry_reply" where
  "demo_db sql = Row (Some ''t1'') (Some ''a'') (Some ''c'') (Some ''7'') (Some [])"

definition demo_data :: "string \<Rightarrow> HostMonitoringData" where
  "demo_data h = monitoring_data h \<lparr>tenant_id = ''t1'', team_id = ''a'', cluster_id = ''c'', server_id = 7\<rparr>
     \<lparr>hs_info = demo_info, hs_score = Fin 50, hs_timestamp = 0\<rparr> zero_PerfSample zero_PerfSample"


text \<open>
  A registered worker whose stored token is empty is authorised with any token.
\<close>

theorem empty_token_accepts_any:
  assumes "mysqlWritePool s" "worker_id w \<noteq> []"
    and "db (registry_sql escape (worker_id w)) = Row (Some c0) (Some c1) (Some c2) c3 (Some [])"
    and "c0 \<noteq> []" "c1 \<noteq> []" "c2 \<noteq> []"
  shows "resolveWorkerScope escape db s (w\<lparr>worker_token := forged\<rparr>) = resolveWorkerScope escape db s w
     \<and> resolveWorkerScope escape db s w \<noteq> None"
  using assms by (auto simp: resolveWorkerScope_def Let_def text_of_def)

theorem empty_token_accepts_any_witness:
  "resolveWorkerScope id demo_db demo_manager \<lparr>worker_id = ''w'', worker_token = ''forged''\<rparr> \<noteq> None"
  using empty_token_accepts_any [of demo_manager "\<lparr>worker_id = ''w'', worker_token = []\<rparr>" demo_db id
      "''t1''" "''a''" "''c''" "Some ''7''" "''forged''"]
  by (simp add: demo_manager_def configure_def demo_db_def)

text \<open>
  While no writer takes samples, the write queue holds the newest samples, in the order
  of their arrival and never more than its capacity (at least one); older ones are dropped.
\<close>

theorem write_queue_newest:
  assumes "mysqlWriteQueue s = []"
  shows "mysqlWriteQueue (fold enqueueMysqlWrite ds s) = drop (length ds - write_capacity s) ds
     \<and> length (mysqlWriteQueue (fold enqueueMysqlWrite ds s)) = min (length ds) (write_capacity s)
     \<and> 0 < write_capacity s"
  using fold_enqueue [OF assms, of ds] write_capacity_pos [of s] by (simp add: min_def)

theorem write_queue_newest_witness:
  "mysqlWriteQueue (fold enqueueMysqlWrite [demo_data ''a'', demo_data ''b'', demo_data ''c''] demo_manager) = [demo_data ''b'', demo_data ''c'']"
  using write_queue_newest [of demo_manager "[demo_data ''a'', demo_data ''b'', demo_data ''c'']"]
  by (simp add: demo_manager_def configure_def HostManager_new_def write_capacity_def max_def)

text \<open>
  C29: \<open>stop\<close> returns after the writers have taken every queued sample, in the order of
  their arrival.
\<close>

theorem stop_writes_all:
  assumes "0 < writers s" "length (mysqlWriteQueue s) < fuel"
  shows "\<exists>s'. hm_stop fuel s = Some (mysqlWriteQueue s, s') \<and> mysqlWriteQueue s' = [] \<and> \<not> hm_running s'"
  using assms by (rule hm_stop_writes)

theorem stop_writes_all_witness:
  "\<exists>s'. hm_stop 3 ((hm_start demo_manager)\<lparr>mysqlWriteQueue := [demo_data ''a'', demo_data ''b'']\<rparr>) = Some ([demo_data ''a'', demo_data ''b''], s')"
  using stop_writes_all [of "(hm_start demo_manager)\<lparr>mysqlWriteQueue := [demo_data ''a'', demo_data ''b'']\<rparr>" 3]
  by (auto simp: hm_start_def demo_manager_def configure_def HostManager_new_def default_config_def)

text \<open>
  A round of the background loop removes exactly the hosts whose last push is 61
  seconds old or older and keeps the others with their data.
\<close>

theorem stale_hosts_removed:
  "(h, d) \<in> set (hostScores (processLoop now s)) \<longleftrightarrow>
     (h, d) \<in> set (hostScores s) \<and> now - hs_timestamp d < 61000000000"
proof -
  have "60 < cdiv a 1000000000 \<longleftrightarrow> 61000000000 \<le> a" for a :: int
    by (auto simp: cdiv_def sgn_if)
  then show ?thesis by (auto simp: processLoop_def stale_def)
qed

text \<open>
  C29: \<open>getBestHost\<close> returns a host whose score no host with a numeric score exceeds.
\<close>

theorem best_host_maximal:
  assumes "(h, d) \<in> set (hostScores s)" "fle (Fin 0) (hs_score d)"
  shows "\<exists>d'. (getBestHost s, d') \<in> set (hostScores s)
     \<and> (\<forall>(h2, d2) \<in> set (hostScores s). hs_score d2 \<noteq> NaN \<longrightarrow> fle (hs_score d2) (hs_score d'))"
proof -
  obtain b t where f: "foldl (\<lambda>(bh, bs) (h, d). if flt bs (hs_score d) then (h, hs_score d) else (bh, bs))
      ([], Fin (- 2147483648)) (hostScores s) = (b, t)" by fastforce
  note r = best_fold [OF f]
  have "fle (Fin 0) t" using r assms fle_number [OF assms(2)] by (fastforce intro: fle_trans)
  then have "(b, t) \<noteq> ([], Fin (- 2147483648))" by auto
  with r f show ?thesis by (auto simp: getBestHost_def)
qed

theorem best_host_maximal_witness:
  "\<exists>d'. (getBestHost (demo_manager\<lparr>hostScores := [(''a'', \<lparr>hs_info = demo_info, hs_score = Fin 50, hs_timestamp = 0\<rparr>),
       (''b'', \<lparr>hs_info = demo_info, hs_score = Fin 80, hs_timestamp = 0\<rparr>)]\<rparr>), d') \<in>
     {(''a'', \<lparr>hs_info = demo_info, hs_score = Fin 50, hs_timestamp = 0\<rparr>),
      (''b'', \<lparr>hs_info = demo_info, hs_score = Fin 80, hs_timestamp = 0\<rparr>)}
     \<and> fle (Fin 80) (hs_score d')"
  using best_host_maximal [of "''a''" "\<lparr>hs_info = demo_info, hs_score = Fin 50, hs_timestamp = 0\<rparr>"
      "demo_manager\<lparr>hostScores := [(''a'', \<lparr>hs_info = demo_info, hs_score = Fin 50, hs_timestamp = 0\<rparr>),
       (''b'', \<lparr>hs_info = demo_info, hs_score = Fin 80, hs_timestamp = 0\<rparr>)]\<rparr>"]
  by auto

end
