(* ===== verification/Conn_Pool.thy ===== *)
theory Conn_Pool
  imports Manager_Config
begin

text \<open>
  The connection pools: \<open>MysqlConnectionPool.h/.cpp\<close>, \<open>RedisConnectionPool.h/.cpp\<close> and the
  \<open>RedisCache\<close> on top of the latter. A pool is a vector of entries, each with a connection
  handle or none, lent out through guards; a background loop repairs, pings and closes.

  The two classes have the same shape. What differs is in the record \<open>backend\<close> (how a
  connection is made, pinged, checked and closed, and which counter takes the errors) and
  in the body of the health check, which each class has of its own. The client libraries
  and the servers behind them are a world \<open>'w\<close>; \<open>opn w\<close> is the set of handles that are open
  in it, and the locale \<open>pool_backend\<close> states the documented behaviour of the client calls: a
  new handle is fresh, closing closes this handle only. A handle that is open in the world
  and owned by no entry has leaked.
\<close>

section \<open>State\<close>

type_synonym conn = nat

datatype connect_result = InitFailed | ConnectFailed | Connected conn

record Entry =
  e_conn :: "conn option"
  inUse :: bool
  healthy :: bool
  failures :: int
  lastUsed :: int

definition new_entry :: "conn option \<Rightarrow> bool \<Rightarrow> int \<Rightarrow> Entry" where
  "new_entry c used now = \<lparr>e_conn = c, inUse = used, healthy = (c \<noteq> None), failures = 0, lastUsed = now\<rparr>"

text \<open>Timeouts are in milliseconds, the interval and the time to live in seconds, times in nanoseconds.\<close>

record 'cfg pool =
  p_cfg :: 'cfg
  minSize :: int
  maxSize :: int
  connectTimeout :: int
  readTimeout :: int
  healthCheckInterval :: int
  idleTtl :: int
  p_metrics :: "ManagerMetrics option"
  entries :: "Entry list"
  p_running :: bool

record ('cfg, 'w) backend =
  b_connect :: "'cfg pool \<Rightarrow> 'w \<Rightarrow> connect_result \<times> 'w"
  b_ping :: "conn \<Rightarrow> 'w \<Rightarrow> bool \<times> 'w"
  b_errno :: "conn \<Rightarrow> 'w \<Rightarrow> bool"
  b_close :: "conn \<Rightarrow> 'w \<Rightarrow> 'w"
  b_error :: "ManagerMetrics \<Rightarrow> ManagerMetrics"

type_synonym ('cfg, 'w) pw = "'cfg pool \<times> 'w"

record Guard =
  g_index :: nat
  g_conn :: conn
  g_healthy :: bool

definition p_bump :: "(ManagerMetrics \<Rightarrow> ManagerMetrics) \<Rightarrow> 'cfg pool \<Rightarrow> 'cfg pool" where
  "p_bump f p = p\<lparr>p_metrics := map_option f (p_metrics p)\<rparr>"

definition set_entry :: "nat \<Rightarrow> Entry \<Rightarrow> 'cfg pool \<Rightarrow> 'cfg pool" where
  "set_entry i e p = p\<lparr>entries := (entries p)[i := e]\<rparr>"

section \<open>Operations\<close>

definition pool_new ::
  "'cfg \<Rightarrow> int \<Rightarrow> int \<Rightarrow> int \<Rightarrow> int \<Rightarrow> int \<Rightarrow> int \<Rightarrow> ManagerMetrics option \<Rightarrow> 'cfg pool" where
  "pool_new cfg mn mx ct rt hc ttl metrics =
    \<lparr>p_cfg = cfg, minSize = max 0 mn, maxSize = max (max 0 mn) mx, connectTimeout = ct, readTimeout = rt,
     healthCheckInterval = hc, idleTtl = ttl, p_metrics = metrics, entries = [], p_running = False\<rparr>"

definition connect :: "('cfg, 'w) backend \<Rightarrow> ('cfg, 'w) pw \<Rightarrow> conn option \<times> ('cfg, 'w) pw" where
  "connect B s =
     (case s of (p, w) \<Rightarrow>
        (case b_connect B p w of
           (InitFailed, w) \<Rightarrow> (None, p, w)
         | (ConnectFailed, w) \<Rightarrow> (None, p_bump (b_error B) p, w)
         | (Connected c, w) \<Rightarrow>
             (Some c, p_bump (\<lambda>m. m\<lparr>pool_reconnects := pool_reconnects m + 1\<rparr>) p, w)))"

definition closeEntry :: "('cfg, 'w) backend \<Rightarrow> nat \<Rightarrow> ('cfg, 'w) pw \<Rightarrow> ('cfg, 'w) pw" where
  "closeEntry B i s =
     (case s of (p, w) \<Rightarrow>
        let e = entries p ! i
        in (set_entry i (e\<lparr>e_conn := None, healthy := False, inUse := False\<rparr>) p,
            case e_conn e of None \<Rightarrow> w | Some c \<Rightarrow> b_close B c w))"

text \<open>\<open>entry.conn = connect (); entry.healthy = entry.conn != nullptr;\<close>\<close>

definition reconnect :: "('cfg, 'w) backend \<Rightarrow> nat \<Rightarrow> ('cfg, 'w) pw \<Rightarrow> ('cfg, 'w) pw" where
  "reconnect B i s =
     (case connect B s of (c, p, w) \<Rightarrow>
        (set_entry i ((entries p ! i)\<lparr>e_conn := c, healthy := (c \<noteq> None)\<rparr>) p, w))"

definition ensureHealthy :: "('cfg, 'w) backend \<Rightarrow> nat \<Rightarrow> ('cfg, 'w) pw \<Rightarrow> bool \<times> ('cfg, 'w) pw" where
  "ensureHealthy B i s =
     (let e = entries (fst s) ! i
      in case e_conn e of
           None \<Rightarrow> (let s = reconnect B i s in (healthy (entries (fst s) ! i), s))
         | Some c \<Rightarrow>
             (case b_ping B c (snd s) of (alive, w) \<Rightarrow>
                if alive then (True, set_entry i (e\<lparr>healthy := True, failures := 0\<rparr>) (fst s), w)
                else let s = reconnect B i (closeEntry B i (p_bump (b_error B) (fst s), w))
                     in (healthy (entries (fst s) ! i), s)))"

text \<open>The scan for an entry that is idle and healthy, or can be made so.\<close>

definition lend :: "nat \<Rightarrow> ('cfg, 'w) pw \<Rightarrow> Guard option \<times> ('cfg, 'w) pw" where
  "lend i s =
     (let e = entries (fst s) ! i
      in (map_option (\<lambda>c. \<lparr>g_index = i, g_conn = c, g_healthy = True\<rparr>) (e_conn e),
          set_entry i (e\<lparr>inUse := True\<rparr>) (fst s), snd s))"

fun scan :: "('cfg, 'w) backend \<Rightarrow> nat list \<Rightarrow> ('cfg, 'w) pw \<Rightarrow> Guard option \<times> ('cfg, 'w) pw" where
  "scan B [] s = (None, s)"
| "scan B (i # is) s =
     (let e = entries (fst s) ! i
      in if inUse e then scan B is s
         else if healthy e then lend i s
         else case ensureHealthy B i s of (alive, s) \<Rightarrow> if alive then lend i s else scan B is s)"

text \<open>A new entry when the pool may grow; it is lent at once when the connection is made.\<close>

definition grow :: "('cfg, 'w) backend \<Rightarrow> int \<Rightarrow> ('cfg, 'w) pw \<Rightarrow> Guard option \<times> ('cfg, 'w) pw" where
  "grow B now s =
     (if int (length (entries (fst s))) < maxSize (fst s)
      then case connect B s of (c, p, w) \<Rightarrow>
        (map_option (\<lambda>c. \<lparr>g_index = length (entries p), g_conn = c, g_healthy = True\<rparr>) c,
         p\<lparr>entries := entries p @ [new_entry c (c \<noteq> None) now]\<rparr>, w)
      else (None, s))"

text \<open>The body of the loop of \<open>acquire\<close> up to the wait.\<close>

definition attempt :: "('cfg, 'w) backend \<Rightarrow> int \<Rightarrow> ('cfg, 'w) pw \<Rightarrow> Guard option \<times> ('cfg, 'w) pw" where
  "attempt B now s =
     (case scan B [0..<length (entries (fst s))] s of
        (Some g, s) \<Rightarrow> (Some g, s)
      | (None, s) \<Rightarrow> grow B now s)"

text \<open>
  \<open>acquire\<close>: \<open>wakeups\<close> are what the other threads do to the pool while this one waits, one
  item per time it is woken before the deadline; after the last the wait times out.
\<close>

fun acquire ::
  "('cfg, 'w) backend \<Rightarrow> int \<Rightarrow> (('cfg, 'w) pw \<Rightarrow> ('cfg, 'w) pw) list \<Rightarrow> ('cfg, 'w) pw
     \<Rightarrow> Guard option \<times> ('cfg, 'w) pw" where
  "acquire B now wakeups s =
     (if \<not> p_running (fst s) then (None, s)
      else case attempt B now s of
        (Some g, s) \<Rightarrow> (Some g, s)
      | (None, s) \<Rightarrow>
          (case wakeups of
             [] \<Rightarrow> (None, p_bump (\<lambda>m. m\<lparr>pool_timeouts := pool_timeouts m + 1\<rparr>) (fst s), snd s)
           | f # fs \<Rightarrow> acquire B now fs (f s)))"

declare acquire.simps [simp del]

definition pool_release :: "('cfg, 'w) backend \<Rightarrow> int \<Rightarrow> nat \<Rightarrow> bool \<Rightarrow> ('cfg, 'w) pw \<Rightarrow> ('cfg, 'w) pw" where
  "pool_release B now i alive s =
     (case s of (p, w) \<Rightarrow>
        if length (entries p) \<le> i then s
        else let e = (entries p ! i)\<lparr>inUse := False, lastUsed := now\<rparr>
             in if \<not> alive \<or> (case e_conn e of None \<Rightarrow> False | Some c \<Rightarrow> b_errno B c w)
                then (p_bump (b_error B) (set_entry i (e\<lparr>healthy := False, failures := failures e + 1\<rparr>) p), w)
                else (set_entry i e p, w))"

definition markUnhealthy :: "Guard \<Rightarrow> Guard" where
  "markUnhealthy g = g\<lparr>g_healthy := False\<rparr>"

definition guard_release :: "('cfg, 'w) backend \<Rightarrow> int \<Rightarrow> Guard \<Rightarrow> ('cfg, 'w) pw \<Rightarrow> ('cfg, 'w) pw" where
  "guard_release B now g s = pool_release B now (g_index g) (g_healthy g) s"

definition availableCount :: "'cfg pool \<Rightarrow> nat" where
  "availableCount p = length (filter (\<lambda>e. \<not> inUse e \<and> healthy e \<and> e_conn e \<noteq> None) (entries p))"

definition add_idle :: "('cfg, 'w) backend \<Rightarrow> int \<Rightarrow> ('cfg, 'w) pw \<Rightarrow> ('cfg, 'w) pw" where
  "add_idle B now s =
     (case connect B s of (c, p, w) \<Rightarrow> (p\<lparr>entries := entries p @ [new_entry c False now]\<rparr>, w))"

definition pool_start :: "('cfg, 'w) backend \<Rightarrow> int \<Rightarrow> ('cfg, 'w) pw \<Rightarrow> ('cfg, 'w) pw" where
  "pool_start B now s =
     (if p_running (fst s) then s
      else (add_idle B now ^^ nat (minSize (fst s))) ((fst s)\<lparr>p_running := True\<rparr>, snd s))"

definition pool_stop :: "('cfg, 'w) backend \<Rightarrow> ('cfg, 'w) pw \<Rightarrow> ('cfg, 'w) pw" where
  "pool_stop B s =
     (if \<not> p_running (fst s) then s
      else let s = fold (closeEntry B) [0..<length (entries (fst s))] ((fst s)\<lparr>p_running := False\<rparr>, snd s)
           in ((fst s)\<lparr>entries := []\<rparr>, snd s))"

section \<open>The health checks\<close>

definition mysql_check :: "('cfg, 'w) backend \<Rightarrow> int \<Rightarrow> nat \<Rightarrow> ('cfg, 'w) pw \<Rightarrow> ('cfg, 'w) pw" where
  "mysql_check B now i s =
     (let e = entries (fst s) ! i
      in if inUse e then s
         else if \<not> healthy e \<or> e_conn e = None
         then let s = reconnect B i s
              in (set_entry i ((entries (fst s) ! i)\<lparr>lastUsed := now\<rparr>) (fst s), snd s)
         else case b_ping B (the (e_conn e)) (snd s) of (alive, w) \<Rightarrow>
                if alive then (fst s, w)
                else case closeEntry B i (fst s, w) of (p, w) \<Rightarrow> (p_bump (b_error B) p, w))"

definition redis_check :: "('cfg, 'w) backend \<Rightarrow> int \<Rightarrow> nat \<Rightarrow> ('cfg, 'w) pw \<Rightarrow> ('cfg, 'w) pw" where
  "redis_check B now i s =
     (let e = entries (fst s) ! i
      in if inUse e then s
         else case e_conn e of
           None \<Rightarrow>
             (let s = reconnect B i s
              in (set_entry i ((entries (fst s) ! i)\<lparr>lastUsed := now\<rparr>) (fst s), snd s))
         | Some c \<Rightarrow>
             (case b_ping B c (snd s) of (alive, w) \<Rightarrow>
                if alive then (set_entry i (e\<lparr>healthy := True\<rparr>) (fst s), w)
                else case closeEntry B i (fst s, w) of (p, w) \<Rightarrow> (p_bump (b_error B) p, w)))"

definition open_count :: "'cfg pool \<Rightarrow> nat" where
  "open_count p = length (filter (\<lambda>e. e_conn e \<noteq> None) (entries p))"

text \<open>Closing connections idle for longer than the time to live, down to the minimum.\<close>

fun close_idle :: "('cfg, 'w) backend \<Rightarrow> int \<Rightarrow> nat list \<Rightarrow> int \<Rightarrow> ('cfg, 'w) pw \<Rightarrow> ('cfg, 'w) pw" where
  "close_idle B now [] n s = s"
| "close_idle B now (i # is) n s =
     (let e = entries (fst s) ! i
      in if n \<le> minSize (fst s) then s
         else if \<not> inUse e \<and> e_conn e \<noteq> None \<and> idleTtl (fst s) * 1000000000 < now - lastUsed e
         then close_idle B now is (n - 1) (closeEntry B i s)
         else close_idle B now is n s)"

text \<open>One round of \<open>healthLoop\<close> after its sleep, with the class's own check.\<close>

definition healthLoop ::
  "(('cfg, 'w) backend \<Rightarrow> int \<Rightarrow> nat \<Rightarrow> ('cfg, 'w) pw \<Rightarrow> ('cfg, 'w) pw) \<Rightarrow> ('cfg, 'w) backend \<Rightarrow> int
     \<Rightarrow> ('cfg, 'w) pw \<Rightarrow> ('cfg, 'w) pw loop_step" where
  "healthLoop check B now s =
     (if \<not> p_running (fst s) then Exit s
      else let n = length (entries (fst s)); s = fold (check B now) [0..<n] s
           in Again (close_idle B now [0..<n] (int (open_count (fst s))) s))"

section \<open>The two backends\<close>

text \<open>
  A client library: connecting with a configuration and timeouts in seconds (MySQL) or with
  a URI (Redis), the other calls by handle.
\<close>

record ('a, 'w) client =
  cl_connect :: "'a \<Rightarrow> 'w \<Rightarrow> connect_result \<times> 'w"
  cl_ping :: "conn \<Rightarrow> 'w \<Rightarrow> bool \<times> 'w"
  cl_errno :: "conn \<Rightarrow> 'w \<Rightarrow> bool"
  cl_close :: "conn \<Rightarrow> 'w \<Rightarrow> 'w"

definition toSeconds :: "int \<Rightarrow> int" where
  "toSeconds timeout = max 1 (cdiv (timeout + 999) 1000) mod 2 ^ 32"

definition mysql_backend :: "(MysqlConfig \<times> int \<times> int, 'w) client \<Rightarrow> (MysqlConfig, 'w) backend" where
  "mysql_backend C =
    \<lparr>b_connect = (\<lambda>p. cl_connect C (p_cfg p, toSeconds (connectTimeout p), toSeconds (readTimeout p))),
     b_ping = cl_ping C, b_errno = cl_errno C, b_close = cl_close C,
     b_error = (\<lambda>m. m\<lparr>mysql_errors := mysql_errors m + 1\<rparr>)\<rparr>"

definition redis_uri_of :: "string pool \<Rightarrow> string" where
  "redis_uri_of p =
     p_cfg p @ (if CHR ''?'' \<notin> set (p_cfg p) then ''?'' else ''&'')
     @ ''connect_timeout='' @ show_int (connectTimeout p)
     @ ''ms&socket_timeout='' @ show_int (readTimeout p) @ ''ms''"

text \<open>A Redis connection is checked by its exceptions only, so there is no error number.\<close>

definition redis_backend :: "(string, 'w) client \<Rightarrow> (string, 'w) backend" where
  "redis_backend C =
    \<lparr>b_connect = (\<lambda>p. cl_connect C (redis_uri_of p)), b_ping = cl_ping C, b_errno = (\<lambda>_ _. False),
     b_close = cl_close C, b_error = (\<lambda>m. m\<lparr>redis_errors := redis_errors m + 1\<rparr>)\<rparr>"

section \<open>The Redis cache\<close>

text \<open>
  \<open>cmd\<close> is the command on the connection: \<open>None\<close> when it throws. \<open>ms\<close> stands for the wakeups
  of the 50 milliseconds the cache waits for a connection.
\<close>

definition with_redis ::
  "(string, 'w) client \<Rightarrow> int \<Rightarrow> ((string, 'w) pw \<Rightarrow> (string, 'w) pw) list
     \<Rightarrow> (conn \<Rightarrow> 'w \<Rightarrow> 'r option \<times> 'w) \<Rightarrow> (string, 'w) pw \<Rightarrow> 'r option \<times> (string, 'w) pw" where
  "with_redis C now ms cmd s =
     (case acquire (redis_backend C) now ms s of
        (None, s) \<Rightarrow> (None, s)
      | (Some g, p, w) \<Rightarrow>
          (case cmd (g_conn g) w of
             (Some r, w) \<Rightarrow> (Some r, guard_release (redis_backend C) now g (p, w))
           | (None, w) \<Rightarrow>
               (None, guard_release (redis_backend C) now (markUnhealthy g)
                        (p_bump (b_error (redis_backend C)) p, w))))"

text \<open>\<open>setex\<close> and \<open>get\<close> of the client, each possibly throwing; the cache may have no pool.\<close>

definition RedisCache_set ::
  "(string, 'w) client \<Rightarrow> (conn \<Rightarrow> string \<Rightarrow> int \<Rightarrow> string \<Rightarrow> 'w \<Rightarrow> unit option \<times> 'w) \<Rightarrow> int \<Rightarrow> int
     \<Rightarrow> ((string, 'w) pw \<Rightarrow> (string, 'w) pw) list \<Rightarrow> string \<Rightarrow> string
     \<Rightarrow> (string, 'w) pw option \<Rightarrow> bool \<times> (string, 'w) pw option" where
  "RedisCache_set C setex ttl now ms key v pool =
     (case pool of None \<Rightarrow> (False, None)
      | Some s \<Rightarrow>
          (case with_redis C now ms (\<lambda>c. setex c key ttl v) s of (r, s) \<Rightarrow> (r \<noteq> None, Some s)))"

definition RedisCache_get ::
  "(string, 'w) client \<Rightarrow> (conn \<Rightarrow> string \<Rightarrow> 'w \<Rightarrow> string option option \<times> 'w) \<Rightarrow> int
     \<Rightarrow> ((string, 'w) pw \<Rightarrow> (string, 'w) pw) list \<Rightarrow> string
     \<Rightarrow> (string, 'w) pw option \<Rightarrow> string option \<times> (string, 'w) pw option" where
  "RedisCache_get C getk now ms key pool =
     (case pool of None \<Rightarrow> (None, None)
      | Some s \<Rightarrow>
          (case with_redis C now ms (\<lambda>c. getk c key) s of (r, s) \<Rightarrow>
             (case r of None \<Rightarrow> None | Some v \<Rightarrow> v, Some s)))"

definition RedisCache_availableCount :: "(string, 'w) pw option \<Rightarrow> nat" where
  "RedisCache_availableCount pool = (case pool of None \<Rightarrow> 0 | Some s \<Rightarrow> availableCount (fst s))"

section \<open>Ownership\<close>

text \<open>
  The handles the entries own; the ledger of lent connections (entry and handle); and when
  entries are well-formed: a healthy or lent entry has a handle, no handle has two owners.
\<close>

definition owned :: "Entry list \<Rightarrow> conn set" where
  "owned es = {c. \<exists>i < length es. e_conn (es ! i) = Some c}"

definition ledger :: "Entry list \<Rightarrow> (nat \<times> conn) set" where
  "ledger es = {(i, c). i < length es \<and> inUse (es ! i) \<and> e_conn (es ! i) = Some c}"

definition entries_ok :: "Entry list \<Rightarrow> bool" where
  "entries_ok es \<longleftrightarrow>
     (\<forall>i < length es. (healthy (es ! i) \<or> inUse (es ! i)) \<longrightarrow> e_conn (es ! i) \<noteq> None)
     \<and> (\<forall>i < length es. \<forall>j < length es. e_conn (es ! i) \<noteq> None \<longrightarrow> e_conn (es ! i) = e_conn (es ! j) \<longrightarrow> i = j)"

definition lent :: "('cfg, 'w) pw \<Rightarrow> (nat \<times> conn) set" where
  "lent s = ledger (entries (fst s))"

definition pool_ok :: "('w \<Rightarrow> conn set) \<Rightarrow> ('cfg, 'w) pw \<Rightarrow> bool" where
  "pool_ok opn s \<longleftrightarrow> entries_ok (entries (fst s)) \<and> owned (entries (fst s)) \<subseteq> opn (snd s)
     \<and> int (length (entries (fst s))) \<le> maxSize (fst s) \<and> 0 \<le> minSize (fst s) \<and> minSize (fst s) \<le> maxSize (fst s)"

definition leaked :: "('w \<Rightarrow> conn set) \<Rightarrow> ('cfg, 'w) pw \<Rightarrow> conn set" where
  "leaked opn s = opn (snd s) - owned (entries (fst s))"

text \<open>What stays the same in every step but starting and stopping.\<close>

definition same_pool :: "('cfg, 'w) pw \<Rightarrow> ('cfg, 'w) pw \<Rightarrow> bool" where
  "same_pool s s' \<longleftrightarrow> minSize (fst s') = minSize (fst s) \<and> maxSize (fst s') = maxSize (fst s)
     \<and> idleTtl (fst s') = idleTtl (fst s) \<and> p_running (fst s') = p_running (fst s)
     \<and> p_cfg (fst s') = p_cfg (fst s)"

lemma same_pool_refl [simp]: "same_pool s s"
  by (simp add: same_pool_def)

lemma same_pool_trans: "same_pool s t \<Longrightarrow> same_pool t u \<Longrightarrow> same_pool s u"
  by (simp add: same_pool_def)

text \<open>
  A step that keeps the pool well-formed, loses no handle and leaves the ledger and the
  number of entries alone.
\<close>

definition keeps :: "('w \<Rightarrow> conn set) \<Rightarrow> ('cfg, 'w) pw \<Rightarrow> ('cfg, 'w) pw \<Rightarrow> bool" where
  "keeps opn s s' \<longleftrightarrow> pool_ok opn s' \<and> leaked opn s' = leaked opn s \<and> lent s' = lent s
     \<and> length (entries (fst s')) = length (entries (fst s)) \<and> same_pool s s'"

text \<open>A step that also lends a connection no guard had before.\<close>

definition lends :: "('w \<Rightarrow> conn set) \<Rightarrow> ('cfg, 'w) pw \<Rightarrow> Guard \<Rightarrow> ('cfg, 'w) pw \<Rightarrow> bool" where
  "lends opn s g s' \<longleftrightarrow> pool_ok opn s' \<and> leaked opn s' = leaked opn s
     \<and> lent s' = insert (g_index g, g_conn g) (lent s) \<and> g_index g \<notin> fst ` lent s
     \<and> g_conn g \<notin> snd ` lent s \<and> g_conn g \<in> opn (snd s') \<and> same_pool s s'"

text \<open>What another thread may do to the pool.\<close>

definition tame :: "('w \<Rightarrow> conn set) \<Rightarrow> (('cfg, 'w) pw \<Rightarrow> ('cfg, 'w) pw) \<Rightarrow> bool" where
  "tame opn f \<longleftrightarrow> (\<forall>t. pool_ok opn t \<longrightarrow> pool_ok opn (f t) \<and> leaked opn (f t) = leaked opn t)"

lemma tameD: "tame opn f \<Longrightarrow> pool_ok opn t \<Longrightarrow> pool_ok opn (f t) \<and> leaked opn (f t) = leaked opn t"
  unfolding tame_def by blast

lemma keeps_refl: "pool_ok opn s \<Longrightarrow> keeps opn s s"
  by (simp add: keeps_def)

lemma keeps_trans: "keeps opn s t \<Longrightarrow> keeps opn t u \<Longrightarrow> keeps opn s u"
  by (auto simp: keeps_def intro: same_pool_trans)

lemma keeps_ok: "keeps opn s t \<Longrightarrow> pool_ok opn t"
  by (simp add: keeps_def)

lemma p_bump_simps [simp, frame_simps]:
  "entries (p_bump f p) = entries p" "minSize (p_bump f p) = minSize p" "maxSize (p_bump f p) = maxSize p"
  "idleTtl (p_bump f p) = idleTtl p" "p_running (p_bump f p) = p_running p" "p_cfg (p_bump f p) = p_cfg p"
  by (simp_all add: p_bump_def)

lemma keeps_bump: "keeps opn s (p_bump f (fst t), snd t) \<longleftrightarrow> keeps opn s t"
  by (simp add: keeps_def pool_ok_def leaked_def lent_def same_pool_def)

lemma new_entry_simps [simp]:
  "e_conn (new_entry c u t) = c" "inUse (new_entry c u t) = u" "healthy (new_entry c u t) = (c \<noteq> None)"
  by (simp_all add: new_entry_def)

lemma set_entry_simps [simp, frame_simps]:
  "entries (set_entry i e p) = (entries p)[i := e]" "minSize (set_entry i e p) = minSize p"
  "maxSize (set_entry i e p) = maxSize p" "idleTtl (set_entry i e p) = idleTtl p"
  "p_running (set_entry i e p) = p_running p" "p_cfg (set_entry i e p) = p_cfg p"
  by (simp_all add: set_entry_def)

lemma entries_ok_inj:
  "entries_ok es \<Longrightarrow> i < length es \<Longrightarrow> j < length es \<Longrightarrow>
     e_conn (es ! i) = Some c \<Longrightarrow> e_conn (es ! j) = Some c \<Longrightarrow> i = j"
  unfolding entries_ok_def by (metis option.distinct(1))

lemma no_entries [simp]: "owned [] = {}" "entries_ok []"
  by (simp_all add: owned_def entries_ok_def)

lemma ownedI: "i < length es \<Longrightarrow> e_conn (es ! i) = Some c \<Longrightarrow> c \<in> owned es"
  by (auto simp: owned_def)

lemma owned_update:
  assumes "entries_ok es" "i < length es"
  shows "owned (es[i := e]) = (owned es - set_option (e_conn (es ! i))) \<union> set_option (e_conn e)"
proof (rule set_eqI)
  fix c
  have "c \<in> owned (es[i := e]) \<longleftrightarrow> (\<exists>j < length es. j \<noteq> i \<and> e_conn (es ! j) = Some c) \<or> e_conn e = Some c"
    using assms(2) by (auto simp: owned_def nth_list_update)
  also have "(\<exists>j < length es. j \<noteq> i \<and> e_conn (es ! j) = Some c) \<longleftrightarrow>
      c \<in> owned es \<and> e_conn (es ! i) \<noteq> Some c"
    using entries_ok_inj [OF assms(1) _ assms(2)] unfolding owned_def by blast
  finally show "c \<in> owned (es[i := e]) \<longleftrightarrow>
      c \<in> (owned es - set_option (e_conn (es ! i))) \<union> set_option (e_conn e)"
    by (simp add: elem_set)
qed

lemma ledger_update:
  "i < length es \<Longrightarrow>
     ledger (es[i := e]) = {x \<in> ledger es. fst x \<noteq> i}
       \<union> (if inUse e then {i} \<times> set_option (e_conn e) else {})"
  by (auto simp: ledger_def nth_list_update elem_set split: if_splits)

lemma entries_okI:
  assumes "\<And>i. i < length es \<Longrightarrow> healthy (es ! i) \<or> inUse (es ! i) \<Longrightarrow> e_conn (es ! i) \<noteq> None"
    and "\<And>i j c. i < j \<Longrightarrow> j < length es \<Longrightarrow> e_conn (es ! i) = Some c \<Longrightarrow> e_conn (es ! j) \<noteq> Some c"
  shows "entries_ok es"
proof -
  have "i = j" if "i < length es" "j < length es" "e_conn (es ! i) \<noteq> None" "e_conn (es ! i) = e_conn (es ! j)" for i j
    using assms(2) [of i j] assms(2) [of j i] that by (metis linorder_neqE_nat option.exhaust)
  with assms(1) show ?thesis unfolding entries_ok_def by blast
qed

lemma entries_ok_update:
  assumes "entries_ok es" "i < length es" "healthy e \<or> inUse e \<Longrightarrow> e_conn e \<noteq> None"
    and "\<And>c. e_conn e = Some c \<Longrightarrow> c \<notin> owned es - set_option (e_conn (es ! i))"
  shows "entries_ok (es[i := e])"
proof (rule entries_okI)
  fix j assume "j < length (es[i := e])" "healthy (es[i := e] ! j) \<or> inUse (es[i := e] ! j)"
  then show "e_conn (es[i := e] ! j) \<noteq> None"
    using assms(1-3) by (cases "j = i") (auto simp: entries_ok_def)
next
  have n: "e_conn (es ! j) \<noteq> Some c" if j: "j < length es" "j \<noteq> i" and c: "e_conn e = Some c" for j c
    using assms(4) [OF c] ownedI [OF j(1), of c] entries_ok_inj [OF assms(1) j(1) assms(2), of c] j(2)
    by (auto simp: elem_set)
  fix j k c assume jk: "j < k" "k < length (es[i := e])" and c: "e_conn (es[i := e] ! j) = Some c"
  then show "e_conn (es[i := e] ! k) \<noteq> Some c"
    using n [of k c] n [of j c] entries_ok_inj [OF assms(1), of j k c]
    by (cases "j = i"; cases "k = i") auto
qed

lemma owned_alt: "owned es = (\<Union>e \<in> set es. set_option (e_conn e))"
  unfolding owned_def by (fastforce simp: in_set_conv_nth elem_set)

lemma owned_append: "owned (es @ [e]) = owned es \<union> set_option (e_conn e)"
  by (auto simp: owned_alt)

lemma ledger_append:
  "ledger (es @ [e]) = ledger es \<union> (if inUse e then {length es} \<times> set_option (e_conn e) else {})"
  by (auto simp: ledger_def nth_append elem_set less_Suc_eq split: if_splits)

lemma entries_ok_append:
  assumes "entries_ok es" "healthy e \<or> inUse e \<Longrightarrow> e_conn e \<noteq> None"
    and "\<And>c. e_conn e = Some c \<Longrightarrow> c \<notin> owned es"
  shows "entries_ok (es @ [e])"
proof (rule entries_okI)
  fix j assume "j < length (es @ [e])" "healthy ((es @ [e]) ! j) \<or> inUse ((es @ [e]) ! j)"
  then show "e_conn ((es @ [e]) ! j) \<noteq> None"
    using assms(1,2) by (cases "j < length es") (auto simp: entries_ok_def nth_append)
next
  fix j k c assume jk: "j < k" "k < length (es @ [e])" and c: "e_conn ((es @ [e]) ! j) = Some c"
  then show "e_conn ((es @ [e]) ! k) \<noteq> Some c"
    using ownedI [of j es c] entries_ok_inj [OF assms(1), of j k c] assms(3) [of c]
    by (cases "k < length es") (auto simp: nth_append)
qed

locale pool_backend =
  fixes B :: "('cfg, 'w) backend" and opn :: "'w \<Rightarrow> conn set"
  assumes connect_init: "b_connect B p w = (InitFailed, w') \<Longrightarrow> opn w' = opn w"
    and connect_fail: "b_connect B p w = (ConnectFailed, w') \<Longrightarrow> opn w' = opn w"
    and connect_new: "b_connect B p w = (Connected c, w') \<Longrightarrow> c \<notin> opn w \<and> opn w' = insert c (opn w)"
    and ping_open: "b_ping B c w = (b, w') \<Longrightarrow> opn w' = opn w"
    and close_open: "opn (b_close B c w) = opn w - {c}"
begin

lemma connect_cases:
  assumes "connect B (p, w) = (c, p', w')"
  shows "opn w' = opn w \<union> set_option c" "\<And>x. c = Some x \<Longrightarrow> x \<notin> opn w"
    "entries p' = entries p" "same_pool (p, w) (p', w')"
  using assms connect_init connect_fail connect_new
  by (fastforce simp: connect_def same_pool_def split: prod.splits connect_result.splits)+

lemma keeps_world: "pool_ok opn (p, w) \<Longrightarrow> opn w' = opn w \<Longrightarrow> keeps opn (p, w) (p, w')"
  by (simp add: keeps_def pool_ok_def leaked_def lent_def same_pool_def)

text \<open>Only flags of an entry change; the ledger follows the flag \<open>inUse\<close>.\<close>

lemma keeps_flags:
  assumes "pool_ok opn s" "i < length (entries (fst s))" "e_conn e = e_conn (entries (fst s) ! i)"
    and "healthy e \<or> inUse e \<Longrightarrow> e_conn e \<noteq> None" "inUse e = inUse (entries (fst s) ! i)"
  shows "keeps opn s (set_entry i e (fst s), snd s)"
proof -
  let ?es = "entries (fst s)"
  have ok: "entries_ok ?es" using assms(1) by (simp add: pool_ok_def)
  have "entries_ok (?es[i := e])" using ok assms by (intro entries_ok_update) (auto simp: elem_set)
  moreover have "owned (?es[i := e]) = owned ?es"
    using owned_update [OF ok assms(2), of e] assms(2,3) by (auto simp: elem_set intro: ownedI)
  moreover have "ledger (?es[i := e]) = ledger ?es"
    using assms(2,3,5) by (auto simp: ledger_update) (auto simp: ledger_def elem_set)
  ultimately show ?thesis
    using assms(1) by (simp add: keeps_def pool_ok_def leaked_def lent_def same_pool_def)
qed

lemma closeEntry_step:
  assumes "pool_ok opn s" "i < length (entries (fst s))"
  shows "pool_ok opn (closeEntry B i s)" "leaked opn (closeEntry B i s) = leaked opn s"
    "lent (closeEntry B i s) = {x \<in> lent s. fst x \<noteq> i}"
    "length (entries (fst (closeEntry B i s))) = length (entries (fst s))"
    "same_pool s (closeEntry B i s)"
    "e_conn (entries (fst (closeEntry B i s)) ! i) = None" "\<not> inUse (entries (fst (closeEntry B i s)) ! i)"
    "\<And>j. j \<noteq> i \<Longrightarrow> entries (fst (closeEntry B i s)) ! j = entries (fst s) ! j"
proof -
  obtain p w where s: "s = (p, w)" by (cases s)
  let ?es = "entries p" let ?e = "(?es ! i)\<lparr>e_conn := None, healthy := False, inUse := False\<rparr>"
  let ?w = "case e_conn (?es ! i) of None \<Rightarrow> w | Some c \<Rightarrow> b_close B c w"
  have c: "closeEntry B i (p, w) = (set_entry i ?e p, ?w)" by (simp add: closeEntry_def Let_def)
  have ok: "entries_ok ?es" and i: "i < length ?es" and sub: "owned ?es \<subseteq> opn w"
    using assms by (auto simp: pool_ok_def s)
  have w: "opn ?w = opn w - set_option (e_conn (?es ! i))"
    by (auto simp: close_open split: option.splits)
  have o: "owned (?es[i := ?e]) = owned ?es - set_option (e_conn (?es ! i))"
    using owned_update [OF ok i, of ?e] by simp
  have own: "set_option (e_conn (?es ! i)) \<subseteq> owned ?es" using i by (auto simp: elem_set intro: ownedI)
  have "entries_ok (?es[i := ?e])" using ok i by (intro entries_ok_update) auto
  then show "pool_ok opn (closeEntry B i s)"
    using assms(1) w o sub by (auto simp: c s pool_ok_def)
  show "leaked opn (closeEntry B i s) = leaked opn s" using w o own by (auto simp: c s leaked_def)
  show "lent (closeEntry B i s) = {x \<in> lent s. fst x \<noteq> i}"
    using i by (auto simp: c s lent_def ledger_update)
qed (use assms in \<open>auto simp: closeEntry_def same_pool_def Let_def split: prod.splits\<close>)

lemma reconnect_step:
  assumes "pool_ok opn s" "i < length (entries (fst s))" "\<not> inUse (entries (fst s) ! i)"
  shows "pool_ok opn (reconnect B i s)"
    "leaked opn (reconnect B i s) = leaked opn s \<union> set_option (e_conn (entries (fst s) ! i))"
    "lent (reconnect B i s) = lent s" "length (entries (fst (reconnect B i s))) = length (entries (fst s))"
    "same_pool s (reconnect B i s)" "\<not> inUse (entries (fst (reconnect B i s)) ! i)"
    "healthy (entries (fst (reconnect B i s)) ! i) \<longleftrightarrow> e_conn (entries (fst (reconnect B i s)) ! i) \<noteq> None"
    "\<And>j. j \<noteq> i \<Longrightarrow> entries (fst (reconnect B i s)) ! j = entries (fst s) ! j"
proof -
  obtain p w where s: "s = (p, w)" by (cases s)
  obtain c p' w' where cn: "connect B (p, w) = (c, p', w')" by (cases "connect B (p, w)") auto
  note cc = connect_cases [OF cn]
  let ?es = "entries p" let ?e = "(?es ! i)\<lparr>e_conn := c, healthy := (c \<noteq> None)\<rparr>"
  have r: "reconnect B i (p, w) = (set_entry i ?e p', w')" by (simp add: reconnect_def cn cc(3))
  have ok: "entries_ok ?es" and i: "i < length ?es" and sub: "owned ?es \<subseteq> opn w" and u: "\<not> inUse (?es ! i)"
    using assms by (auto simp: pool_ok_def s)
  have fresh: "\<And>x. c = Some x \<Longrightarrow> x \<notin> owned ?es" using cc(2) sub by auto
  have o: "owned (?es[i := ?e]) = (owned ?es - set_option (e_conn (?es ! i))) \<union> set_option c"
    using owned_update [OF ok i, of ?e] by simp
  have own: "set_option (e_conn (?es ! i)) \<subseteq> owned ?es" using i by (auto simp: elem_set intro: ownedI)
  have "entries_ok (?es[i := ?e])" using ok i u fresh by (intro entries_ok_update) auto
  then show "pool_ok opn (reconnect B i s)"
    using assms(1) cc o sub by (auto simp: r s pool_ok_def same_pool_def)
  show "leaked opn (reconnect B i s) = leaked opn s \<union> set_option (e_conn (entries (fst s) ! i))"
    using cc(1,2,3) o own fresh sub by (auto simp: r s leaked_def elem_set)
  show "lent (reconnect B i s) = lent s"
    using i u cc(3) by (auto simp: r s lent_def ledger_update) (auto simp: ledger_def)
  show "same_pool s (reconnect B i s)" using cc(4) by (simp add: r s same_pool_def)
qed (use assms in \<open>auto simp: reconnect_def connect_def p_bump_def split: prod.splits connect_result.splits\<close>)

lemma idle_not_lent: "\<not> inUse (entries (fst s) ! i) \<Longrightarrow> {x \<in> lent s. fst x \<noteq> i} = lent s"
  by (auto simp: lent_def ledger_def)

lemma closeEntry_keeps:
  assumes "pool_ok opn s" "i < length (entries (fst s))" "\<not> inUse (entries (fst s) ! i)"
  shows "keeps opn s (closeEntry B i s)"
  using closeEntry_step [OF assms(1,2)] idle_not_lent [OF assms(3)] by (simp add: keeps_def)

lemma ensureHealthy_step:
  assumes "pool_ok opn s" "i < length (entries (fst s))" "\<not> inUse (entries (fst s) ! i)"
    and "ensureHealthy B i s = (b, s')"
  shows "keeps opn s s' \<and> \<not> inUse (entries (fst s') ! i) \<and> (b \<longrightarrow> e_conn (entries (fst s') ! i) \<noteq> None)"
proof (cases "e_conn (entries (fst s) ! i)")
  case None
  then show ?thesis
    using reconnect_step [OF assms(1-3)] assms(4) by (auto simp: ensureHealthy_def Let_def keeps_def)
next
  case (Some c)
  obtain p w where s: "s = (p, w)" by (cases s)
  obtain alive w' where pg: "b_ping B c w = (alive, w')" by (cases "b_ping B c w")
  have k1: "keeps opn s (p, w')" using keeps_world ping_open [OF pg] assms(1) by (simp add: s)
  show ?thesis
  proof (cases alive)
    case True
    let ?e = "(entries p ! i)\<lparr>healthy := True, failures := 0\<rparr>"
    have "keeps opn (p, w') (set_entry i ?e p, w')"
      using keeps_flags [of "(p, w')" i ?e] k1 assms(2,3) Some by (simp add: s keeps_ok)
    with k1 show ?thesis
      using keeps_trans True assms(2-4) Some pg by (auto simp: s ensureHealthy_def Let_def)
  next
    case False
    let ?t = "(p_bump (b_error B) p, w')"
    have k2: "keeps opn s ?t" using k1 keeps_bump [of opn s "b_error B" "(p, w')"] by simp
    have t: "pool_ok opn ?t" "i < length (entries (fst ?t))" "\<not> inUse (entries (fst ?t) ! i)"
      using keeps_ok [OF k2] assms(2,3) by (simp_all add: s)
    note c = closeEntry_step [OF t(1,2)]
    have k3: "keeps opn s (closeEntry B i ?t)" using keeps_trans [OF k2 closeEntry_keeps [OF t]] .
    have i': "i < length (entries (fst (closeEntry B i ?t)))" using c(4) t(2) by simp
    note r = reconnect_step [OF c(1) i' c(7)]
    have "keeps opn (closeEntry B i ?t) (reconnect B i (closeEntry B i ?t))"
      using r c(6) by (simp add: keeps_def)
    then have "keeps opn s (reconnect B i (closeEntry B i ?t))" by (rule keeps_trans [OF k3])
    moreover have "s' = reconnect B i (closeEntry B i ?t)" "b = healthy (entries (fst s') ! i)"
      using False assms(4) Some pg by (auto simp: s ensureHealthy_def Let_def)
    ultimately show ?thesis using r(6,7) by simp
  qed
qed

lemma lend_step:
  assumes "pool_ok opn s" "i < length (entries (fst s))" "\<not> inUse (entries (fst s) ! i)"
    and "e_conn (entries (fst s) ! i) \<noteq> None" "lend i s = (g, s')"
  shows "\<exists>g'. g = Some g' \<and> lends opn s g' s' \<and> length (entries (fst s')) = length (entries (fst s))"
proof -
  let ?es = "entries (fst s)" let ?e = "(?es ! i)\<lparr>inUse := True\<rparr>"
  obtain c where c: "e_conn (?es ! i) = Some c" using assms(4) by auto
  have g: "g = Some \<lparr>g_index = i, g_conn = c, g_healthy = True\<rparr>" "s' = (set_entry i ?e (fst s), snd s)"
    using assms(5) c by (auto simp: lend_def Let_def)
  have ok: "entries_ok ?es" and sub: "owned ?es \<subseteq> opn (snd s)" using assms(1) by (auto simp: pool_ok_def)
  have "entries_ok (?es[i := ?e])" using ok assms(2) c by (intro entries_ok_update) (auto simp: elem_set)
  moreover have "owned (?es[i := ?e]) = owned ?es"
    using owned_update [OF ok assms(2), of ?e] assms(2) c by (auto intro: ownedI)
  moreover have "lent s' = insert (i, c) (lent s)" "i \<notin> fst ` lent s"
    using assms(2,3) c by (auto simp: g lent_def ledger_update) (auto simp: ledger_def)
  moreover have "c \<notin> snd ` lent s"
    using entries_ok_inj [OF ok _ assms(2) _ c] assms(3) by (auto simp: lent_def ledger_def)
  moreover have "c \<in> opn (snd s)" using sub ownedI [OF assms(2) c] by auto
  ultimately show ?thesis using assms(1) by (auto simp: g lends_def pool_ok_def leaked_def same_pool_def)
qed

lemma keeps_lends: "keeps opn s t \<Longrightarrow> lends opn t g u \<Longrightarrow> lends opn s g u"
  by (auto simp: keeps_def lends_def intro: same_pool_trans)

lemma scan_step:
  assumes "pool_ok opn s" "\<forall>i \<in> set is. i < length (entries (fst s))" "scan B is s = (g, s')"
  shows "case g of None \<Rightarrow> keeps opn s s'
     | Some g' \<Rightarrow> lends opn s g' s' \<and> length (entries (fst s')) = length (entries (fst s))"
  using assms
proof (induction "is" arbitrary: s)
  case Nil
  then show ?case by (auto intro: keeps_refl)
next
  case (Cons i "is")
  let ?e = "entries (fst s) ! i"
  have i: "i < length (entries (fst s))" using Cons.prems by simp
  consider "inUse ?e" | "\<not> inUse ?e" "healthy ?e" | "\<not> inUse ?e" "\<not> healthy ?e" by blast
  then show ?case
  proof cases
    case 1
    with Cons show ?thesis by (simp add: Let_def)
  next
    case 2
    then have "e_conn ?e \<noteq> None" using Cons.prems(1) i by (auto simp: pool_ok_def entries_ok_def)
    with 2 lend_step [OF Cons.prems(1) i] Cons.prems(3) show ?thesis by (auto simp: Let_def)
  next
    case 3
    obtain b t where e: "ensureHealthy B i s = (b, t)" by (cases "ensureHealthy B i s")
    note t = ensureHealthy_step [OF Cons.prems(1) i 3(1) e]
    have it: "\<forall>i \<in> set (i # is). i < length (entries (fst t))" using t Cons.prems(2) by (simp add: keeps_def)
    have okt: "pool_ok opn t" and kt: "keeps opn s t" using t keeps_ok by blast+
    show ?thesis
    proof (cases b)
      case True
      then have "lend i t = (g, s')" using 3 e Cons.prems(3) by (simp add: Let_def)
      then obtain g' where "g = Some g'" "lends opn t g' s'" "length (entries (fst s')) = length (entries (fst t))"
        using lend_step [OF okt, of i g s'] t it True by auto
      then show ?thesis using kt keeps_lends [OF kt] by (simp add: keeps_def)
    next
      case False
      then have "scan B is t = (g, s')" using 3 e Cons.prems(3) by (simp add: Let_def)
      then have "case g of None \<Rightarrow> keeps opn t s'
          | Some g' \<Rightarrow> lends opn t g' s' \<and> length (entries (fst s')) = length (entries (fst t))"
        using Cons.IH [OF okt] it by auto
      moreover have "length (entries (fst t)) = length (entries (fst s))" using kt by (simp add: keeps_def)
      ultimately show ?thesis
        using keeps_trans [OF kt] keeps_lends [OF kt] by (cases g) simp_all
    qed
  qed
qed

lemma append_step:
  fixes now :: int
  assumes "pool_ok opn (p, w)" "int (length (entries p)) < maxSize p" "connect B (p, w) = (c, p', w')"
    and "u \<longrightarrow> c \<noteq> None"
  defines "s' \<equiv> (p'\<lparr>entries := entries p' @ [new_entry c u now]\<rparr>, w')"
  shows "pool_ok opn s'" "leaked opn s' = leaked opn (p, w)" "same_pool (p, w) s'"
    "lent s' = lent (p, w) \<union> (if u then {length (entries p)} \<times> set_option c else {})"
    "length (entries (fst s')) = Suc (length (entries p))"
proof -
  note cc = connect_cases [OF assms(3)]
  let ?es = "entries p" let ?e = "new_entry c u now"
  have ok: "entries_ok ?es" and sub: "owned ?es \<subseteq> opn w" using assms(1) by (auto simp: pool_ok_def)
  have fresh: "\<And>x. c = Some x \<Longrightarrow> x \<notin> owned ?es" using cc(2) sub by auto
  have "entries_ok (?es @ [?e])" using ok fresh assms(4) by (intro entries_ok_append) auto
  then show "pool_ok opn s'"
    using assms(1,2) cc(1,3,4) sub by (auto simp: s'_def pool_ok_def owned_append same_pool_def)
  show "leaked opn s' = leaked opn (p, w)"
    using cc(1,2,3) fresh sub by (auto simp: s'_def leaked_def owned_append elem_set)
qed (use connect_cases(3,4) [OF assms(3)] in \<open>auto simp: s'_def same_pool_def lent_def ledger_append\<close>)

lemma grow_step:
  assumes "pool_ok opn s" "grow B now s = (g, s')"
  shows "pool_ok opn s' \<and> leaked opn s' = leaked opn s \<and> same_pool s s'
     \<and> (case g of None \<Rightarrow> lent s' = lent s | Some g' \<Rightarrow> lends opn s g' s')"
proof (cases "int (length (entries (fst s))) < maxSize (fst s)")
  case True
  obtain p w where s: "s = (p, w)" by (cases s)
  obtain c p' w' where cn: "connect B (p, w) = (c, p', w')" by (cases "connect B (p, w)") auto
  note cc = connect_cases [OF cn]
  have r: "g = map_option (\<lambda>c. \<lparr>g_index = length (entries p), g_conn = c, g_healthy = True\<rparr>) c"
      "s' = (p'\<lparr>entries := entries p' @ [new_entry c (c \<noteq> None) now]\<rparr>, w')"
    using assms(2) True cn cc(3) by (auto simp: grow_def s)
  note ap = append_step [OF assms(1) [unfolded s] _ cn, of "c \<noteq> None" now, folded r(2)]
  show ?thesis
  proof (cases c)
    case None
    with ap True show ?thesis by (simp add: r(1) s)
  next
    case (Some x)
    have "length (entries p) \<notin> fst ` lent s" by (auto simp: lent_def ledger_def s)
    moreover have "x \<notin> opn w" "x \<in> opn w'" using cc(1,2) Some by auto
    moreover have "x \<notin> snd ` lent s"
      using \<open>x \<notin> opn w\<close> assms(1) by (auto simp: lent_def ledger_def s pool_ok_def intro: ownedI)
    ultimately show ?thesis using ap True Some by (auto simp: r(1) s lends_def) (simp add: r(2))
  qed
next
  case False
  then show ?thesis using assms by (auto simp: grow_def)
qed

lemma attempt_step:
  assumes "pool_ok opn s" "attempt B now s = (g, s')"
  shows "pool_ok opn s' \<and> leaked opn s' = leaked opn s \<and> same_pool s s'
     \<and> (case g of None \<Rightarrow> lent s' = lent s | Some g' \<Rightarrow> lends opn s g' s')"
proof -
  obtain g1 t where t: "scan B [0..<length (entries (fst s))] s = (g1, t)"
    by (cases "scan B [0..<length (entries (fst s))] s")
  note sc = scan_step [OF assms(1) _ t]
  show ?thesis
  proof (cases g1)
    case None
    then have k: "keeps opn s t" and gr: "grow B now t = (g, s')"
      using sc assms(2) t by (auto simp: attempt_def)
    from grow_step [OF keeps_ok [OF k] gr] k show ?thesis
      using keeps_lends [OF k] by (auto simp: keeps_def intro: same_pool_trans split: option.splits)
  next
    case (Some g')
    with sc assms(2) t show ?thesis by (auto simp: attempt_def lends_def)
  qed
qed

lemma acquire_outcome:
  assumes "acquire B now ms s = (g, s')" "attempt B now s = (g1, t)"
  shows "g = None \<and> s' = s \<or> (\<exists>a. g1 = Some a \<and> g = Some a \<and> s' = t)
     \<or> g1 = None \<and> (case ms of
          [] \<Rightarrow> g = None \<and> s' = (p_bump (\<lambda>m. m\<lparr>pool_timeouts := pool_timeouts m + 1\<rparr>) (fst t), snd t)
        | f # fs \<Rightarrow> acquire B now fs (f t) = (g, s'))"
  using assms by (auto simp: acquire.simps [of B now ms s] split: if_splits option.splits list.splits)

lemma acquire_step:
  assumes "pool_ok opn s" "acquire B now ms s = (g, s')"
    and "list_all (tame opn) ms"
  shows "pool_ok opn s' \<and> leaked opn s' = leaked opn s
     \<and> (case g of None \<Rightarrow> ms = [] \<longrightarrow> lent s' = lent s
        | Some g' \<Rightarrow> \<exists>t. lends opn t g' s' \<and> (ms = [] \<longrightarrow> lent t = lent s))"
  using assms
proof (induction ms arbitrary: s)
  case Nil
  obtain g1 t where t: "attempt B now s = (g1, t)" by (cases "attempt B now s")
  note at = attempt_step [OF Nil(1) t]
  from acquire_outcome [OF Nil(2) t]
  consider "g = None" "s' = s" | a where "g1 = Some a" "g = Some a" "s' = t"
    | f where "g1 = None" "g = None" "s' = (p_bump f (fst t), snd t)" by auto
  then show ?case
  proof cases
    case 2
    with at show ?thesis by (auto intro!: exI [of _ "fst s"] exI [of _ "snd s"])
  next
    case 3
    with at show ?thesis by (simp add: pool_ok_def leaked_def lent_def)
  qed (use Nil in simp)
next
  case (Cons f ms)
  obtain g1 t where t: "attempt B now s = (g1, t)" by (cases "attempt B now s")
  note at = attempt_step [OF Cons.prems(1) t]
  from acquire_outcome [OF Cons.prems(2) t]
  consider "g = None" "s' = s" | a where "g1 = Some a" "g = Some a" "s' = t"
    | "g1 = None" "acquire B now ms (f t) = (g, s')" by auto
  then show ?case
  proof cases
    case 2
    with at show ?thesis by (auto intro!: exI [of _ "fst s"] exI [of _ "snd s"])
  next
    case 3
    have "pool_ok opn (f t)" "leaked opn (f t) = leaked opn s"
      using Cons.prems(3) at tameD [of opn f t] by auto
    then show ?thesis using Cons.IH [of "f t"] 3 Cons.prems(3) by (auto split: option.splits)
  qed (use Cons.prems in simp)
qed

lemma release_step:
  assumes "pool_ok opn s"
  shows "pool_ok opn (pool_release B now i b s)" "leaked opn (pool_release B now i b s) = leaked opn s"
    "lent (pool_release B now i b s) = {x \<in> lent s. fst x \<noteq> i}"
    "same_pool s (pool_release B now i b s)"
    "length (entries (fst (pool_release B now i b s))) = length (entries (fst s))"
proof -
  obtain p w where s: "s = (p, w)" by (cases s)
  let ?es = "entries p" let ?s = "pool_release B now i b s"
  show "same_pool s ?s" "length (entries (fst ?s)) = length (entries (fst s))"
    by (auto simp: s pool_release_def Let_def same_pool_def)
  have "pool_ok opn ?s \<and> leaked opn ?s = leaked opn s \<and> lent ?s = {x \<in> lent s. fst x \<noteq> i}"
  proof (cases "i < length ?es")
    case False
    then show ?thesis using assms by (auto simp: s pool_release_def lent_def ledger_def)
  next
    case True
    obtain e f where r: "?s = (p_bump f (set_entry i e p), w)" "e_conn e = e_conn (?es ! i)" "\<not> inUse e"
        "healthy e \<longrightarrow> healthy (?es ! i)"
    proof (cases "\<not> b \<or> (case e_conn (?es ! i) of None \<Rightarrow> False | Some c \<Rightarrow> b_errno B c w)")
      case t: True
      show ?thesis
        using True t by (intro that [of "b_error B" "(?es ! i)\<lparr>inUse := False, lastUsed := now, healthy := False,
            failures := failures (?es ! i) + 1\<rparr>"]) (auto simp: s pool_release_def Let_def)
    next
      case f: False
      show ?thesis
        using True f by (intro that [of id "(?es ! i)\<lparr>inUse := False, lastUsed := now\<rparr>"])
          (auto simp: s pool_release_def Let_def p_bump_def option.map_id)
    qed
    have ok: "entries_ok ?es" using assms by (simp add: pool_ok_def s)
    have "entries_ok (?es[i := e])"
      using ok True r(2-4) by (intro entries_ok_update) (auto simp: elem_set entries_ok_def)
    moreover have "owned (?es[i := e]) = owned ?es"
      using owned_update [OF ok True, of e] r(2) True by (auto simp: elem_set intro: ownedI)
    ultimately show ?thesis
      using assms r(3) True unfolding r(1)
      by (simp add: s pool_ok_def leaked_def lent_def ledger_update)
  qed
  then show "pool_ok opn ?s" "leaked opn ?s = leaked opn s" "lent ?s = {x \<in> lent s. fst x \<noteq> i}" by auto
qed

lemma refresh_step:
  fixes now :: int
  assumes "pool_ok opn s" "i < length (entries (fst s))" "\<not> inUse (entries (fst s) ! i)"
  defines "t \<equiv> (set_entry i ((entries (fst (reconnect B i s)) ! i)\<lparr>lastUsed := now\<rparr>) (fst (reconnect B i s)),
                snd (reconnect B i s))"
  shows "pool_ok opn t" "leaked opn t = leaked opn s \<union> set_option (e_conn (entries (fst s) ! i))"
    "lent t = lent s" "length (entries (fst t)) = length (entries (fst s))" "same_pool s t"
proof -
  note r = reconnect_step [OF assms(1-3)]
  let ?r = "reconnect B i s" let ?e = "(entries (fst ?r) ! i)\<lparr>lastUsed := now\<rparr>"
  have "keeps opn ?r t"
    unfolding t_def using r(1,4,6,7) assms(2) by (intro keeps_flags) auto
  with r show "pool_ok opn t" "leaked opn t = leaked opn s \<union> set_option (e_conn (entries (fst s) ! i))"
    "lent t = lent s" "length (entries (fst t)) = length (entries (fst s))" "same_pool s t"
    by (auto simp: keeps_def intro: same_pool_trans)
qed

text \<open>The ping of an idle connection: the entry is closed when it fails.\<close>

lemma ping_step:
  assumes "pool_ok opn (p, w)" "i < length (entries p)" "\<not> inUse (entries p ! i)"
    and "b_ping B c w = (b, w')"
  shows "keeps opn (p, w) (p, w')"
    and "closeEntry B i (p, w') = (p2, w2) \<Longrightarrow> keeps opn (p, w) (p_bump f p2, w2)"
proof -
  show k: "keeps opn (p, w) (p, w')" by (rule keeps_world [OF assms(1) ping_open [OF assms(4)]])
  assume c: "closeEntry B i (p, w') = (p2, w2)"
  have "keeps opn (p, w') (p2, w2)"
    using closeEntry_keeps [of "(p, w')" i] keeps_ok [OF k] assms(2,3) by (simp add: c)
  then have "keeps opn (p, w) (p2, w2)" by (rule keeps_trans [OF k])
  then show "keeps opn (p, w) (p_bump f p2, w2)" using keeps_bump [of opn "(p, w)" f "(p2, w2)"] by simp
qed

lemma redis_check_keeps:
  assumes "pool_ok opn s" "i < length (entries (fst s))"
  shows "keeps opn s (redis_check B now i s)"
proof -
  obtain p w where s: "s = (p, w)" by (cases s)
  let ?e = "entries p ! i"
  consider "inUse ?e" | "\<not> inUse ?e" "e_conn ?e = None" | c where "\<not> inUse ?e" "e_conn ?e = Some c" by auto
  then show ?thesis
  proof cases
    case 1
    with assms(1) show ?thesis by (simp add: s redis_check_def keeps_refl)
  next
    case 2
    with refresh_step [of s i now] assms show ?thesis by (simp add: s redis_check_def Let_def keeps_def)
  next
    case 3
    obtain b w' where pg: "b_ping B c w = (b, w')" by (cases "b_ping B c w")
    obtain p2 w2 where cl: "closeEntry B i (p, w') = (p2, w2)" by (cases "closeEntry B i (p, w')")
    note ps = ping_step [OF assms(1) [unfolded s] _ 3(1) pg]
    have "keeps opn (p, w') (set_entry i (?e\<lparr>healthy := True\<rparr>) p, w')"
      using keeps_flags [of "(p, w')" i "?e\<lparr>healthy := True\<rparr>"] keeps_ok [OF ps(1)] assms(2) 3 by (simp add: s)
    then have "keeps opn (p, w) (set_entry i (?e\<lparr>healthy := True\<rparr>) p, w')"
      using ps(1) assms(2) keeps_trans by (fastforce simp: s)
    then show ?thesis using 3 pg cl ps(2) [OF _ cl] assms(2) by (simp add: s redis_check_def)
  qed
qed

definition lost_by_check :: "('cfg, 'w) pw \<Rightarrow> nat \<Rightarrow> conn set" where
  "lost_by_check s i =
     (if \<not> inUse (entries (fst s) ! i) \<and> \<not> healthy (entries (fst s) ! i)
      then set_option (e_conn (entries (fst s) ! i)) else {})"

lemma mysql_check_step:
  assumes "pool_ok opn s" "i < length (entries (fst s))"
  shows "pool_ok opn (mysql_check B now i s)"
    "leaked opn (mysql_check B now i s) = leaked opn s \<union> lost_by_check s i"
    "lent (mysql_check B now i s) = lent s"
    "length (entries (fst (mysql_check B now i s))) = length (entries (fst s))"
    "same_pool s (mysql_check B now i s)"
proof -
  obtain p w where s: "s = (p, w)" by (cases s)
  let ?e = "entries p ! i" let ?t = "mysql_check B now i s"
  have "pool_ok opn ?t \<and> leaked opn ?t = leaked opn s \<union> lost_by_check s i \<and> lent ?t = lent s
      \<and> length (entries (fst ?t)) = length (entries (fst s)) \<and> same_pool s ?t"
  proof -
    consider "inUse ?e" | "\<not> inUse ?e" "\<not> healthy ?e \<or> e_conn ?e = None"
      | c where "\<not> inUse ?e" "healthy ?e" "e_conn ?e = Some c" by (cases "e_conn ?e") auto
    then show ?thesis
    proof cases
      case 1
      with assms(1) show ?thesis by (simp add: s mysql_check_def lost_by_check_def)
    next
      case 2
      with refresh_step [of s i now] assms show ?thesis
        by (auto simp: s mysql_check_def Let_def lost_by_check_def)
    next
      case 3
      obtain b w' where pg: "b_ping B c w = (b, w')" by (cases "b_ping B c w")
      obtain p2 w2 where cl: "closeEntry B i (p, w') = (p2, w2)" by (cases "closeEntry B i (p, w')")
      note ps = ping_step [OF assms(1) [unfolded s] _ 3(1) pg]
      then have "keeps opn s ?t"
        using 3 pg cl ps(2) [OF _ cl] assms(2) by (simp add: s mysql_check_def)
      with 3 show ?thesis by (simp add: s keeps_def lost_by_check_def)
    qed
  qed
  then show "pool_ok opn ?t" "leaked opn ?t = leaked opn s \<union> lost_by_check s i" "lent ?t = lent s"
      "length (entries (fst ?t)) = length (entries (fst s))" "same_pool s ?t" by auto
qed

lemma open_count_close:
  assumes "i < length (entries (fst s))" "e_conn (entries (fst s) ! i) \<noteq> None"
  shows "Suc (open_count (fst (closeEntry B i s))) = open_count (fst s)"
  using assms filter_length_update [of i "entries (fst s)" "\<lambda>e. e_conn e \<noteq> None"]
  by (auto simp: open_count_def closeEntry_def Let_def split: prod.splits)

lemma close_idle_step:
  assumes "pool_ok opn s" "\<forall>i \<in> set is. i < length (entries (fst s))" "n = int (open_count (fst s))"
  shows "keeps opn s (close_idle B now is n s)
     \<and> min n (minSize (fst s)) \<le> int (open_count (fst (close_idle B now is n s)))"
  using assms
proof (induction "is" arbitrary: n s)
  case Nil
  then show ?case by (simp add: keeps_refl)
next
  case (Cons i "is")
  let ?e = "entries (fst s) ! i"
  show ?case
  proof (cases "minSize (fst s) < n \<and> \<not> inUse ?e \<and> e_conn ?e \<noteq> None \<and> idleTtl (fst s) * 1000000000 < now - lastUsed ?e")
    case True
    let ?t = "closeEntry B i s"
    have k: "keeps opn s ?t" using closeEntry_keeps Cons.prems True by auto
    have "n - 1 = int (open_count (fst ?t))" using open_count_close [of i s] Cons.prems True by auto
    moreover have "\<forall>i \<in> set is. i < length (entries (fst ?t))" "minSize (fst ?t) = minSize (fst s)"
      using k Cons.prems by (auto simp: keeps_def same_pool_def)
    ultimately have "keeps opn ?t (close_idle B now is (n - 1) ?t)
        \<and> min (n - 1) (minSize (fst s)) \<le> int (open_count (fst (close_idle B now is (n - 1) ?t)))"
      using Cons.IH [of ?t "n - 1"] keeps_ok [OF k] by simp
    with True k show ?thesis using keeps_trans [OF k] by (auto simp: Let_def)
  next
    case False
    then have "close_idle B now (i # is) n s = (if n \<le> minSize (fst s) then s else close_idle B now is n s)"
      by (auto simp: Let_def)
    then show ?thesis using Cons.IH [OF Cons.prems(1) _ Cons.prems(3)] Cons.prems keeps_refl [OF Cons.prems(1)] by auto
  qed
qed

lemma fold_keeps:
  assumes "\<And>i t. pool_ok opn t \<Longrightarrow> i < length (entries (fst t)) \<Longrightarrow> keeps opn t (f i t)"
    and "pool_ok opn s" "\<forall>i \<in> set js. i < length (entries (fst s))"
  shows "keeps opn s (fold f js s)"
  using assms(2,3)
proof (induction js arbitrary: s)
  case (Cons i js)
  then have k: "keeps opn s (f i s)" using assms(1) by simp
  then have "\<forall>j \<in> set js. j < length (entries (fst (f i s)))"
    using Cons.prems by (simp add: keeps_def)
  with Cons.IH [of "f i s"] keeps_ok [OF k] keeps_trans [OF k] show ?case by simp
qed (simp add: keeps_refl)

lemma start_step:
  assumes "pool_ok opn s" "entries (fst s) = []" "n \<le> nat (minSize (fst s))"
  shows "pool_ok opn ((add_idle B now ^^ n) s) \<and> leaked opn ((add_idle B now ^^ n) s) = leaked opn s
     \<and> lent ((add_idle B now ^^ n) s) = {} \<and> length (entries (fst ((add_idle B now ^^ n) s))) = n
     \<and> same_pool s ((add_idle B now ^^ n) s)"
  using assms(3)
proof (induction n)
  case 0
  then show ?case using assms(1,2) by (simp add: lent_def ledger_def)
next
  case (Suc n)
  obtain p w where t: "(add_idle B now ^^ n) s = (p, w)" by (cases "(add_idle B now ^^ n) s")
  obtain c p' w' where cn: "connect B (p, w) = (c, p', w')" by (cases "connect B (p, w)") auto
  have "minSize p = minSize (fst s)" "maxSize p = maxSize (fst s)" "length (entries p) = n"
    using Suc t by (auto simp: same_pool_def)
  moreover have "minSize (fst s) \<le> maxSize (fst s)" using assms(1) by (simp add: pool_ok_def)
  ultimately have "int (length (entries p)) < maxSize p" using Suc.prems by linarith
  note ap = append_step [OF _ this cn, of False now]
  have "(add_idle B now ^^ Suc n) s = (p'\<lparr>entries := entries p' @ [new_entry c False now]\<rparr>, w')"
    using t cn by (simp add: add_idle_def [of B now "(p, w)"])
  with ap Suc t show ?case by (auto intro: same_pool_trans)
qed

lemma stop_step:
  assumes "pool_ok opn s" "p_running (fst s)"
  shows "entries (fst (pool_stop B s)) = []" "\<not> p_running (fst (pool_stop B s))"
    "opn (snd (pool_stop B s)) = leaked opn s" "minSize (fst (pool_stop B s)) = minSize (fst s)"
    "maxSize (fst (pool_stop B s)) = maxSize (fst s)"
proof -
  let ?s = "((fst s)\<lparr>p_running := False\<rparr>, snd s)" let ?n = "length (entries (fst s))"
  have ok: "pool_ok opn ?s" using assms(1) by (simp add: pool_ok_def)
  have "pool_ok opn (fold (closeEntry B) [0..<k] ?s) \<and> leaked opn (fold (closeEntry B) [0..<k] ?s) = leaked opn ?s
      \<and> length (entries (fst (fold (closeEntry B) [0..<k] ?s))) = ?n
      \<and> same_pool ?s (fold (closeEntry B) [0..<k] ?s)
      \<and> (\<forall>j < k. e_conn (entries (fst (fold (closeEntry B) [0..<k] ?s)) ! j) = None)" if "k \<le> ?n" for k
    using that
  proof (induction k)
    case 0
    with ok show ?case by simp
  next
    case (Suc k)
    let ?t = "fold (closeEntry B) [0..<k] ?s"
    have t: "pool_ok opn ?t" "k < length (entries (fst ?t))" using Suc by auto
    note c = closeEntry_step [OF t]
    have "e_conn (entries (fst (closeEntry B k ?t)) ! j) = None" if "j < Suc k" for j
      using that c(6,8) Suc by (cases "j = k") auto
    with c Suc show ?case by (auto intro: same_pool_trans)
  qed
  from this [of ?n] have f: "leaked opn (fold (closeEntry B) [0..<?n] ?s) = leaked opn ?s"
      "owned (entries (fst (fold (closeEntry B) [0..<?n] ?s))) = {}"
      "same_pool ?s (fold (closeEntry B) [0..<?n] ?s)"
    by (auto simp: owned_def)
  then show "entries (fst (pool_stop B s)) = []" "\<not> p_running (fst (pool_stop B s))"
      "opn (snd (pool_stop B s)) = leaked opn s" "minSize (fst (pool_stop B s)) = minSize (fst s)"
      "maxSize (fst (pool_stop B s)) = maxSize (fst s)"
    using assms(2) by (simp_all add: pool_stop_def Let_def leaked_def same_pool_def)
qed

lemma health_step:
  assumes "pool_ok opn s"
    and "\<And>i t. pool_ok opn t \<Longrightarrow> i < length (entries (fst t)) \<Longrightarrow> keeps opn t (check B now i t)"
    and "healthLoop check B now s = Again s'"
  shows "keeps opn s s'"
proof -
  let ?is = "[0..<length (entries (fst s))]" let ?t = "fold (check B now) ?is s"
  have k: "keeps opn s ?t"
    using fold_keeps [where f = "check B now" and js = ?is, OF assms(2) assms(1)] by simp
  then have "\<forall>i \<in> set ?is. i < length (entries (fst ?t))" by (simp add: keeps_def)
  then have "keeps opn ?t (close_idle B now ?is (int (open_count (fst ?t))) ?t)"
    using close_idle_step [OF keeps_ok [OF k]] by simp
  with k show ?thesis
    using assms(3) keeps_trans [OF k] by (simp add: healthLoop_def Let_def split: if_splits)
qed

end

section \<open>The contract towards the users of a pool\<close>

text \<open>
  What a user of a pool relies on: acquiring lends a connection that is not lent, releasing
  takes it back, and both keep the pool's invariant. A use between the two that leaves the
  pool alone is balanced.
\<close>

locale lending =
  fixes inv :: "'s \<Rightarrow> bool" and out :: "'s \<Rightarrow> (nat \<times> conn) set"
    and acq :: "'s \<Rightarrow> Guard option \<times> 's" and rel :: "Guard \<Rightarrow> 's \<Rightarrow> 's"
  assumes acq_none: "inv s \<Longrightarrow> acq s = (None, s') \<Longrightarrow> inv s' \<and> out s' = out s"
    and acq_some: "inv s \<Longrightarrow> acq s = (Some g, s') \<Longrightarrow>
          inv s' \<and> out s' = insert (g_index g, g_conn g) (out s) \<and> g_index g \<notin> fst ` out s"
    and rel_back: "inv s \<Longrightarrow> inv (rel g s) \<and> out (rel g s) = {x \<in> out s. fst x \<noteq> g_index g}"
begin

lemma balanced:
  assumes "inv s" "acq s = (Some g, s')" "inv t" "out t = out s'" "g_index g' = g_index g"
  shows "inv (rel g' t) \<and> out (rel g' t) = out s"
proof -
  note a = acq_some [OF assms(1,2)] and r = rel_back [OF assms(3), of g']
  have "fst x \<noteq> g_index g" if "x \<in> out s" for x using a that by (metis image_eqI)
  then have "{x \<in> insert (g_index g, g_conn g) (out s). fst x \<noteq> g_index g} = out s" by auto
  with a r assms(4,5) show ?thesis by simp
qed

end

locale timed_backend = pool_backend B opn
  for B :: "('cfg, 'w) backend" and opn :: "'w \<Rightarrow> conn set" + fixes now :: int

sublocale timed_backend \<subseteq> uses: lending "pool_ok opn" lent "acquire B now []" "guard_release B now"
proof
  fix s s'
  assume "pool_ok opn s" "acquire B now [] s = (None, s')"
  from acquire_step [OF this] show "pool_ok opn s' \<and> lent s' = lent s" by simp
next
  fix s g s'
  assume "pool_ok opn s" "acquire B now [] s = (Some g, s')"
  from acquire_step [OF this] obtain t where "pool_ok opn s'" "lends opn t g s'" "lent t = lent s"
    by auto
  then show "pool_ok opn s' \<and> lent s' = insert (g_index g, g_conn g) (lent s) \<and> g_index g \<notin> fst ` lent s"
    unfolding lends_def by simp
next
  fix s :: "('cfg, 'w) pw" and g
  assume "pool_ok opn s"
  from release_step [OF this, of now "g_index g" "g_healthy g"]
  show "pool_ok opn (guard_release B now g s) \<and> lent (guard_release B now g s) = {x \<in> lent s. fst x \<noteq> g_index g}"
    by (simp add: guard_release_def)
qed

context timed_backend
begin

lemma scoped_use:
  assumes "pool_ok opn s" "acquire B now [] s = (Some g, s')" "pool_ok opn t" "lent t = lent s'"
    and "g_index g' = g_index g"
  shows "pool_ok opn (guard_release B now g' t) \<and> lent (guard_release B now g' t) = lent s"
  using assms by (rule uses.balanced)

end

text \<open>The documented behaviour of a client library, and the backends it gives.\<close>

locale client_laws =
  fixes C :: "('a, 'w) client" and opn :: "'w \<Rightarrow> conn set"
  assumes c_init: "cl_connect C a w = (InitFailed, w') \<Longrightarrow> opn w' = opn w"
    and c_fail: "cl_connect C a w = (ConnectFailed, w') \<Longrightarrow> opn w' = opn w"
    and c_new: "cl_connect C a w = (Connected c, w') \<Longrightarrow> c \<notin> opn w \<and> opn w' = insert c (opn w)"
    and c_ping: "cl_ping C c w = (b, w') \<Longrightarrow> opn w' = opn w"
    and c_close: "opn (cl_close C c w) = opn w - {c}"

locale mysql_client = client_laws C opn
  for C :: "(MysqlConfig \<times> int \<times> int, 'w) client" and opn :: "'w \<Rightarrow> conn set"

locale redis_client = client_laws C opn
  for C :: "(string, 'w) client" and opn :: "'w \<Rightarrow> conn set"

sublocale mysql_client \<subseteq> my: pool_backend "mysql_backend C" opn
  by unfold_locales (auto simp: mysql_backend_def c_init c_fail c_new c_ping c_close)

sublocale redis_client \<subseteq> rd: pool_backend "redis_backend C" opn
  by unfold_locales (auto simp: redis_backend_def c_init c_fail c_new c_ping c_close)

text \<open>A server that accepts and answers while it is up: the next handle, the open ones, and whether it is up.\<close>

definition sim_client :: "('a, nat \<times> conn set \<times> bool) client" where
  "sim_client =
    \<lparr>cl_connect = (\<lambda>a (n, hs, up). if up then (Connected n, (Suc n, insert n hs, up)) else (ConnectFailed, (n, hs, up))),
     cl_ping = (\<lambda>c (n, hs, up). (up \<and> c \<in> hs, (n, hs, up))),
     cl_errno = (\<lambda>c (n, hs, up). c \<notin> hs),
     cl_close = (\<lambda>c (n, hs, up). (n, hs - {c}, up))\<rparr>"

definition sim_open :: "nat \<times> conn set \<times> bool \<Rightarrow> conn set" where
  "sim_open w = (case w of (n, hs, up) \<Rightarrow> {c \<in> hs. c < n})"

interpretation sim_my: mysql_client sim_client sim_open
  by unfold_locales (auto simp: sim_client_def sim_open_def split: prod.splits if_splits)

interpretation sim_rd: redis_client sim_client sim_open
  by unfold_locales (auto simp: sim_client_def sim_open_def split: prod.splits if_splits)

text \<open>
  The life of a pool: started, connections taken and given back (any guard, healthy or not,
  at any time), health checks, stopped, in any order. \<open>check\<close> is the class's own check.
\<close>

inductive pool_life ::
  "(('cfg, 'w) backend \<Rightarrow> int \<Rightarrow> nat \<Rightarrow> ('cfg, 'w) pw \<Rightarrow> ('cfg, 'w) pw) \<Rightarrow> ('cfg, 'w) backend \<Rightarrow> ('cfg, 'w) pw
     \<Rightarrow> ('cfg, 'w) pw \<Rightarrow> bool" for check B s0 where
  new: "pool_life check B s0 s0"
| start: "pool_life check B s0 s \<Longrightarrow> pool_life check B s0 (pool_start B now s)"
| take: "pool_life check B s0 s \<Longrightarrow> acquire B now [] s = (g, s') \<Longrightarrow> pool_life check B s0 s'"
| give: "pool_life check B s0 s \<Longrightarrow> pool_life check B s0 (guard_release B now g s)"
| health: "pool_life check B s0 s \<Longrightarrow> healthLoop check B now s = Again s' \<Longrightarrow> pool_life check B s0 s'"
| stop: "pool_life check B s0 s \<Longrightarrow> pool_life check B s0 (pool_stop B s)"

lemma same_pool_running: "same_pool s t \<Longrightarrow> p_running (fst t) = p_running (fst s)"
  by (simp add: same_pool_def)

context pool_backend
begin

definition rests :: "('cfg, 'w) pw \<Rightarrow> bool" where
  "rests s \<longleftrightarrow> (\<not> p_running (fst s) \<longrightarrow> entries (fst s) = [])"

lemma start_life:
  assumes "pool_ok opn s" "rests s"
  shows "pool_ok opn (pool_start B now s)" "leaked opn (pool_start B now s) = leaked opn s" "rests (pool_start B now s)"
proof -
  let ?s = "((fst s)\<lparr>p_running := True\<rparr>, snd s)"
  have "pool_ok opn (pool_start B now s) \<and> leaked opn (pool_start B now s) = leaked opn s \<and> rests (pool_start B now s)"
  proof (cases "p_running (fst s)")
    case False
    have "pool_ok opn ?s" "leaked opn ?s = leaked opn s" "entries (fst ?s) = []"
      using assms False by (auto simp: pool_ok_def leaked_def rests_def)
    with start_step [of ?s "nat (minSize (fst s))" now] False show ?thesis
      by (auto simp: pool_start_def rests_def dest: same_pool_running)
  qed (use assms in \<open>simp add: pool_start_def\<close>)
  then show "pool_ok opn (pool_start B now s)" "leaked opn (pool_start B now s) = leaked opn s"
      "rests (pool_start B now s)" by auto
qed

lemma acquire_idle: "\<not> p_running (fst s) \<Longrightarrow> acquire B now ms s = (None, s)"
  by (simp add: acquire.simps)

lemma attempt_running:
  "acquire B now [] s = (g, s') \<Longrightarrow> pool_ok opn s \<Longrightarrow> p_running (fst s') = p_running (fst s)"
  using acquire_outcome [of now "[]" s g s'] attempt_step [of s now]
  by (cases "attempt B now s") (fastforce dest: same_pool_running)

text \<open>A check that loses nothing makes a life that loses nothing.\<close>

lemma life_ok:
  assumes "\<And>now i t. pool_ok opn t \<Longrightarrow> i < length (entries (fst t)) \<Longrightarrow> keeps opn t (check B now i t)"
    and "pool_ok opn s0" "rests s0" "pool_life check B s0 s"
  shows "pool_ok opn s \<and> leaked opn s = leaked opn s0 \<and> rests s"
  using assms(4)
proof induction
  case (take s now g s')
  then show ?case
    using acquire_step [of s now "[]" g s'] attempt_running [of now s g s'] acquire_idle [of s now "[]"]
    by (auto simp: rests_def)
next
  case (give s now g)
  then show ?case
    using release_step [of s now "g_index g" "g_healthy g"]
    by (auto simp: guard_release_def rests_def dest: same_pool_running)
next
  case (health s now s')
  then have "keeps opn s s'" using health_step [of s check now s'] assms(1) by blast
  with health show ?case by (auto simp: keeps_def rests_def dest: same_pool_running)
next
  case (stop s)
  then show ?case
  proof (cases "p_running (fst s)")
    case True
    with stop have "pool_ok opn s" "leaked opn s = leaked opn s0" by auto
    with True stop_step [of s] show ?thesis
      by (simp add: rests_def leaked_def pool_ok_def)
  qed (simp add: pool_stop_def)
qed (use assms start_life in auto)

end

lemma pool_new_ok:
  "opn w = {} \<Longrightarrow> pool_ok opn (pool_new cfg mn mx ct rt hc ttl m, w)"
  "opn w = {} \<Longrightarrow> leaked opn (pool_new cfg mn mx ct rt hc ttl m, w) = {}"
  "p_running (pool_new cfg mn mx ct rt hc ttl m) = False" "entries (pool_new cfg mn mx ct rt hc ttl m) = []"
  by (simp_all add: pool_new_def pool_ok_def leaked_def)

context redis_client
begin

lemma redis_life:
  assumes "opn w = {}" "pool_life redis_check (redis_backend C) (pool_new cfg mn mx ct rt hc ttl m, w) s"
  shows "pool_ok opn s \<and> leaked opn s = {} \<and> rd.rests s"
  using rd.life_ok [OF rd.redis_check_keeps pool_new_ok(1) _ assms(2)] assms(1)
  by (simp add: pool_new_ok rd.rests_def)

lemma with_redis_balanced:
  assumes "pool_ok opn s" "\<And>c w r w'. cmd c w = (r, w') \<Longrightarrow> opn w' = opn w"
    and "with_redis C now [] cmd s = (r, s')"
  shows "pool_ok opn s' \<and> leaked opn s' = leaked opn s \<and> lent s' = lent s"
proof -
  obtain g t where t: "acquire (redis_backend C) now [] s = (g, t)"
    by (cases "acquire (redis_backend C) now [] s")
  note aq = rd.acquire_step [OF assms(1) t]
  show ?thesis
  proof (cases g)
    case None
    with aq t assms(3) show ?thesis by (simp add: with_redis_def)
  next
    case (Some g')
    obtain p w where pw: "t = (p, w)" by (cases t)
    obtain v w' where c: "cmd (g_conn g') w = (v, w')" by (cases "cmd (g_conn g') w")
    obtain q g2 where s': "s' = guard_release (redis_backend C) now g2 (q, w')" "g_index g2 = g_index g'"
        "entries q = entries p" "minSize q = minSize p" "maxSize q = maxSize p"
      using assms(3) t Some pw c
      by (cases v) (auto simp: with_redis_def markUnhealthy_def)
    have k: "pool_ok opn (q, w')" "leaked opn (q, w') = leaked opn t" "lent (q, w') = lent t"
      using aq assms(2) [OF c] by (simp_all add: pw s'(3-5) pool_ok_def leaked_def lent_def)
    have tb: "timed_backend (redis_backend C) opn" by unfold_locales
    have "pool_ok opn s' \<and> lent s' = lent s"
      unfolding s'(1)
      by (rule timed_backend.scoped_use [OF tb assms(1) t [unfolded Some] k(1,3) s'(2)])
    moreover have "leaked opn s' = leaked opn s"
      using rd.release_step(2) [OF k(1)] k(2) aq by (simp add: s'(1) guard_release_def)
    ultimately show ?thesis by simp
  qed
qed

end

context redis_client
begin

lemma redis_round:
  assumes "pool_ok opn s" "healthLoop redis_check (redis_backend C) now s = Again s'"
    and "t = fold (redis_check (redis_backend C) now) [0..<length (entries (fst s))] s"
  shows "keeps opn s s' \<and> min (int (open_count (fst t))) (minSize (fst s)) \<le> int (open_count (fst s'))"
proof -
  let ?is = "[0..<length (entries (fst s))]"
  have k: "keeps opn s t"
    unfolding assms(3) using rd.fold_keeps [where js = ?is, OF rd.redis_check_keeps assms(1)] by simp
  then have "\<forall>i \<in> set ?is. i < length (entries (fst t))" "minSize (fst t) = minSize (fst s)"
    by (simp_all add: keeps_def same_pool_def)
  moreover have "s' = close_idle (redis_backend C) now ?is (int (open_count (fst t))) t"
    using assms(2,3) by (simp add: healthLoop_def Let_def split: if_splits)
  ultimately show ?thesis
    using rd.close_idle_step [OF keeps_ok [OF k], of ?is _ now] rd.health_step [OF assms(1) rd.redis_check_keeps assms(2)]
    by simp
qed

end

context mysql_client
begin

lemmas mysql_acquire = my.acquire_step
lemmas mysql_checked = my.mysql_check_step [unfolded my.lost_by_check_def]
lemmas mysql_stopped = my.stop_step

end

lemma lent_functional:
  assumes "pool_ok opn s" "(i, c) \<in> lent s" "(j, c) \<in> lent s"
  shows "i = j"
  using assms entries_ok_inj [of "entries (fst s)" i j c] by (auto simp: lent_def ledger_def pool_ok_def)

section \<open>Properties\<close>

text \<open>
  Whatever the order of starting, taking, giving back, health checks and stopping, and
  whatever the server does: the Redis pool never has more entries than its maximum, the
  open handles are exactly those its entries own (none leaks, no entry keeps a closed one),
  a healthy or lent entry has a handle, no handle is lent twice, and a stopped pool leaves
  none open.
\<close>

theorem redis_pool_safe:
  assumes "redis_client C opn" "opn w = {}"
    and "pool_life redis_check (redis_backend C) (pool_new uri mn mx ct rt hc ttl m, w) s"
  shows "int (length (entries (fst s))) \<le> maxSize (fst s)
     \<and> opn (snd s) = owned (entries (fst s))
     \<and> entries_ok (entries (fst s))
     \<and> (\<forall>i j c. (i, c) \<in> lent s \<longrightarrow> (j, c) \<in> lent s \<longrightarrow> i = j)
     \<and> (\<not> p_running (fst s) \<longrightarrow> opn (snd s) = {})"
proof -
  have l: "pool_ok opn s" "leaked opn s = {}" "pool_backend.rests s"
    using redis_client.redis_life [OF assms] by simp_all
  have "pool_backend (redis_backend C) opn"
    using assms(1) by (auto simp: redis_client_def client_laws_def pool_backend_def redis_backend_def)
  then have "\<not> p_running (fst s) \<longrightarrow> entries (fst s) = []"
    using l(3) by (simp add: pool_backend.rests_def)
  with l lent_functional [OF l(1)] show ?thesis
    by (auto simp: pool_ok_def leaked_def)
qed

text \<open>A pool of one to two connections on the simulated server, started, with one connection taken.\<close>

definition demo_redis :: "(string, nat \<times> conn set \<times> bool) pw" where
  "demo_redis = (pool_new ''tcp://redis'' 1 2 100 100 5 60 None, (0, {}, True))"

definition demo_redis_lent :: "(string, nat \<times> conn set \<times> bool) pw" where
  "demo_redis_lent = snd (acquire (redis_backend sim_client) 1 [] (pool_start (redis_backend sim_client) 0 demo_redis))"

text \<open>A MySQL pool with one idle entry that was given back after an error, with handle 7.\<close>

definition demo_mysql :: "(MysqlConfig, nat \<times> conn set \<times> bool) pw" where
  "demo_mysql =
     ((pool_new (loadMysqlConfigFromEnv (\<lambda>_. None)) 1 2 100 100 5 60 None)\<lparr>p_running := True,
        entries := [\<lparr>e_conn = Some 7, inUse = False, healthy = False, failures = 1, lastUsed = 0\<rparr>]\<rparr>,
      (8, {7}, True))"

lemma demo_mysql_ok: "pool_ok sim_open demo_mysql" "lent demo_mysql = {}" "p_running (fst demo_mysql)"
  by (auto simp: demo_mysql_def pool_ok_def entries_ok_def owned_def sim_open_def lent_def ledger_def pool_new_def
      intro!: gr0I)

lemma demo_redis_life: "pool_life redis_check (redis_backend sim_client) demo_redis demo_redis_lent"
proof -
  let ?B = "redis_backend sim_client" let ?s = "pool_start ?B 0 demo_redis"
  have "acquire ?B 1 [] ?s = (fst (acquire ?B 1 [] ?s), snd (acquire ?B 1 [] ?s))" by simp
  from pool_life.take [OF pool_life.start [OF pool_life.new] this] show ?thesis
    by (simp add: demo_redis_lent_def)
qed

lemma demo_redis_ok: "pool_ok sim_open demo_redis_lent"
  using sim_rd.redis_life [of "snd demo_redis" "''tcp://redis''" 1 2 100 100 5 60 None demo_redis_lent] demo_redis_life
  by (simp add: demo_redis_def sim_open_def)

lemma demo_redis_running: "p_running (fst demo_redis_lent)"
  by (simp add: demo_redis_lent_def demo_redis_def acquire.simps attempt_def lend_def pool_new_def pool_start_def
      add_idle_def connect_def redis_backend_def sim_client_def set_entry_def new_entry_def p_bump_def)

theorem redis_pool_safe_witness:
  "sim_open (snd demo_redis) = {}
     \<and> int (length (entries (fst demo_redis_lent))) \<le> maxSize (fst demo_redis_lent)
     \<and> sim_open (snd demo_redis_lent) = owned (entries (fst demo_redis_lent))"
  using redis_pool_safe [OF sim_rd.redis_client_axioms, of "snd demo_redis" "''tcp://redis''" 1 2 100 100 5 60 None demo_redis_lent]
    demo_redis_life
  by (simp add: demo_redis_def sim_open_def)

text \<open>
  C35: Acquiring from the MySQL pool, with whatever the other threads do to it in the
  meantime (each keeping the pool's invariant): the invariant holds after it, nothing leaks,
  and a connection is only handed out from a state in which its entry was idle and the
  connection not lent; it is open, and recorded as lent.
\<close>

theorem mysql_acquire_exclusive:
  fixes opn :: "'w \<Rightarrow> conn set"
  assumes "mysql_client C opn" "pool_ok opn s" "list_all (tame opn) wakeups"
    and "acquire (mysql_backend C) now wakeups s = (Some g, s')"
  shows "pool_ok opn s' \<and> leaked opn s' = leaked opn s \<and> g_conn g \<in> opn (snd s')
     \<and> (\<exists>t :: (MysqlConfig, 'w) pw. g_index g \<notin> fst ` lent t \<and> g_conn g \<notin> snd ` lent t
          \<and> lent s' = insert (g_index g, g_conn g) (lent t) \<and> (wakeups = [] \<longrightarrow> lent t = lent s))"
proof -
  obtain t where "pool_ok opn s'" "leaked opn s' = leaked opn s" "lends opn t g s'" "wakeups = [] \<longrightarrow> lent t = lent s"
    using mysql_client.mysql_acquire [OF assms(1,2,4,3)] by auto
  then show ?thesis unfolding lends_def by (intro conjI exI [of _ t]) simp_all
qed

theorem mysql_acquire_exclusive_witness:
  "\<exists>g s'. acquire (mysql_backend sim_client) 0 [] demo_mysql = (Some g, s') \<and> g_conn g \<in> sim_open (snd s')
     \<and> lent s' = {(g_index g, g_conn g)}"
proof -
  let ?B = "mysql_backend sim_client"
  obtain g s' where a: "acquire ?B 0 [] demo_mysql = (Some g, s')"
    by (simp add: demo_mysql_def acquire.simps attempt_def ensureHealthy_def pool_new_def lend_def mysql_backend_def
        sim_client_def set_entry_def)
  from mysql_acquire_exclusive [OF sim_my.mysql_client_axioms demo_mysql_ok(1) _ a] a demo_mysql_ok(2) show ?thesis by auto
qed

text \<open>
  The health check of the MySQL pool loses a handle: an idle entry that is unhealthy
  but still has one (every connection given back after an error) gets a new connection
  without the old one being closed. The handle stays open on the client side and no entry
  owns it any more; stopping the pool does not close it either.
\<close>

theorem mysql_check_leaks:
  assumes "mysql_client C opn" "pool_ok opn s" "i < length (entries (fst s))"
    and "\<not> inUse (entries (fst s) ! i)" "\<not> healthy (entries (fst s) ! i)" "e_conn (entries (fst s) ! i) = Some c"
    and "p_running (fst s)"
  shows "c \<in> leaked opn (mysql_check (mysql_backend C) now i s)
     \<and> c \<in> opn (snd (pool_stop (mysql_backend C) (mysql_check (mysql_backend C) now i s)))"
proof -
  let ?t = "mysql_check (mysql_backend C) now i s"
  note t = mysql_client.mysql_checked [OF assms(1,2,3), of now]
  have "c \<in> leaked opn ?t" using t(2) assms(4-6) by simp
  moreover have "p_running (fst ?t)" using t(5) assms(7) by (simp add: same_pool_def)
  ultimately show ?thesis using mysql_client.mysql_stopped(3) [OF assms(1) t(1)] by simp
qed

theorem mysql_check_leaks_witness:
  "7 \<in> leaked sim_open (mysql_check (mysql_backend sim_client) 0 0 demo_mysql)"
  using mysql_check_leaks [OF sim_my.mysql_client_axioms demo_mysql_ok(1), of 0 7 0]
  by (simp add: demo_mysql_def)

text \<open>
  C28: The Redis cache gives back what it takes: after \<open>set\<close> or \<open>get\<close>, answered or failed,
  the pool is well-formed, the same connections are lent as before and nothing leaked.
\<close>

theorem redis_cache_balanced:
  assumes "redis_client C opn" "pool_ok opn s"
    and "\<And>c k n v w r w'. setex c k n v w = (r, w') \<Longrightarrow> opn w' = opn w"
    and "\<And>c k w r w'. getk c k w = (r, w') \<Longrightarrow> opn w' = opn w"
    and "t = snd (RedisCache_set C setex ttl now [] key v (Some s)) \<or> t = snd (RedisCache_get C getk now [] key (Some s))"
  shows "\<exists>s'. t = Some s' \<and> pool_ok opn s' \<and> leaked opn s' = leaked opn s \<and> lent s' = lent s"
  using assms(5)
proof
  assume t: "t = snd (RedisCache_set C setex ttl now [] key v (Some s))"
  obtain r s' where w: "with_redis C now [] (\<lambda>c. setex c key ttl v) s = (r, s')"
    by (cases "with_redis C now [] (\<lambda>c. setex c key ttl v) s")
  with redis_client.with_redis_balanced [OF assms(1,2,3) w] t show ?thesis by (simp add: RedisCache_set_def)
next
  assume t: "t = snd (RedisCache_get C getk now [] key (Some s))"
  obtain r s' where w: "with_redis C now [] (\<lambda>c. getk c key) s = (r, s')"
    by (cases "with_redis C now [] (\<lambda>c. getk c key) s")
  with redis_client.with_redis_balanced [OF assms(1,2,4) w] t show ?thesis by (simp add: RedisCache_get_def)
qed

theorem redis_cache_balanced_witness:
  "\<exists>s'. snd (RedisCache_get sim_client (\<lambda>c k w. (Some (Some k), w)) 0 [] ''score'' (Some demo_redis)) = Some s'
     \<and> lent s' = {}"
proof -
  have "pool_ok sim_open demo_redis" and l: "lent demo_redis = {}"
    by (simp_all add: demo_redis_def pool_new_ok sim_open_def lent_def ledger_def)
  then have "\<exists>s'. snd (RedisCache_get sim_client (\<lambda>c k w. (Some (Some k), w)) 0 [] ''score'' (Some demo_redis)) = Some s'
      \<and> pool_ok sim_open s' \<and> leaked sim_open s' = leaked sim_open demo_redis \<and> lent s' = lent demo_redis"
    by (intro redis_cache_balanced [where setex = "\<lambda>c k n v w. (None, w)" and getk = "\<lambda>c k w. (Some (Some k), w)"
            and now = 0 and key = "''score''", OF sim_rd.redis_client_axioms _ _ _ disjI2 [OF refl]]) simp_all
  then show ?thesis using l by metis
qed

text \<open>
  A round of the Redis health loop never closes below the minimum: when the checks
  left at least the minimum of connections open, at least that many stay open, and the
  connections lent out are untouched.
\<close>

theorem redis_health_minimum:
  assumes "redis_client C opn" "pool_ok opn s" "healthLoop redis_check (redis_backend C) now s = Again s'"
    and "checked = fold (redis_check (redis_backend C) now) [0..<length (entries (fst s))] s"
  shows "lent s' = lent s \<and> leaked opn s' = leaked opn s
     \<and> (minSize (fst s) \<le> int (open_count (fst checked)) \<longrightarrow> minSize (fst s) \<le> int (open_count (fst s')))"
  using redis_client.redis_round [OF assms] by (auto simp: keeps_def)

theorem redis_health_minimum_witness:
  "\<exists>s'. healthLoop redis_check (redis_backend sim_client) 9 demo_redis_lent = Again s' \<and> lent s' = lent demo_redis_lent"
proof -
  obtain s' where "healthLoop redis_check (redis_backend sim_client) 9 demo_redis_lent = Again s'"
    using demo_redis_running by (simp add: healthLoop_def Let_def)
  with redis_health_minimum [OF sim_rd.redis_client_axioms demo_redis_ok this refl] show ?thesis by blast
qed

end
