(* ===== verification/Mysql_Write.thy ===== *)
theory Mysql_Write
  imports Host_Manager
begin

text \<open>
  \<open>HostManager::writeToMysql\<close> (\<open>HostManager.cpp\<close>): the rows one record of monitoring data
  becomes, and the samples kept per host and device from which the next rows take their
  rates. A row has its column names and its values as two lists, as the \<open>INSERT\<close> text has
  them. The formatting of floating values and of the local time is a parameter, and so is
  the escaping of the client library. The result of a statement is only logged by the code,
  so the statements are the outcome.
\<close>

section \<open>Statements\<close>

datatype sql_value = SqlText string | SqlFp fp | SqlU32 u32 | SqlU64 u64 | SqlFlag bool | SqlNull

record Insert =
  i_table :: string
  i_columns :: "string list"
  i_values :: "sql_value list"

fun join_with :: "string \<Rightarrow> string list \<Rightarrow> string" where
  "join_with sep [] = []"
| "join_with sep [x] = x"
| "join_with sep (x # xs) = x @ sep @ join_with sep xs"

fun sql_literal :: "(string \<Rightarrow> string) \<Rightarrow> (fp \<Rightarrow> string) \<Rightarrow> sql_value \<Rightarrow> string" where
  "sql_literal escape show_fp (SqlText s) = quoteSqlString escape s"
| "sql_literal escape show_fp (SqlFp x) = show_fp x"
| "sql_literal escape show_fp (SqlU32 n) = show_nat (unat n)"
| "sql_literal escape show_fp (SqlU64 n) = show_nat (unat n)"
| "sql_literal escape show_fp (SqlFlag b) = (if b then ''1'' else ''0'')"
| "sql_literal escape show_fp SqlNull = ''NULL''"

definition sql_text :: "(string \<Rightarrow> string) \<Rightarrow> (fp \<Rightarrow> string) \<Rightarrow> Insert \<Rightarrow> string" where
  "sql_text escape show_fp r =
     ''INSERT INTO '' @ i_table r @ '' ('' @ join_with '', '' (i_columns r) @ '') VALUES (''
     @ join_with '','' (map (sql_literal escape show_fp) (i_values r)) @ '')''"

text \<open>The columns every table starts with, and their values.\<close>

definition scope_columns :: "string list" where
  "scope_columns = [''tenant_id'', ''team_id'', ''cluster_id'', ''server_id'', ''server_name'']"

definition scope_values :: "HostMonitoringData \<Rightarrow> sql_value list" where
  "scope_values data =
     [SqlText (tenant_id (hd_scope data)), SqlText (team_id (hd_scope data)), SqlText (cluster_id (hd_scope data)),
      (if server_id (hd_scope data) = 0 then SqlNull else SqlU64 (server_id (hd_scope data))),
      SqlText (hd_host_name data)]"

text \<open>A row of a table for a record: its own columns and values between the scope and the time.\<close>

definition insert_row ::
  "(int \<Rightarrow> string) \<Rightarrow> HostMonitoringData \<Rightarrow> string \<Rightarrow> string list \<Rightarrow> sql_value list \<Rightarrow> Insert" where
  "insert_row fmt_time data table cols vals =
     \<lparr>i_table = table, i_columns = scope_columns @ cols @ [''timestamp''],
      i_values = scope_values data @ vals @ [SqlText (fmt_time (hs_timestamp (hd_host_score data)))]\<rparr>"

section \<open>Samples\<close>

record NetDetailedSample =
  nd_net_recv_bytes_rate :: fp
  nd_net_send_bytes_rate :: fp
  nd_net_recv_packets_rate :: fp
  nd_net_send_packets_rate :: fp
  nd_err_in :: u64
  nd_err_out :: u64
  nd_drop_in :: u64
  nd_drop_out :: u64

definition zero_NetDetailedSample :: NetDetailedSample where
  "zero_NetDetailedSample =
    \<lparr>nd_net_recv_bytes_rate = Fin 0, nd_net_send_bytes_rate = Fin 0, nd_net_recv_packets_rate = Fin
     0, nd_net_send_packets_rate = Fin 0, nd_err_in = 0, nd_err_out = 0, nd_drop_in = 0, nd_drop_out
     = 0\<rparr>"

record SoftIrqSample =
  sq_hi :: fp
  sq_timer :: fp
  sq_net_tx :: fp
  sq_net_rx :: fp
  sq_block :: fp
  sq_irq_poll :: fp
  sq_tasklet :: fp
  sq_sched :: fp
  sq_hrtimer :: fp
  sq_rcu :: fp

definition zero_SoftIrqSample :: SoftIrqSample where
  "zero_SoftIrqSample =
    \<lparr>sq_hi = Fin 0, sq_timer = Fin 0, sq_net_tx = Fin 0, sq_net_rx = Fin 0, sq_block = Fin 0,
     sq_irq_poll = Fin 0, sq_tasklet = Fin 0, sq_sched = Fin 0, sq_hrtimer = Fin 0, sq_rcu = Fin 0\<rparr>"

record MemDetailSample =
  md_total :: fp
  md_free :: fp
  md_avail :: fp
  md_buffers :: fp
  md_cached :: fp
  md_swap_cached :: fp
  md_active :: fp
  md_inactive :: fp
  md_active_anon :: fp
  md_inactive_anon :: fp
  md_active_file :: fp
  md_inactive_file :: fp
  md_dirty :: fp
  md_writeback :: fp
  md_anon_pages :: fp
  md_mapped :: fp
  md_kreclaimable :: fp
  md_sreclaimable :: fp
  md_sunreclaim :: fp

definition zero_MemDetailSample :: MemDetailSample where
  "zero_MemDetailSample =
    \<lparr>md_total = Fin 0, md_free = Fin 0, md_avail = Fin 0, md_buffers = Fin 0, md_cached = Fin 0,
     md_swap_cached = Fin 0, md_active = Fin 0, md_inactive = Fin 0, md_active_anon = Fin 0,
     md_inactive_anon = Fin 0, md_active_file = Fin 0, md_inactive_file = Fin 0, md_dirty = Fin 0,
     md_writeback = Fin 0, md_anon_pages = Fin 0, md_mapped = Fin 0, md_kreclaimable = Fin 0,
     md_sreclaimable = Fin 0, md_sunreclaim = Fin 0\<rparr>"

record DiskDetailSample =
  dd_read_bytes_per_sec :: fp
  dd_write_bytes_per_sec :: fp
  dd_read_iops :: fp
  dd_write_iops :: fp
  dd_avg_read_latency_ms :: fp
  dd_avg_write_latency_ms :: fp
  dd_util_percent :: fp

definition zero_DiskDetailSample :: DiskDetailSample where
  "zero_DiskDetailSample =
    \<lparr>dd_read_bytes_per_sec = Fin 0, dd_write_bytes_per_sec = Fin 0, dd_read_iops = Fin 0,
     dd_write_iops = Fin 0, dd_avg_read_latency_ms = Fin 0, dd_avg_write_latency_ms = Fin 0,
     dd_util_percent = Fin 0\<rparr>"

record MysqlDetailSample =
  ms_questions :: u64
  ms_com_commit :: u64
  ms_com_rollback :: u64
  ms_slow_queries :: u64
  ms_innodb_row_lock_waits :: u64
  ms_timestamp :: int
  ms_initialized :: bool

definition zero_MysqlDetailSample :: MysqlDetailSample where
  "zero_MysqlDetailSample =
    \<lparr>ms_questions = 0, ms_com_commit = 0, ms_com_rollback = 0, ms_slow_queries = 0,
     ms_innodb_row_lock_waits = 0, ms_timestamp = 0, ms_initialized = False\<rparr>"

record RedisDetailSample =
  rs_total_commands_processed :: u64
  rs_total_net_input_bytes :: u64
  rs_total_net_output_bytes :: u64
  rs_slowlog_len :: u64
  rs_timestamp :: int
  rs_initialized :: bool

definition zero_RedisDetailSample :: RedisDetailSample where
  "zero_RedisDetailSample =
    \<lparr>rs_total_commands_processed = 0, rs_total_net_input_bytes = 0, rs_total_net_output_bytes = 0,
     rs_slowlog_len = 0, rs_timestamp = 0, rs_initialized = False\<rparr>"

text \<open>The samples of the last write, per host and device, and the function-local disk utilisation.\<close>

record Samples =
  lastDiskUtil :: "string \<rightharpoonup> fp"
  lastNetSamples :: "string \<times> string \<rightharpoonup> NetDetailedSample"
  lastSoftirqSamples :: "string \<times> string \<rightharpoonup> SoftIrqSample"
  lastMemSamples :: "string \<rightharpoonup> MemDetailSample"
  lastDiskSamples :: "string \<times> string \<rightharpoonup> DiskDetailSample"
  lastMysqlSamples :: "string \<times> string \<rightharpoonup> MysqlDetailSample"
  lastRedisSamples :: "string \<times> string \<rightharpoonup> RedisDetailSample"

definition no_samples :: Samples where
  "no_samples = \<lparr>lastDiskUtil = Map.empty, lastNetSamples = Map.empty, lastSoftirqSamples = Map.empty,
     lastMemSamples = Map.empty, lastDiskSamples = Map.empty, lastMysqlSamples = Map.empty,
     lastRedisSamples = Map.empty\<rparr>"

text \<open>\<open>m[k]\<close> of a \<open>std::map\<close> whose values start as \<open>d\<close>.\<close>

definition entry :: "'v \<Rightarrow> ('k \<rightharpoonup> 'v) \<Rightarrow> 'k \<Rightarrow> 'v" where
  "entry d m k = (case m k of None \<Rightarrow> d | Some v \<Rightarrow> v)"

section \<open>Rates\<close>

definition rateU64 :: "u64 \<Rightarrow> u64 \<Rightarrow> fp" where
  "rateU64 nowVal lastVal =
     (if lastVal = 0 then Fin 0 else fdiv f32 (f32_of_u64 (nowVal - lastVal)) (f32_of_u64 lastVal))"

definition counterRate :: "u64 \<Rightarrow> u64 \<Rightarrow> fp \<Rightarrow> fp" where
  "counterRate nowVal lastVal seconds =
     (if fle seconds (Fin 0) \<or> nowVal < lastVal then Fin 0
      else to_f32 (fdiv f64 (f64_of_u64 (nowVal - lastVal)) seconds))"

definition counterDelta :: "u64 \<Rightarrow> u64 \<Rightarrow> fp" where
  "counterDelta nowVal lastVal = (if nowVal < lastVal then Fin 0 else f32_of_u64 (nowVal - lastVal))"

definition elapsed_seconds :: "int \<Rightarrow> int \<Rightarrow> fp" where
  "elapsed_seconds now before = fdiv f64 (f64_of_int (now - before)) (Fin 1000000000)"

definition used_percent :: "u64 \<Rightarrow> u64 \<Rightarrow> fp" where
  "used_percent used limit =
     (if limit = 0 then Fin 0
      else fmul f32 (fdiv f32 (f32_of_u64 used) (f32_of_u64 limit)) (Fin 100))"

section \<open>The rows\<close>

text \<open>The main table. The values are the first ones of the report, zero where it has none.\<close>

definition perf_columns :: "string list" where
  "perf_columns =
    [''cpu_percent'', ''usr_percent'', ''system_percent'', ''nice_percent'', ''idle_percent'',
     ''io_wait_percent'', ''irq_percent'', ''soft_irq_percent'', ''load_avg_1'', ''load_avg_3'',
     ''load_avg_15'', ''mem_used_percent'', ''total'', ''free'', ''avail'', ''disk_util_percent'',
     ''send_rate'', ''rcv_rate'', ''score'', ''cpu_percent_rate'', ''usr_percent_rate'',
     ''system_percent_rate'', ''nice_percent_rate'', ''idle_percent_rate'',
     ''io_wait_percent_rate'', ''irq_percent_rate'', ''soft_irq_percent_rate'', ''load_avg_1_rate'',
     ''load_avg_3_rate'', ''load_avg_15_rate'', ''mem_used_percent_rate'', ''total_rate'',
     ''free_rate'', ''avail_rate'', ''disk_util_percent_rate'', ''send_rate_rate'',
     ''rcv_rate_rate'']"

definition perf_values :: "HostMonitoringData \<Rightarrow> fp \<Rightarrow> fp \<Rightarrow> sql_value list" where
  "perf_values data diskUtilPercent diskUtilPercentRate =
     (let info = hs_info (hd_host_score data);
          cpu = (case selectAggregateCpuStat info of None \<Rightarrow> default_CpuStat | Some c \<Rightarrow> c);
          ld = (case m_cpu_load info of None \<Rightarrow> default_CpuLoad | Some l \<Rightarrow> l);
          mm = (case m_mem_info info of None \<Rightarrow> default_MemInfo | Some x \<Rightarrow> x);
          nt = (case m_net_info info of [] \<Rightarrow> default_NetInfo | n # _ \<Rightarrow> n)
      in map SqlFp
          (map (\<lambda>f. f cpu) [cs_cpu_percent, cs_usr_percent, cs_system_percent, cs_nice_percent, cs_idle_percent,
             cs_io_wait_percent, cs_irq_percent, cs_soft_irq_percent]
           @ map (\<lambda>f. f ld) [cl_load_avg_1, cl_load_avg_3, cl_load_avg_15]
           @ map (\<lambda>f. f mm) [mi_used_percent, mi_total, mi_free, mi_avail]
           @ [diskUtilPercent, ni_send_rate nt, ni_rcv_rate nt, hs_score (hd_host_score data)]
           @ map (\<lambda>f. f data) [hd_cpu_percent_rate, hd_usr_percent_rate, hd_system_percent_rate, hd_nice_percent_rate,
             hd_idle_percent_rate, hd_io_wait_percent_rate, hd_irq_percent_rate,
             hd_soft_irq_percent_rate, hd_load_avg_1_rate, hd_load_avg_3_rate, hd_load_avg_15_rate,
             hd_mem_used_percent_rate, hd_mem_total_rate, hd_mem_free_rate, hd_mem_avail_rate]
           @ [diskUtilPercentRate, hd_net_in_rate_rate data, hd_net_out_rate_rate data]))"

definition disk_util_rate :: "(string \<rightharpoonup> fp) \<Rightarrow> string \<Rightarrow> fp \<Rightarrow> fp" where
  "disk_util_rate m host util =
     (case m host of None \<Rightarrow> Fin 0
      | Some l \<Rightarrow> if feq l (Fin 0) then Fin 0 else fdiv f32 (fsub f32 util l) l)"

definition perf_row :: "(int \<Rightarrow> string) \<Rightarrow> HostMonitoringData \<Rightarrow> Samples \<Rightarrow> Insert \<times> Samples" where
  "perf_row fmt_time data s =
     (let util = max_util (m_disk_info (hs_info (hd_host_score data)));
          rate = disk_util_rate (lastDiskUtil s) (hd_host_name data) util
      in (insert_row fmt_time data ''server_performance'' perf_columns (perf_values data util rate),
          s\<lparr>lastDiskUtil := (lastDiskUtil s)(hd_host_name data \<mapsto> util)\<rparr>))"

text \<open>The detail tables: one row per device, and the device's sample replaced.\<close>

definition net_columns :: "string list" where
  "net_columns =
    [''net_name'', ''err_in'', ''err_out'', ''drop_in'', ''drop_out'', ''rcv_bytes_rate'',
     ''rcv_packets_rate'', ''snd_bytes_rate'', ''snd_packets_rate'', ''rcv_bytes_rate_rate'',
     ''rcv_packets_rate_rate'', ''snd_bytes_rate_rate'', ''snd_packets_rate_rate'', ''err_in_rate'',
     ''err_out_rate'', ''drop_in_rate'', ''drop_out_rate'']"

definition net_sample :: "NetInfo \<Rightarrow> NetDetailedSample" where
  "net_sample n =
    \<lparr>nd_net_recv_bytes_rate = ni_rcv_rate n, nd_net_send_bytes_rate = ni_send_rate n,
     nd_net_recv_packets_rate = ni_rcv_packets_rate n, nd_net_send_packets_rate = ni_send_packets_rate n,
     nd_err_in = ni_err_in n, nd_err_out = ni_err_out n, nd_drop_in = ni_drop_in n, nd_drop_out = ni_drop_out n\<rparr>"

definition net_row :: "(int \<Rightarrow> string) \<Rightarrow> HostMonitoringData \<Rightarrow> NetInfo \<Rightarrow> Samples \<Rightarrow> Insert \<times> Samples" where
  "net_row fmt_time data n s =
     (let cur = net_sample n; key = (hd_host_name data, ni_name n);
          prev = entry zero_NetDetailedSample (lastNetSamples s) key;
          rates = [nd_net_recv_bytes_rate, nd_net_recv_packets_rate, nd_net_send_bytes_rate, nd_net_send_packets_rate];
          counters = [nd_err_in, nd_err_out, nd_drop_in, nd_drop_out]
      in (insert_row fmt_time data ''server_net_detail'' net_columns
           (SqlText (ni_name n) # map (\<lambda>f. SqlU64 (f cur)) counters @ map (\<lambda>f. SqlFp (f cur)) rates
            @ map (\<lambda>f. SqlFp (change_rate (f cur) (f prev))) rates
            @ map (\<lambda>f. SqlFp (rateU64 (f cur) (f prev))) counters),
          s\<lparr>lastNetSamples := (lastNetSamples s)(key \<mapsto> cur)\<rparr>))"

definition softirq_columns :: "string list" where
  "softirq_columns =
    [''cpu_name'', ''hi'', ''timer'', ''net_tx'', ''net_rx'', ''block'', ''irq_poll'', ''tasklet'',
     ''sched'', ''hrtimer'', ''rcu'', ''hi_rate'', ''timer_rate'', ''net_tx_rate'', ''net_rx_rate'',
     ''block_rate'', ''irq_poll_rate'', ''tasklet_rate'', ''sched_rate'', ''hrtimer_rate'',
     ''rcu_rate'']"

definition softirq_sample :: "SoftIrq \<Rightarrow> SoftIrqSample" where
  "softirq_sample q =
    \<lparr>sq_hi = si_hi q, sq_timer = si_timer q, sq_net_tx = si_net_tx q, sq_net_rx = si_net_rx q,
     sq_block = si_block q, sq_irq_poll = si_irq_poll q, sq_tasklet = si_tasklet q, sq_sched =
     si_sched q, sq_hrtimer = si_hrtimer q, sq_rcu = si_rcu q\<rparr>"

definition softirq_row :: "(int \<Rightarrow> string) \<Rightarrow> HostMonitoringData \<Rightarrow> SoftIrq \<Rightarrow> Samples \<Rightarrow> Insert \<times> Samples" where
  "softirq_row fmt_time data q s =
     (let cur = softirq_sample q; key = (hd_host_name data, si_cpu q);
          prev = entry zero_SoftIrqSample (lastSoftirqSamples s) key;
          fields = [sq_hi, sq_timer, sq_net_tx, sq_net_rx, sq_block, sq_irq_poll, sq_tasklet,
                    sq_sched, sq_hrtimer, sq_rcu]
      in (insert_row fmt_time data ''server_softirq_detail'' softirq_columns
           (SqlText (si_cpu q) # map (\<lambda>f. SqlFp (f cur)) fields
            @ map (\<lambda>f. SqlFp (change_rate (f cur) (f prev))) fields),
          s\<lparr>lastSoftirqSamples := (lastSoftirqSamples s)(key \<mapsto> cur)\<rparr>))"

definition mem_columns :: "string list" where
  "mem_columns =
    [''total'', ''free'', ''avail'', ''buffers'', ''cached'', ''swap_cached'', ''active'',
     ''inactive'', ''active_anon'', ''inactive_anon'', ''active_file'', ''inactive_file'',
     ''dirty'', ''writeback'', ''anon_pages'', ''mapped'', ''kreclaimable'', ''sreclaimable'',
     ''sunreclaim'', ''total_rate'', ''free_rate'', ''avail_rate'', ''buffers_rate'',
     ''cached_rate'', ''swap_cached_rate'', ''active_rate'', ''inactive_rate'',
     ''active_anon_rate'', ''inactive_anon_rate'', ''active_file_rate'', ''inactive_file_rate'',
     ''dirty_rate'', ''writeback_rate'', ''anon_pages_rate'', ''mapped_rate'',
     ''kreclaimable_rate'', ''sreclaimable_rate'', ''sunreclaim_rate'']"

definition mem_sample :: "MemInfo \<Rightarrow> MemDetailSample" where
  "mem_sample x =
    \<lparr>md_total = mi_total x, md_free = mi_free x, md_avail = mi_avail x, md_buffers = mi_buffers x,
     md_cached = mi_cached x, md_swap_cached = mi_swap_cached x, md_active = mi_active x,
     md_inactive = mi_inactive x, md_active_anon = mi_active_anon x, md_inactive_anon =
     mi_inactive_anon x, md_active_file = mi_active_file x, md_inactive_file = mi_inactive_file x,
     md_dirty = mi_dirty x, md_writeback = mi_writeback x, md_anon_pages = mi_anon_pages x,
     md_mapped = mi_mapped x, md_kreclaimable = mi_kReclaimable x, md_sreclaimable = mi_sReclaimable
     x, md_sunreclaim = mi_sUnreclaim x\<rparr>"

definition mem_row :: "(int \<Rightarrow> string) \<Rightarrow> HostMonitoringData \<Rightarrow> MemInfo \<Rightarrow> Samples \<Rightarrow> Insert \<times> Samples" where
  "mem_row fmt_time data x s =
     (let cur = mem_sample x; key = hd_host_name data;
          prev = entry zero_MemDetailSample (lastMemSamples s) key;
          fields = [md_total, md_free, md_avail, md_buffers, md_cached, md_swap_cached, md_active,
                    md_inactive, md_active_anon, md_inactive_anon, md_active_file, md_inactive_file,
                    md_dirty, md_writeback, md_anon_pages, md_mapped, md_kreclaimable,
                    md_sreclaimable, md_sunreclaim]
      in (insert_row fmt_time data ''server_mem_detail'' mem_columns
           (map (\<lambda>f. SqlFp (f cur)) fields @ map (\<lambda>f. SqlFp (change_rate (f cur) (f prev))) fields),
          s\<lparr>lastMemSamples := (lastMemSamples s)(key \<mapsto> cur)\<rparr>))"

definition disk_columns :: "string list" where
  "disk_columns =
    [''disk_name'', ''read_ops'', ''write_ops'', ''sectors_read'', ''sectors_written'',
     ''read_time_ms'', ''write_time_ms'', ''io_in_progress'', ''io_time_ms'',
     ''weighted_io_time_ms'', ''read_bytes_per_sec'', ''write_bytes_per_sec'', ''read_iops'',
     ''write_iops'', ''avg_read_latency_ms'', ''avg_write_latency_ms'', ''util_percent'',
     ''read_bytes_per_sec_rate'', ''write_bytes_per_sec_rate'', ''read_iops_rate'',
     ''write_iops_rate'', ''avg_read_latency_ms_rate'', ''avg_write_latency_ms_rate'',
     ''util_percent_rate'']"

definition disk_sample :: "DiskInfo \<Rightarrow> DiskDetailSample" where
  "disk_sample d =
    \<lparr>dd_read_bytes_per_sec = di_read_bytes_per_sec d, dd_write_bytes_per_sec =
     di_write_bytes_per_sec d, dd_read_iops = di_read_iops d, dd_write_iops = di_write_iops d,
     dd_avg_read_latency_ms = di_avg_read_latency_ms d, dd_avg_write_latency_ms =
     di_avg_write_latency_ms d, dd_util_percent = di_util_percent d\<rparr>"

definition disk_row :: "(int \<Rightarrow> string) \<Rightarrow> HostMonitoringData \<Rightarrow> DiskInfo \<Rightarrow> Samples \<Rightarrow> Insert \<times> Samples" where
  "disk_row fmt_time data d s =
     (let cur = disk_sample d; key = (hd_host_name data, di_name d);
          prev = entry zero_DiskDetailSample (lastDiskSamples s) key;
          fields = [dd_read_bytes_per_sec, dd_write_bytes_per_sec, dd_read_iops, dd_write_iops,
                    dd_avg_read_latency_ms, dd_avg_write_latency_ms, dd_util_percent]
      in (insert_row fmt_time data ''server_disk_detail'' disk_columns
           (SqlText (di_name d)
            # map (\<lambda>f. SqlU64 (f d)) [di_reads, di_writes, di_sectors_read, di_sectors_written, di_read_time_ms,
                di_write_time_ms, di_io_in_progress, di_io_time_ms, di_weighted_io_time_ms]
            @ map (\<lambda>f. SqlFp (f cur)) fields @ map (\<lambda>f. SqlFp (change_rate (f cur) (f prev))) fields),
          s\<lparr>lastDiskSamples := (lastDiskSamples s)(key \<mapsto> cur)\<rparr>))"

text \<open>The name a database instance is stored under.\<close>

definition instance_name :: "string \<Rightarrow> string \<Rightarrow> u32 \<Rightarrow> string" where
  "instance_name inst host port =
     (let i = (if inst = [] then host @ (if 0 < port then '':'' @ show_nat (unat port) else []) else inst)
      in if i = [] then ''unknown'' else i)"

definition mysql_columns :: "string list" where
  "mysql_columns =
    [''instance'', ''mysql_host'', ''mysql_port'', ''up'', ''version'', ''`role`'',
     ''max_connections'', ''threads_connected'', ''threads_running'', ''aborted_connects'',
     ''questions'', ''com_select'', ''com_insert'', ''com_update'', ''com_delete'', ''com_commit'',
     ''com_rollback'', ''slow_queries'', ''innodb_buffer_pool_read_requests'',
     ''innodb_buffer_pool_reads'', ''innodb_buffer_pool_hit_percent'', ''innodb_row_lock_waits'',
     ''innodb_row_lock_time_avg_ms'', ''replication_configured'', ''replication_running'',
     ''replication_lag_seconds'', ''connection_used_percent'', ''qps'', ''tps'',
     ''slow_queries_rate'', ''innodb_row_lock_waits_rate'']"

definition mysql_sample :: "int \<Rightarrow> MysqlInfo \<Rightarrow> MysqlDetailSample" where
  "mysql_sample now x =
    \<lparr>ms_questions = my_questions x, ms_com_commit = my_com_commit x, ms_com_rollback = my_com_rollback x,
     ms_slow_queries = my_slow_queries x, ms_innodb_row_lock_waits = my_innodb_row_lock_waits x,
     ms_timestamp = now, ms_initialized = True\<rparr>"

definition mysql_row :: "(int \<Rightarrow> string) \<Rightarrow> HostMonitoringData \<Rightarrow> MysqlInfo \<Rightarrow> Samples \<Rightarrow> Insert \<times> Samples" where
  "mysql_row fmt_time data x s =
     (let inst = instance_name (my_instance x) (my_host x) (my_port x); key = (hd_host_name data, inst);
          cur = mysql_sample (hs_timestamp (hd_host_score data)) x;
          prev = entry zero_MysqlDetailSample (lastMysqlSamples s) key;
          seconds = (if ms_initialized prev then elapsed_seconds (ms_timestamp cur) (ms_timestamp prev) else Fin 0);
          rate = (\<lambda>f. if ms_initialized prev then counterRate (f cur) (f prev) seconds else Fin 0)
      in (insert_row fmt_time data ''server_mysql_detail'' mysql_columns
           ([SqlText inst, SqlText (my_host x), SqlU32 (my_port x), SqlFlag (my_up x), SqlText (my_version x),
             SqlText (if my_role x = [] then ''unknown'' else my_role x)]
            @ map (\<lambda>f. SqlU64 (f x)) [my_max_connections, my_threads_connected, my_threads_running,
                my_aborted_connects, my_questions, my_com_select, my_com_insert, my_com_update, my_com_delete,
                my_com_commit, my_com_rollback, my_slow_queries, my_innodb_buffer_pool_read_requests,
                my_innodb_buffer_pool_reads]
            @ [SqlFp (my_innodb_buffer_pool_hit_percent x), SqlU64 (my_innodb_row_lock_waits x),
               SqlFp (my_innodb_row_lock_time_avg_ms x), SqlFlag (my_replication_configured x),
               SqlFlag (my_replication_running x), SqlFp (my_replication_lag_seconds x),
               SqlFp (used_percent (my_threads_connected x) (my_max_connections x)),
               SqlFp (rate ms_questions), SqlFp (rate (\<lambda>m. ms_com_commit m + ms_com_rollback m)),
               SqlFp (rate ms_slow_queries), SqlFp (rate ms_innodb_row_lock_waits)]),
          s\<lparr>lastMysqlSamples := (lastMysqlSamples s)(key \<mapsto> cur)\<rparr>))"

definition redis_columns :: "string list" where
  "redis_columns =
    [''instance'', ''redis_host'', ''redis_port'', ''up'', ''version'', ''`role`'',
     ''uptime_in_seconds'', ''connected_clients'', ''blocked_clients'', ''maxclients'',
     ''connection_used_percent'', ''used_memory'', ''maxmemory'', ''mem_fragmentation_ratio'',
     ''memory_used_percent'', ''total_commands_processed'', ''instantaneous_ops_per_sec'',
     ''commands_per_sec'', ''keyspace_hits'', ''keyspace_misses'', ''keyspace_hit_percent'',
     ''expired_keys'', ''evicted_keys'', ''rejected_connections'', ''total_error_replies'',
     ''total_net_input_bytes'', ''total_net_output_bytes'', ''net_input_bytes_per_sec'',
     ''net_output_bytes_per_sec'', ''replication_configured'', ''master_link_up'',
     ''connected_slaves'', ''master_last_io_seconds_ago'', ''slowlog_len'', ''slowlog_growth'']"

definition redis_sample :: "int \<Rightarrow> RedisInfo \<Rightarrow> RedisDetailSample" where
  "redis_sample now x =
    \<lparr>rs_total_commands_processed = rd_total_commands_processed x,
     rs_total_net_input_bytes = rd_total_net_input_bytes x, rs_total_net_output_bytes = rd_total_net_output_bytes x,
     rs_slowlog_len = rd_slowlog_len x, rs_timestamp = now, rs_initialized = True\<rparr>"

definition redis_row :: "(int \<Rightarrow> string) \<Rightarrow> HostMonitoringData \<Rightarrow> RedisInfo \<Rightarrow> Samples \<Rightarrow> Insert \<times> Samples" where
  "redis_row fmt_time data x s =
     (let inst = instance_name (rd_instance x) (rd_host x) (rd_port x); key = (hd_host_name data, inst);
          cur = redis_sample (hs_timestamp (hd_host_score data)) x;
          prev = entry zero_RedisDetailSample (lastRedisSamples s) key;
          seconds = (if rs_initialized prev then elapsed_seconds (rs_timestamp cur) (rs_timestamp prev) else Fin 0);
          rate = (\<lambda>f. if rs_initialized prev then counterRate (f cur) (f prev) seconds else Fin 0)
      in (insert_row fmt_time data ''server_redis_detail'' redis_columns
           ([SqlText inst, SqlText (rd_host x), SqlU32 (rd_port x), SqlFlag (rd_up x), SqlText (rd_version x),
             SqlText (if rd_role x = [] then ''unknown'' else rd_role x)]
            @ map (\<lambda>f. SqlU64 (f x)) [rd_uptime_in_seconds, rd_connected_clients, rd_blocked_clients, rd_maxclients]
            @ [SqlFp (used_percent (rd_connected_clients x) (rd_maxclients x)),
               SqlU64 (rd_used_memory x), SqlU64 (rd_maxmemory x), SqlFp (rd_mem_fragmentation_ratio x),
               SqlFp (rd_memory_used_percent x), SqlU64 (rd_total_commands_processed x),
               SqlFp (rd_instantaneous_ops_per_sec x), SqlFp (rate rs_total_commands_processed),
               SqlU64 (rd_keyspace_hits x), SqlU64 (rd_keyspace_misses x), SqlFp (rd_keyspace_hit_percent x)]
            @ map (\<lambda>f. SqlU64 (f x)) [rd_expired_keys, rd_evicted_keys, rd_rejected_connections,
                rd_total_error_replies, rd_total_net_input_bytes, rd_total_net_output_bytes]
            @ [SqlFp (rate rs_total_net_input_bytes), SqlFp (rate rs_total_net_output_bytes),
               SqlFlag (rd_replication_configured x), SqlFlag (rd_master_link_up x),
               SqlU64 (rd_connected_slaves x), SqlFp (rd_master_last_io_seconds_ago x), SqlU64 (rd_slowlog_len x),
               SqlFp (if rs_initialized prev then counterDelta (rs_slowlog_len cur) (rs_slowlog_len prev) else Fin 0)]),
          s\<lparr>lastRedisSamples := (lastRedisSamples s)(key \<mapsto> cur)\<rparr>))"

section \<open>Writing a record\<close>

fun each_row :: "('x \<Rightarrow> Samples \<Rightarrow> Insert \<times> Samples) \<Rightarrow> 'x list \<Rightarrow> Samples \<Rightarrow> Insert list \<times> Samples" where
  "each_row f [] s = ([], s)"
| "each_row f (x # xs) s =
     (case f x s of (r, s) \<Rightarrow> case each_row f xs s of (rs, s) \<Rightarrow> (r # rs, s))"

definition write_rows :: "(int \<Rightarrow> string) \<Rightarrow> HostMonitoringData \<Rightarrow> Samples \<Rightarrow> Insert list \<times> Samples" where
  "write_rows fmt_time data s =
     (let info = hs_info (hd_host_score data);
          (perf, s) = perf_row fmt_time data s;
          (nets, s) = each_row (net_row fmt_time data) (m_net_info info) s;
          (sirqs, s) = each_row (softirq_row fmt_time data) (m_soft_irq info) s;
          (mems, s) = each_row (mem_row fmt_time data) (case m_mem_info info of None \<Rightarrow> [] | Some x \<Rightarrow> [x]) s;
          (disks, s) = each_row (disk_row fmt_time data) (m_disk_info info) s;
          (mysqls, s) = each_row (mysql_row fmt_time data) (m_mysql_info info) s;
          (redises, s) = each_row (redis_row fmt_time data) (m_redis_info info) s
      in (perf # nets @ sirqs @ mems @ disks @ mysqls @ redises, s))"

definition scoped :: "WorkerScope \<Rightarrow> bool" where
  "scoped w \<longleftrightarrow> tenant_id w \<noteq> [] \<and> team_id w \<noteq> [] \<and> cluster_id w \<noteq> []"

text \<open>\<open>got\<close> is whether a connection was acquired in time.\<close>

definition writeToMysql ::
  "(int \<Rightarrow> string) \<Rightarrow> bool \<Rightarrow> HostMonitoringData \<Rightarrow> HostManager \<times> Samples
     \<Rightarrow> Insert list \<times> HostManager \<times> Samples" where
  "writeToMysql fmt_time got data st =
     (case st of (h, s) \<Rightarrow>
        if \<not> mysqlWritePool h then ([], hm_bump (\<lambda>m. m\<lparr>mysql_errors := mysql_errors m + 1\<rparr>) h, s)
        else if \<not> got then ([], hm_bump (\<lambda>m. m\<lparr>pool_timeouts := pool_timeouts m + 1\<rparr>) h, s)
        else if \<not> scoped (hd_scope data) then ([], drop_sample h, s)
        else case write_rows fmt_time data s of (rs, s) \<Rightarrow> (rs, h, s))"

section \<open>Rows and samples\<close>

definition column :: "Insert \<Rightarrow> string \<Rightarrow> sql_value option" where
  "column r c = map_of (zip (i_columns r) (i_values r)) c"

text \<open>A row with a value for each of its columns, none named twice, and the scope of the record.\<close>

definition row_ok :: "HostMonitoringData \<Rightarrow> Insert \<Rightarrow> bool" where
  "row_ok data r \<longleftrightarrow> length (i_values r) = length (i_columns r) \<and> distinct (i_columns r)
     \<and> take 5 (i_columns r) = scope_columns \<and> take 5 (i_values r) = scope_values data"

lemma scope_lengths [simp]: "length scope_columns = 5" "length (scope_values data) = 5"
  by (simp_all add: scope_columns_def scope_values_def)

lemma insert_row_simps [simp]:
  "i_table (insert_row fmt_time data t cs vs) = t"
  "i_columns (insert_row fmt_time data t cs vs) = scope_columns @ cs @ [''timestamp'']"
  by (simp_all add: insert_row_def)

lemma row_ok_insert_row:
  assumes "length vs = length cs" "distinct (scope_columns @ cs @ [''timestamp''])"
  shows "row_ok data (insert_row fmt_time data t cs vs)"
  using assms by (simp add: row_ok_def insert_row_def)

lemma row_scope:
  assumes "row_ok data r"
  shows "map (column r) scope_columns = map Some (scope_values data)"
proof -
  have z: "zip (i_columns r) (i_values r) = zip scope_columns (scope_values data) @ zip (drop 5 (i_columns r)) (drop 5 (i_values r))"
    using assms append_take_drop_id [of 5 "i_columns r"] append_take_drop_id [of 5 "i_values r"]
    by (metis row_ok_def scope_lengths zip_append)
  show ?thesis
    by (simp add: column_def z scope_columns_def scope_values_def)
qed

lemma columns_distinct:
  "distinct (scope_columns @ perf_columns @ [''timestamp''])" "distinct (scope_columns @ net_columns @ [''timestamp''])"
  "distinct (scope_columns @ softirq_columns @ [''timestamp''])" "distinct (scope_columns @ mem_columns @ [''timestamp''])"
  "distinct (scope_columns @ disk_columns @ [''timestamp''])" "distinct (scope_columns @ mysql_columns @ [''timestamp''])"
  "distinct (scope_columns @ redis_columns @ [''timestamp''])"
  by code_simp+

lemma columns_length:
  "length perf_columns = 37" "length net_columns = 17" "length softirq_columns = 21" "length mem_columns = 38"
  "length disk_columns = 24" "length mysql_columns = 31" "length redis_columns = 35"
  by (simp_all add: perf_columns_def net_columns_def softirq_columns_def mem_columns_def disk_columns_def
      mysql_columns_def redis_columns_def)

lemmas rows_okI = columns_distinct [THEN row_ok_insert_row [rotated], unfolded columns_length]

lemma each_row_Cons:
  "fst (each_row f (x # xs) s) = fst (f x s) # fst (each_row f xs (snd (f x s)))"
  "snd (each_row f (x # xs) s) = snd (each_row f xs (snd (f x s)))"
  by (simp_all split: prod.splits)

text \<open>A map of samples after a report of a host: its devices have their latest sample.\<close>

definition recorded ::
  "string \<Rightarrow> ('x \<Rightarrow> string) \<Rightarrow> ('x \<Rightarrow> 'v) \<Rightarrow> 'x list \<Rightarrow> (string \<times> string \<rightharpoonup> 'v) \<Rightarrow> (string \<times> string \<rightharpoonup> 'v)" where
  "recorded host key sample xs m = m ++ map_of (rev (map (\<lambda>x. ((host, key x), sample x)) xs))"

lemma recorded_Nil: "recorded host key sample [] m = m"
  by (simp add: recorded_def)

lemma recorded_Cons:
  "recorded host key sample (x # xs) m = recorded host key sample xs (m((host, key x) \<mapsto> sample x))"
  by (simp add: recorded_def map_add_def fun_eq_iff split: option.splits)

lemma recorded_other: "h \<noteq> host \<Longrightarrow> recorded host key sample xs m (h, d) = m (h, d)"
  by (induction xs arbitrary: m) (simp_all add: recorded_Nil recorded_Cons)

lemma recorded_device:
  assumes "x \<in> set xs" "distinct (map key xs)"
  shows "recorded host key sample xs m (host, key x) = Some (sample x)"
  using assms
proof (induction xs arbitrary: m)
  case (Cons y ys)
  have "recorded host key sample ys m' (host, k) = m' (host, k)" if "k \<notin> key ` set ys" for k m'
    using that by (induction ys arbitrary: m') (simp_all add: recorded_Nil recorded_Cons)
  with Cons show ?case by (auto simp: recorded_Cons)
qed simp

text \<open>
  What the five detail tables of devices have in common: one row per device, and the sample
  of the device under the host's name replaced, everything else kept.
\<close>

locale device_rows =
  fixes data :: HostMonitoringData and row :: "'x \<Rightarrow> Samples \<Rightarrow> Insert \<times> Samples" and table :: string
    and key :: "'x \<Rightarrow> string" and sample :: "'x \<Rightarrow> 'v"
    and got :: "Samples \<Rightarrow> (string \<times> string \<rightharpoonup> 'v)" and upd :: "(string \<times> string \<rightharpoonup> 'v) \<Rightarrow> Samples \<Rightarrow> Samples"
  assumes row_table: "i_table (fst (row x s)) = table"
    and row_ok: "row_ok data (fst (row x s))"
    and row_state: "snd (row x s) = upd ((got s)((hd_host_name data, key x) \<mapsto> sample x)) s"
    and got_upd: "got (upd m s) = m" and upd_upd: "upd m (upd m' s) = upd m s" and upd_got: "upd (got s) s = s"
begin

lemma rows_table: "map i_table (fst (each_row row xs s)) = replicate (length xs) table"
  by (induction xs arbitrary: s) (simp_all add: each_row_Cons row_table del: each_row.simps(2))

lemma rows_ok: "\<forall>r \<in> set (fst (each_row row xs s)). row_ok data r"
  by (induction xs arbitrary: s) (simp_all add: each_row_Cons row_ok del: each_row.simps(2))

lemma rows_state: "snd (each_row row xs s) = upd (recorded (hd_host_name data) key sample xs (got s)) s"
proof (induction xs arbitrary: s)
  case Nil
  then show ?case by (simp add: recorded_Nil upd_got)
next
  case (Cons x xs)
  then show ?case
    by (simp only: each_row_Cons row_state got_upd upd_upd recorded_Cons)
qed

end

interpretation nets: device_rows data "net_row fmt_time data" "''server_net_detail''" ni_name net_sample
  lastNetSamples "\<lambda>m. lastNetSamples_update (\<lambda>_. m)" for fmt_time data
  by unfold_locales (simp_all add: net_row_def Let_def rows_okI)

interpretation sirqs: device_rows data "softirq_row fmt_time data" "''server_softirq_detail''" si_cpu softirq_sample
  lastSoftirqSamples "\<lambda>m. lastSoftirqSamples_update (\<lambda>_. m)" for fmt_time data
  by unfold_locales (simp_all add: softirq_row_def Let_def rows_okI)

interpretation disks: device_rows data "disk_row fmt_time data" "''server_disk_detail''" di_name disk_sample
  lastDiskSamples "\<lambda>m. lastDiskSamples_update (\<lambda>_. m)" for fmt_time data
  by unfold_locales (simp_all add: disk_row_def Let_def rows_okI)

interpretation mysqls: device_rows data "mysql_row fmt_time data" "''server_mysql_detail''"
  "\<lambda>x. instance_name (my_instance x) (my_host x) (my_port x)"
  "mysql_sample (hs_timestamp (hd_host_score data))" lastMysqlSamples "\<lambda>m. lastMysqlSamples_update (\<lambda>_. m)" for fmt_time data
  by unfold_locales (simp_all add: mysql_row_def Let_def rows_okI)

interpretation redises: device_rows data "redis_row fmt_time data" "''server_redis_detail''"
  "\<lambda>x. instance_name (rd_instance x) (rd_host x) (rd_port x)"
  "redis_sample (hs_timestamp (hd_host_score data))" lastRedisSamples "\<lambda>m. lastRedisSamples_update (\<lambda>_. m)" for fmt_time data
  by unfold_locales (simp_all add: redis_row_def Let_def rows_okI)

section \<open>The whole record\<close>

abbreviation report :: "HostMonitoringData \<Rightarrow> MonitorInfo" where
  "report data \<equiv> hs_info (hd_host_score data)"

abbreviation mems :: "HostMonitoringData \<Rightarrow> MemInfo list" where
  "mems data \<equiv> (case m_mem_info (report data) of None \<Rightarrow> [] | Some x \<Rightarrow> [x])"

lemma mem_row_ok: "row_ok data (fst (mem_row fmt_time data x s))" "i_table (fst (mem_row fmt_time data x s)) = ''server_mem_detail''"
  by (simp_all add: mem_row_def Let_def rows_okI)

lemma mem_rows:
  "\<forall>r \<in> set (fst (each_row (mem_row fmt_time data) (mems data) s)). row_ok data r"
  "map i_table (fst (each_row (mem_row fmt_time data) (mems data) s)) = replicate (length (mems data)) ''server_mem_detail''"
  using mem_row_ok by (auto split: option.splits prod.splits) (metis fst_conv)+

lemma mem_rows_state:
  "snd (each_row (mem_row fmt_time data) (mems data) s) = (case m_mem_info (report data) of None \<Rightarrow> s
     | Some x \<Rightarrow> s\<lparr>lastMemSamples := (lastMemSamples s)(hd_host_name data \<mapsto> mem_sample x)\<rparr>)"
  by (simp add: mem_row_def Let_def split: option.splits)

lemma perf_row_ok: "row_ok data (fst (perf_row fmt_time data s))" "i_table (fst (perf_row fmt_time data s)) = ''server_performance''"
  by (simp_all add: perf_row_def perf_values_def Let_def rows_okI)

lemma write_rows_alt:
  "\<exists>s1 s2 s3 s4 s5 s6. write_rows fmt_time data s =
     (fst (perf_row fmt_time data s) # fst (each_row (net_row fmt_time data) (m_net_info (report data)) s1)
      @ fst (each_row (softirq_row fmt_time data) (m_soft_irq (report data)) s2)
      @ fst (each_row (mem_row fmt_time data) (mems data) s3)
      @ fst (each_row (disk_row fmt_time data) (m_disk_info (report data)) s4)
      @ fst (each_row (mysql_row fmt_time data) (m_mysql_info (report data)) s5)
      @ fst (each_row (redis_row fmt_time data) (m_redis_info (report data)) s6),
      snd (each_row (redis_row fmt_time data) (m_redis_info (report data)) s6))
   \<and> s1 = snd (perf_row fmt_time data s)
   \<and> s2 = snd (each_row (net_row fmt_time data) (m_net_info (report data)) s1)
   \<and> s3 = snd (each_row (softirq_row fmt_time data) (m_soft_irq (report data)) s2)
   \<and> s4 = snd (each_row (mem_row fmt_time data) (mems data) s3)
   \<and> s5 = snd (each_row (disk_row fmt_time data) (m_disk_info (report data)) s4)
   \<and> s6 = snd (each_row (mysql_row fmt_time data) (m_mysql_info (report data)) s5)"
  by (simp add: write_rows_def Let_def case_prod_unfold)

lemmas device_rows_ok = nets.rows_ok [THEN bspec] sirqs.rows_ok [THEN bspec] mem_rows(1) [THEN bspec]
  disks.rows_ok [THEN bspec] mysqls.rows_ok [THEN bspec] redises.rows_ok [THEN bspec]

lemma write_rows_ok:
  assumes "r \<in> set (fst (write_rows fmt_time data s))"
  shows "row_ok data r"
proof -
  obtain s1 s2 s3 s4 s5 s6 where "fst (write_rows fmt_time data s) =
      fst (perf_row fmt_time data s) # fst (each_row (net_row fmt_time data) (m_net_info (report data)) s1)
      @ fst (each_row (softirq_row fmt_time data) (m_soft_irq (report data)) s2)
      @ fst (each_row (mem_row fmt_time data) (mems data) s3)
      @ fst (each_row (disk_row fmt_time data) (m_disk_info (report data)) s4)
      @ fst (each_row (mysql_row fmt_time data) (m_mysql_info (report data)) s5)
      @ fst (each_row (redis_row fmt_time data) (m_redis_info (report data)) s6)"
    using write_rows_alt [of fmt_time data s] by auto
  then show ?thesis
    using assms
    by (simp only: set_simps set_append Un_iff insert_iff)
       (elim disjE, simp only: perf_row_ok, (erule device_rows_ok)+)
qed

lemma write_rows_tables:
  "map i_table (fst (write_rows fmt_time data s)) =
     ''server_performance'' # replicate (length (m_net_info (report data))) ''server_net_detail''
     @ replicate (length (m_soft_irq (report data))) ''server_softirq_detail''
     @ replicate (length (mems data)) ''server_mem_detail''
     @ replicate (length (m_disk_info (report data))) ''server_disk_detail''
     @ replicate (length (m_mysql_info (report data))) ''server_mysql_detail''
     @ replicate (length (m_redis_info (report data))) ''server_redis_detail''"
  using write_rows_alt [of fmt_time data s]
  by (elim exE conjE)
     (simp add: nets.rows_table sirqs.rows_table mem_rows(2) disks.rows_table mysqls.rows_table
        redises.rows_table perf_row_ok(2) del: replicate_Suc)

lemma write_rows_samples:
  "snd (write_rows fmt_time data s) =
     (let host = hd_host_name data; now = hs_timestamp (hd_host_score data)
      in \<lparr>lastDiskUtil = (lastDiskUtil s)(host \<mapsto> max_util (m_disk_info (report data))),
          lastNetSamples = recorded host ni_name net_sample (m_net_info (report data)) (lastNetSamples s),
          lastSoftirqSamples = recorded host si_cpu softirq_sample (m_soft_irq (report data)) (lastSoftirqSamples s),
          lastMemSamples = (case m_mem_info (report data) of None \<Rightarrow> lastMemSamples s
             | Some x \<Rightarrow> (lastMemSamples s)(host \<mapsto> mem_sample x)),
          lastDiskSamples = recorded host di_name disk_sample (m_disk_info (report data)) (lastDiskSamples s),
          lastMysqlSamples = recorded host (\<lambda>x. instance_name (my_instance x) (my_host x) (my_port x))
             (mysql_sample now) (m_mysql_info (report data)) (lastMysqlSamples s),
          lastRedisSamples = recorded host (\<lambda>x. instance_name (rd_instance x) (rd_host x) (rd_port x))
             (redis_sample now) (m_redis_info (report data)) (lastRedisSamples s)\<rparr>)"
proof -
  obtain s1 s2 s3 s4 s5 s6 where w: "snd (write_rows fmt_time data s) = snd (each_row (redis_row fmt_time data) (m_redis_info (report data)) s6)"
    and st: "s1 = snd (perf_row fmt_time data s)"
     "s2 = snd (each_row (net_row fmt_time data) (m_net_info (report data)) s1)"
     "s3 = snd (each_row (softirq_row fmt_time data) (m_soft_irq (report data)) s2)"
     "s4 = snd (each_row (mem_row fmt_time data) (mems data) s3)"
     "s5 = snd (each_row (disk_row fmt_time data) (m_disk_info (report data)) s4)"
     "s6 = snd (each_row (mysql_row fmt_time data) (m_mysql_info (report data)) s5)"
    using write_rows_alt [of fmt_time data s] by auto
  have "s1 = s\<lparr>lastDiskUtil := (lastDiskUtil s)(hd_host_name data \<mapsto> max_util (m_disk_info (report data)))\<rparr>"
    by (simp add: st(1) perf_row_def Let_def)
  then show ?thesis
    by (simp add: w st(2-6) nets.rows_state sirqs.rows_state disks.rows_state mysqls.rows_state redises.rows_state
        mem_rows_state Let_def split: option.splits)
qed

section \<open>Properties\<close>

text \<open>
  C13: Every statement a record is written as has one value for each of its columns and no
  column twice, and carries the tenant, team, cluster and name of the host the record was
  accepted for; a record without a complete scope is written nowhere.
\<close>

theorem rows_carry_scope:
  assumes "writeToMysql fmt_time got data st = (rs, st')" "r \<in> set rs"
  shows "length (i_values r) = length (i_columns r) \<and> distinct (i_columns r)
     \<and> column r ''tenant_id'' = Some (SqlText (tenant_id (hd_scope data))) \<and> tenant_id (hd_scope data) \<noteq> []
     \<and> column r ''team_id'' = Some (SqlText (team_id (hd_scope data))) \<and> team_id (hd_scope data) \<noteq> []
     \<and> column r ''cluster_id'' = Some (SqlText (cluster_id (hd_scope data))) \<and> cluster_id (hd_scope data) \<noteq> []
     \<and> column r ''server_name'' = Some (SqlText (hd_host_name data))"
proof -
  from assms have sc: "scoped (hd_scope data)" and "r \<in> set (fst (write_rows fmt_time data (snd st)))"
    by (auto simp: writeToMysql_def split: prod.splits if_splits)
  then have ok: "row_ok data r" by (intro write_rows_ok)
  with row_scope [OF ok] sc show ?thesis
    by (simp add: row_ok_def scope_columns_def scope_values_def scoped_def)
qed

definition demo_record :: HostMonitoringData where
  "demo_record = monitoring_data ''web1''
     \<lparr>tenant_id = ''t'', team_id = ''u'', cluster_id = ''c'', server_id = 0\<rparr>
     \<lparr>hs_info = default_MonitorInfo\<lparr>m_net_info := [default_NetInfo\<lparr>ni_name := ''eth0''\<rparr>]\<rparr>, hs_score = Fin 100, hs_timestamp = 0\<rparr>
     zero_PerfSample zero_PerfSample"

lemma demo_record_simps:
  "hd_host_name demo_record = ''web1''"
  "hd_scope demo_record = \<lparr>tenant_id = ''t'', team_id = ''u'', cluster_id = ''c'', server_id = 0\<rparr>"
  "report demo_record = default_MonitorInfo\<lparr>m_net_info := [default_NetInfo\<lparr>ni_name := ''eth0''\<rparr>]\<rparr>"
  by (simp_all add: demo_record_def monitoring_data_def Let_def)

theorem rows_carry_scope_witness:
  "\<exists>r rs st'. writeToMysql (\<lambda>_. ''now'') True demo_record (HostManager_new\<lparr>mysqlWritePool := True\<rparr>, no_samples) = (r # rs, st')
     \<and> column r ''tenant_id'' = Some (SqlText ''t'')"
proof -
  let ?st = "(HostManager_new\<lparr>mysqlWritePool := True\<rparr>, no_samples)"
  obtain r rs st' where w: "writeToMysql (\<lambda>_. ''now'') True demo_record ?st = (r # rs, st')"
    by (simp add: writeToMysql_def write_rows_def demo_record_simps scoped_def Let_def case_prod_unfold HostManager_new_def)
  from rows_carry_scope [OF w, of r] w show ?thesis by (simp add: demo_record_simps)
qed

text \<open>
  A record becomes exactly one row of the main table, one row for each interface,
  processor, disk and database instance it reports and one for the memory when it reports
  it, in this order.
\<close>

theorem one_row_each:
  assumes "scoped (hd_scope data)" "mysqlWritePool h" "writeToMysql fmt_time True data (h, s) = (rs, st')"
  shows "map i_table rs =
     ''server_performance'' # replicate (length (m_net_info (hs_info (hd_host_score data)))) ''server_net_detail''
     @ replicate (length (m_soft_irq (hs_info (hd_host_score data)))) ''server_softirq_detail''
     @ replicate (case m_mem_info (hs_info (hd_host_score data)) of None \<Rightarrow> 0 | Some _ \<Rightarrow> 1) ''server_mem_detail''
     @ replicate (length (m_disk_info (hs_info (hd_host_score data)))) ''server_disk_detail''
     @ replicate (length (m_mysql_info (hs_info (hd_host_score data)))) ''server_mysql_detail''
     @ replicate (length (m_redis_info (hs_info (hd_host_score data)))) ''server_redis_detail''"
proof -
  have "rs = fst (write_rows fmt_time data s)"
    using assms by (auto simp: writeToMysql_def split: prod.splits)
  with write_rows_tables [of fmt_time data s] show ?thesis by (simp split: option.splits)
qed

theorem one_row_each_witness:
  "\<exists>rs st'. writeToMysql (\<lambda>_. ''now'') True demo_record (HostManager_new\<lparr>mysqlWritePool := True\<rparr>, no_samples) = (rs, st')
     \<and> map i_table rs = [''server_performance'', ''server_net_detail'']"
proof -
  let ?st = "(HostManager_new\<lparr>mysqlWritePool := True\<rparr>, no_samples)"
  obtain rs st' where w: "writeToMysql (\<lambda>_. ''now'') True demo_record ?st = (rs, st')"
    by (cases "writeToMysql (\<lambda>_. ''now'') True demo_record ?st")
  from one_row_each [OF _ _ w] w show ?thesis
    by (simp add: demo_record_simps scoped_def message_defaults)
qed

text \<open>
  After a record was written, the samples its host's next rates are taken from are
  those of this record, per interface, disk and database instance, and no sample of
  another host has changed.
\<close>

theorem samples_of_the_record:
  assumes "scoped (hd_scope data)" "mysqlWritePool h" "writeToMysql fmt_time True data (h, s) = (rs, h', s')"
    and "x \<in> set (m_net_info (hs_info (hd_host_score data)))" "distinct (map ni_name (m_net_info (hs_info (hd_host_score data))))"
    and "d \<in> set (m_disk_info (hs_info (hd_host_score data)))" "distinct (map di_name (m_disk_info (hs_info (hd_host_score data))))"
    and "other \<noteq> hd_host_name data"
  shows "lastNetSamples s' (hd_host_name data, ni_name x) = Some (net_sample x)
     \<and> lastDiskSamples s' (hd_host_name data, di_name d) = Some (disk_sample d)
     \<and> lastDiskUtil s' other = lastDiskUtil s other \<and> lastMemSamples s' other = lastMemSamples s other
     \<and> lastNetSamples s' (other, dev) = lastNetSamples s (other, dev)
     \<and> lastSoftirqSamples s' (other, dev) = lastSoftirqSamples s (other, dev)
     \<and> lastDiskSamples s' (other, dev) = lastDiskSamples s (other, dev)
     \<and> lastMysqlSamples s' (other, dev) = lastMysqlSamples s (other, dev)
     \<and> lastRedisSamples s' (other, dev) = lastRedisSamples s (other, dev)"
proof -
  have "s' = snd (write_rows fmt_time data s)"
    using assms(1-3) by (auto simp: writeToMysql_def split: prod.splits)
  then show ?thesis
    using assms(4-7) assms(8) assms(8) [symmetric]
    by (simp add: write_rows_samples Let_def recorded_device recorded_other split: option.splits)
qed

definition demo_disk_record :: HostMonitoringData where
  "demo_disk_record = demo_record\<lparr>hd_host_score := \<lparr>hs_info = default_MonitorInfo\<lparr>
     m_net_info := [default_NetInfo\<lparr>ni_name := ''eth0''\<rparr>], m_disk_info := [default_DiskInfo\<lparr>di_name := ''sda''\<rparr>]\<rparr>,
     hs_score = Fin 100, hs_timestamp = 0\<rparr>\<rparr>"

theorem samples_of_the_record_witness:
  "\<exists>rs h' s'. writeToMysql (\<lambda>_. ''now'') True demo_disk_record (HostManager_new\<lparr>mysqlWritePool := True\<rparr>, no_samples) = (rs, h', s')
     \<and> lastDiskSamples s' (''web1'', ''sda'') = Some (disk_sample (default_DiskInfo\<lparr>di_name := ''sda''\<rparr>))
     \<and> lastDiskSamples s' (''web2'', ''sda'') = None"
proof -
  let ?st = "(HostManager_new\<lparr>mysqlWritePool := True\<rparr>, no_samples)"
  obtain rs h' s' where w: "writeToMysql (\<lambda>_. ''now'') True demo_disk_record ?st = (rs, h', s')"
    by (cases "writeToMysql (\<lambda>_. ''now'') True demo_disk_record ?st")
  have "lastDiskSamples s' (''web1'', ''sda'') = Some (disk_sample (default_DiskInfo\<lparr>di_name := ''sda''\<rparr>))
      \<and> lastDiskSamples s' (''web2'', ''sda'') = None"
    using samples_of_the_record [OF _ _ w, of "default_NetInfo\<lparr>ni_name := ''eth0''\<rparr>"
        "default_DiskInfo\<lparr>di_name := ''sda''\<rparr>" "''web2''" "''sda''"]
    by (simp add: demo_disk_record_def demo_record_simps scoped_def no_samples_def)
  with w show ?thesis by blast
qed

text \<open>
  C39: The columns \<open>send_rate\<close> and \<open>rcv_rate\<close> hold the first interface's sending and
  receiving rates, but the columns for their changes are swapped: \<open>send_rate_rate\<close> gets the
  change of the receiving rate and \<open>rcv_rate_rate\<close> that of the sending rate.
\<close>

theorem change_rates_swapped:
  "let info = hs_info hs; cur = perf_sample info (net_mb ni_rcv_rate info) (net_mb ni_send_rate info) (hs_score hs);
       r = fst (perf_row fmt_time (monitoring_data hostID scope hs cur prev) s)
   in column r ''send_rate'' = Some (SqlFp (case m_net_info info of [] \<Rightarrow> Fin 0 | n # _ \<Rightarrow> ni_send_rate n))
    \<and> column r ''rcv_rate'' = Some (SqlFp (case m_net_info info of [] \<Rightarrow> Fin 0 | n # _ \<Rightarrow> ni_rcv_rate n))
    \<and> column r ''send_rate_rate'' = Some (SqlFp (change_rate (to_f32 (net_mb ni_rcv_rate info)) (p_net_in_rate prev)))
    \<and> column r ''rcv_rate_rate'' = Some (SqlFp (change_rate (to_f32 (net_mb ni_send_rate info)) (p_net_out_rate prev)))"
  by (simp add: column_def perf_row_def perf_values_def perf_columns_def insert_row_def scope_columns_def
      scope_values_def monitoring_data_def perf_sample_def Let_def default_NetInfo_def split: list.splits option.splits)

lemma f32_powers: "f32 (2 ^ 39) = Fin (2 ^ 39)" "f32 (2 ^ 63) = Fin (2 ^ 63)"
  by (simp_all add: fp_eval binary32_def)

text \<open>
  C38: A counter that went backwards (a reset after a restart) is treated differently: the
  counters of databases report a rate of zero, while the error and drop counters of an
  interface report a change of more than \<open>5 * 10 ^ 11\<close> because the difference wraps.
\<close>

theorem counter_reset_rates:
  assumes "nowVal < lastVal" "lastVal < 2 ^ 24"
  shows "counterRate nowVal lastVal seconds = Fin 0 \<and> fle (Fin (2 ^ 39)) (rateU64 nowVal lastVal)"
proof -
  let ?d = "unat (nowVal - lastVal)" and ?l = "unat lastVal"
  have l: "0 < ?l" "?l < 2 ^ 24"
    using assms by (simp_all add: word_less_nat_alt)
  have "?d = 2 ^ 64 - (?l - unat nowVal)"
    using assms(1) by (simp add: unat_sub_if' word_less_nat_alt)
  then have "2 ^ 63 \<le> ?d" using l by simp
  then have "(2::rat) ^ 63 \<le> of_nat ?d"
    by (metis of_nat_le_iff of_nat_numeral of_nat_power)
  then have n: "fle (f32 (2 ^ 63)) (f32_of_u64 (nowVal - lastVal))"
    unfolding f32_of_u64_def by (rule f32.rn_mono)
  have "int ?l < int (2 ^ 24)" using l(2) by (simp only: of_nat_less_iff)
  then have lf: "f32_of_u64 lastVal = Fin (of_nat ?l)"
    using f32.rn_of_int [of "int ?l"]
    by (simp only: f32_of_u64_def of_int_of_nat_eq abs_of_nat of_nat_power of_nat_numeral)
  have "(of_nat ?l :: rat) < of_nat (2 ^ 24)" "(0::rat) < of_nat ?l"
    using l by (simp_all only: of_nat_less_iff of_nat_0_less_iff)
  then have lr: "(0::rat) < of_nat ?l" "(2::rat) ^ 39 \<le> 2 ^ 63 / of_nat ?l"
    by (simp_all only: of_nat_power of_nat_numeral pos_le_divide_eq) simp
  then have "fle (f32 (2 ^ 39)) (f32 (2 ^ 63 / of_nat ?l))"
    by (intro f32.rn_mono)
  also have "fle (f32 (2 ^ 63 / of_nat ?l)) (fdiv f32 (f32_of_u64 (nowVal - lastVal)) (Fin (of_nat ?l)))"
    using f32.fdiv_mono [OF lr(1) n] lr(1) by (simp only: f32_powers fdiv.simps) simp
  finally show ?thesis
    using assms(1) l(1) lf f32_powers by (auto simp: counterRate_def rateU64_def)
qed

theorem counter_reset_rates_witness:
  "counterRate 5 1000 (Fin 10) = Fin 0 \<and> fle (Fin (2 ^ 39)) (rateU64 5 1000)"
  using counter_reset_rates [of 5 1000 "Fin 10"] by simp

end
