(* ===== verification/Text_Numbers.thy ===== *)
theory Text_Numbers
  imports Floats
begin

text \<open>
  Floating point numbers in text: \<open>strtod\<close> of the C library, on which \<open>std::atof\<close> and
  \<open>std::stod\<close> rest. The subject is the longest prefix, after white space and a sign, that is
  a decimal or hexadecimal number, an infinity or a NaN; its exact value is rounded once.
\<close>

definition hex_digit :: "char \<Rightarrow> bool" where
  "hex_digit c \<longleftrightarrow> isdigit c \<or> (let n = (of_char (tolower c) :: nat) in 97 \<le> n \<and> n \<le> 102)"

definition hex_value :: "char \<Rightarrow> nat" where
  "hex_value c = (if isdigit c then of_char c - 48 else of_char (tolower c) - 87)"

definition digits_in :: "nat \<Rightarrow> string \<Rightarrow> nat" where
  "digits_in base = foldl (\<lambda>a c. base * a + hex_value c) 0"

text \<open>Digits, a point, digits: the digits of both, how many follow the point, and the rest.\<close>

definition scan_mantissa :: "(char \<Rightarrow> bool) \<Rightarrow> string \<Rightarrow> (string \<times> nat \<times> string) option" where
  "scan_mantissa isd u =
     (let whole = takeWhile isd u; r = dropWhile isd u;
          (frac, r') = (case r of [] \<Rightarrow> ([], r)
             | c # cs \<Rightarrow> if c = CHR ''.'' \<and> (whole \<noteq> [] \<or> takeWhile isd cs \<noteq> [])
                          then (takeWhile isd cs, dropWhile isd cs) else ([], r))
      in if whole = [] \<and> frac = [] then None else Some (whole @ frac, length frac, r'))"

text \<open>An exponent after the mark \<open>e\<close> (or \<open>p\<close>), zero when there is none.\<close>

definition scan_exponent :: "char \<Rightarrow> string \<Rightarrow> int \<times> string" where
  "scan_exponent mark r =
     (case r of [] \<Rightarrow> (0, r)
      | c # cs \<Rightarrow>
          if tolower c \<noteq> mark then (0, r)
          else case scan_sign cs of (neg, t) \<Rightarrow>
            if takeWhile isdigit t = [] then (0, r)
            else let e = int (digits_val (takeWhile isdigit t))
                 in (if neg then - e else e, dropWhile isdigit t))"

definition scale :: "nat \<Rightarrow> nat \<Rightarrow> int \<Rightarrow> rat" where
  "scale v base e = (if 0 \<le> e then of_nat (v * base ^ nat e) else of_nat v / of_nat (base ^ nat (- e)))"

datatype number = Exact rat | Infinite | NotANumber

definition scan_word :: "string \<Rightarrow> string \<Rightarrow> string option" where
  "scan_word w u = (if map tolower (take (length w) u) = w then Some (drop (length w) u) else None)"

definition nan_tail :: "string \<Rightarrow> string" where
  "nan_tail r =
     (case r of [] \<Rightarrow> r
      | c # cs \<Rightarrow>
          let t = dropWhile (\<lambda>d. hex_digit d \<or> d = CHR ''_'' \<or> 103 \<le> (of_char (tolower d) :: nat) \<and> (of_char (tolower d) :: nat) \<le> 122) cs
          in if c = CHR ''('' \<and> t \<noteq> [] \<and> hd t = CHR '')'' then tl t else r)"

definition scan_real :: "string \<Rightarrow> (number \<times> string) option" where
  "scan_real u =
     (case scan_word ''infinity'' u of Some r \<Rightarrow> Some (Infinite, r)
      | None \<Rightarrow> (case scan_word ''inf'' u of Some r \<Rightarrow> Some (Infinite, r)
      | None \<Rightarrow> (case scan_word ''nan'' u of Some r \<Rightarrow> Some (NotANumber, nan_tail r)
      | None \<Rightarrow>
          (case (case scan_word ''0x'' u of None \<Rightarrow> None | Some r \<Rightarrow> scan_mantissa hex_digit r) of
             Some (ds, k, r) \<Rightarrow>
               (case scan_exponent (CHR ''p'') r of (e, r) \<Rightarrow>
                  Some (Exact (scale (digits_in 16 ds) 2 (e - 4 * int k)), r))
           | None \<Rightarrow>
               (case scan_mantissa isdigit u of None \<Rightarrow> None
                | Some (ds, k, r) \<Rightarrow>
                    (case scan_exponent (CHR ''e'') r of (e, r) \<Rightarrow>
                       Some (Exact (scale (digits_in 10 ds) 10 (e - int k)), r)))))))"

definition strtod :: "string \<Rightarrow> (bool \<times> number \<times> string) option" where
  "strtod s =
     (case scan_sign (dropWhile isspace s) of (neg, u) \<Rightarrow>
        map_option (\<lambda>(n, r). (neg, n, r)) (scan_real u))"

definition double_of :: "bool \<Rightarrow> number \<Rightarrow> fp" where
  "double_of neg n = (case n of Exact q \<Rightarrow> f64 (if neg then - q else q)
     | Infinite \<Rightarrow> (if neg then NInf else PInf) | NotANumber \<Rightarrow> NaN)"

definition atof :: "string \<Rightarrow> fp" where
  "atof s = (case strtod s of None \<Rightarrow> Fin 0 | Some (neg, n, r) \<Rightarrow> double_of neg n)"

text \<open>\<open>std::stod\<close> throws when nothing was converted, and when the value over- or underflows.\<close>

definition range_error :: "rat \<Rightarrow> bool" where
  "range_error q \<longleftrightarrow> q \<noteq> 0 \<and>
     (f64 q = PInf \<or> f64 q = NInf \<or> \<bar>q\<bar> < 1 / 2 ^ 1022 \<and> f64 q \<noteq> Fin q)"

definition stod :: "string \<Rightarrow> parse_error + fp" where
  "stod s =
     (case strtod s of None \<Rightarrow> Inl InvalidArgument
      | Some (neg, n, r) \<Rightarrow>
          (case n of Exact q \<Rightarrow> if range_error q then Inl OutOfRange else Inr (double_of neg n)
           | _ \<Rightarrow> Inr (double_of neg n)))"

section \<open>Integers in text\<close>

lemma digits_in_10: "(\<forall>c \<in> set ds. isdigit c) \<Longrightarrow> digits_in 10 ds = digits_val ds"
proof (induction ds rule: rev_induct)
  case (snoc c ds)
  then show ?case by (simp add: digits_in_def digits_val_def hex_value_def)
qed (simp add: digits_in_def digits_val_def)

lemma isdigit_letters:
  assumes "isdigit c"
  shows "tolower c = c" "c \<noteq> CHR ''i''" "c \<noteq> CHR ''n''" "c \<noteq> CHR ''x''" "c \<noteq> CHR ''.''" "c \<noteq> CHR ''e''" "c \<noteq> CHR ''p''"
  using assms by (auto simp: isdigit_def tolower_def)

text \<open>A decimal integer is read as its value, so what is printed by \<open>std::to_string\<close> reads back.\<close>

lemma strtod_show_nat: "strtod (show_nat n) = Some (False, Exact (of_nat n), [])"
proof -
  let ?s = "show_nat n"
  have ds: "\<forall>c \<in> set ?s. isdigit c" by (rule show_nat_digits)
  obtain d es where s: "?s = d # es" using show_nat_nonempty by (cases ?s) auto
  then have d: "isdigit d" and es: "\<forall>c \<in> set es. isdigit c" using ds by auto
  have dw: "dropWhile isspace ?s = ?s" using isdigit_not_space [OF d] by (simp add: s)
  have sg: "scan_sign ?s = (False, ?s)" using isdigit_not_sign [OF d] by (simp add: scan_sign_def s)
  have tw: "takeWhile isdigit ?s = ?s" "dropWhile isdigit ?s = []"
    using ds by (simp_all add: takeWhile_eq_all_conv)
  have nx: "scan_word ''0x'' ?s = None"
    using es isdigit_letters [of "hd es"] by (cases es) (auto simp: scan_word_def s)
  have w: "scan_word ''infinity'' ?s = None" "scan_word ''inf'' ?s = None" "scan_word ''nan'' ?s = None"
    using isdigit_letters [OF d] by (auto simp: scan_word_def s)
  have m: "scan_mantissa isdigit ?s = Some (?s, 0, [])"
    unfolding scan_mantissa_def tw Let_def by (simp add: show_nat_nonempty)
  show ?thesis
    unfolding strtod_def dw sg
    by (simp add: scan_real_def w nx m scan_exponent_def scale_def digits_in_10 [OF ds] digits_val_show_nat)
qed

lemma atof_show_nat: "atof (show_nat n) = f64 (of_nat n)"
  by (simp add: atof_def strtod_show_nat double_of_def)

end
