(* ===== verification/Query_Manager.thy ===== *)
theory Query_Manager
  imports Manager_Config Text_Numbers "HOL-Library.Monad_Syntax"
begin

text \<open>
  \<open>QueryManager.h/.cpp\<close>: the queries of the manager. Each checks its arguments, takes a
  connection, runs prepared statements whose text and parameters are built here, and turns
  the rows of text into records. The database is a parameter: a function from a statement
  and its parameters to a reply; so are the connection pool's answer, the formatting and
  parsing of local time and the clock. A record that cannot be parsed throws, and an offset
  that does not fit an \<open>int\<close> is undefined behaviour; both are outcomes of their own.
\<close>

section \<open>Records\<close>

datatype SortOrder = DESC | ASC

datatype ServerStatus = ONLINE | OFFLINE

record AnomalyThreshold =
  at_cpu_threshold :: fp
  at_memory_threshold :: fp
  at_disk_threshold :: fp
  at_change_rate_threshold :: fp
  at_mysql_connection_threshold :: fp
  at_mysql_replication_lag_threshold :: fp
  at_mysql_slow_query_rate_threshold :: fp
  at_mysql_lock_wait_rate_threshold :: fp
  at_mysql_buffer_pool_hit_threshold :: fp
  at_redis_connection_threshold :: fp
  at_redis_memory_threshold :: fp
  at_redis_hit_rate_threshold :: fp
  at_redis_replication_lag_threshold :: fp
  at_redis_slowlog_growth_threshold :: fp

record TimeRange =
  tr_start_time :: int
  tr_end_time :: int

record QueryScope =
  qs_tenant_id :: string
  qs_team_id :: string
  qs_cluster_id :: string

record PerformanceRecord =
  pr_server_name :: string
  pr_timestamp :: int
  pr_cpu_percent :: fp
  pr_usr_percent :: fp
  pr_sys_percent :: fp
  pr_nice_percent :: fp
  pr_idle_percent :: fp
  pr_io_wait_percent :: fp
  pr_irq_percent :: fp
  pr_soft_irq_percent :: fp
  pr_load_avg_1 :: fp
  pr_load_avg_3 :: fp
  pr_load_avg_15 :: fp
  pr_mem_used_percent :: fp
  pr_mem_total :: fp
  pr_mem_free :: fp
  pr_mem_avail :: fp
  pr_disk_util_percent :: fp
  pr_net_recv_bytes :: fp
  pr_net_sent_bytes :: fp
  pr_score :: fp
  pr_cpu_percent_rate :: fp
  pr_mem_used_percent_rate :: fp
  pr_disk_util_percent_rate :: fp
  pr_load_avg_1_rate :: fp
  pr_net_recv_bytes_rate :: fp
  pr_net_sent_bytes_rate :: fp

record AnomalyRecord =
  ar_server_name :: string
  ar_timestamp :: int
  ar_anomaly_type :: string
  ar_severity :: string
  ar_value :: fp
  ar_threshold :: fp
  ar_metric_name :: string

record ServerScoreSummary =
  ss_server_name :: string
  ss_score :: fp
  ss_last_updated :: int
  ss_status :: ServerStatus
  ss_cpu_percent :: fp
  ss_mem_used_percent :: fp
  ss_disk_util_percent :: fp
  ss_load_avg_1 :: fp

record ClusterStats =
  st_total_servers :: int
  st_online_servers :: int
  st_offline_servers :: int
  st_avg_score :: fp
  st_max_score :: fp
  st_min_score :: fp
  st_best_server :: string
  st_worst_server :: string

record NetDetailRecord =
  nr_server_name :: string
  nr_net_name :: string
  nr_timestamp :: int
  nr_err_in :: u64
  nr_err_out :: u64
  nr_drop_in :: u64
  nr_drop_out :: u64
  nr_recv_bytes_rate :: fp
  nr_sent_bytes_rate :: fp
  nr_recv_packets_rate :: fp
  nr_sent_packets_rate :: fp

record DiskDetailRecord =
  dr_server_name :: string
  dr_disk_name :: string
  dr_timestamp :: int
  dr_read_bytes_per_sec :: fp
  dr_write_bytes_per_sec :: fp
  dr_read_iops :: fp
  dr_write_iops :: fp
  dr_avg_read_latency_ms :: fp
  dr_avg_write_latency_ms :: fp
  dr_util_percent :: fp

record MemDetailRecord =
  mr_server_name :: string
  mr_timestamp :: int
  mr_mem_total :: fp
  mr_mem_free :: fp
  mr_mem_avail :: fp
  mr_buffers :: fp
  mr_cached :: fp
  mr_active :: fp
  mr_inactive :: fp
  mr_dirty :: fp

record SoftIrqDetailRecord =
  sr_server_name :: string
  sr_cpu_name :: string
  sr_timestamp :: int
  sr_hi :: int
  sr_timer :: int
  sr_net_tx :: int
  sr_net_rx :: int
  sr_block :: int
  sr_sched :: int

record MysqlDetailRecord =
  mq_server_name :: string
  mq_instance :: string
  mq_timestamp :: int
  mq_mysql_host :: string
  mq_mysql_port :: int
  mq_up :: bool
  mq_version :: string
  mq_role :: string
  mq_max_connections :: u64
  mq_threads_connected :: u64
  mq_threads_running :: u64
  mq_aborted_connects :: u64
  mq_questions :: u64
  mq_com_select :: u64
  mq_com_insert :: u64
  mq_com_update :: u64
  mq_com_delete :: u64
  mq_com_commit :: u64
  mq_com_rollback :: u64
  mq_slow_queries :: u64
  mq_innodb_buffer_pool_read_requests :: u64
  mq_innodb_buffer_pool_reads :: u64
  mq_innodb_buffer_pool_hit_percent :: fp
  mq_innodb_row_lock_waits :: u64
  mq_innodb_row_lock_time_avg_ms :: fp
  mq_replication_configured :: bool
  mq_replication_running :: bool
  mq_replication_lag_seconds :: fp
  mq_connection_used_percent :: fp
  mq_qps :: fp
  mq_tps :: fp
  mq_slow_queries_rate :: fp
  mq_innodb_row_lock_waits_rate :: fp

record RedisDetailRecord =
  rr_server_name :: string
  rr_instance :: string
  rr_timestamp :: int
  rr_redis_host :: string
  rr_redis_port :: int
  rr_up :: bool
  rr_version :: string
  rr_role :: string
  rr_uptime_in_seconds :: u64
  rr_connected_clients :: u64
  rr_blocked_clients :: u64
  rr_maxclients :: u64
  rr_connection_used_percent :: fp
  rr_used_memory :: u64
  rr_maxmemory :: u64
  rr_mem_fragmentation_ratio :: fp
  rr_memory_used_percent :: fp
  rr_total_commands_processed :: u64
  rr_instantaneous_ops_per_sec :: fp
  rr_commands_per_sec :: fp
  rr_keyspace_hits :: u64
  rr_keyspace_misses :: u64
  rr_keyspace_hit_percent :: fp
  rr_expired_keys :: u64
  rr_evicted_keys :: u64
  rr_rejected_connections :: u64
  rr_total_error_replies :: u64
  rr_total_net_input_bytes :: u64
  rr_total_net_output_bytes :: u64
  rr_net_input_bytes_per_sec :: fp
  rr_net_output_bytes_per_sec :: fp
  rr_replication_configured :: bool
  rr_master_link_up :: bool
  rr_connected_slaves :: u64
  rr_master_last_io_seconds_ago :: fp
  rr_slowlog_len :: u64
  rr_slowlog_growth :: fp

definition default_thresholds :: AnomalyThreshold where
  "default_thresholds =
    \<lparr>at_cpu_threshold = Fin 80, at_memory_threshold = Fin 90, at_disk_threshold = Fin 85,
     at_change_rate_threshold = Fin (1 / 2), at_mysql_connection_threshold = Fin 90,
     at_mysql_replication_lag_threshold = Fin 30, at_mysql_slow_query_rate_threshold = Fin 1,
     at_mysql_lock_wait_rate_threshold = Fin 1, at_mysql_buffer_pool_hit_threshold = Fin 95,
     at_redis_connection_threshold = Fin 90, at_redis_memory_threshold = Fin 90,
     at_redis_hit_rate_threshold = Fin 80, at_redis_replication_lag_threshold = Fin 30,
     at_redis_slowlog_growth_threshold = Fin 1\<rparr>"

datatype SqlParam = StringParam string | Int64Param int | DoubleParam fp

text \<open>What the database says to a prepared statement, by the call that failed or the rows fetched.\<close>

datatype stage = InitStatement | Prepare | BindParams | Execute | BindResult

datatype stmt_reply = Failed stage string | NoMetadata | Fetched "string option list list" "string option"

record query_env =
  q_got :: bool
  q_db :: "string \<Rightarrow> SqlParam list \<Rightarrow> stmt_reply"
  q_formatTimePoint :: "int \<Rightarrow> string"
  q_parseTimeString :: "string \<Rightarrow> int"
  q_now :: int

record QueryManager =
  initialized :: bool
  queryPool :: bool
  qm_config :: ManagerConfig
  qm_metrics :: "ManagerMetrics option"

text \<open>Records, the total and the error message a query leaves in its output parameters.\<close>

record 'r answer =
  a_records :: "'r list"
  a_total :: "int option"
  a_error :: string

section \<open>Helpers\<close>

definition MAX_SCORE :: fp where
  "MAX_SCORE = fadd f32 (Fin 100) (Fin (1 / 8388608))"

definition validateQueryScope :: "QueryScope \<Rightarrow> bool" where
  "validateQueryScope scope \<longleftrightarrow> qs_tenant_id scope \<noteq> [] \<and> qs_team_id scope \<noteq> []"

definition scope_error :: string where
  "scope_error = ''Missing query tenant or team scope''"

definition scopePredicate :: "QueryScope \<Rightarrow> string" where
  "scopePredicate scope =
     ''tenant_id=? AND team_id=?'' @ (if qs_cluster_id scope \<noteq> [] then '' AND cluster_id=?'' else [])"

definition scopeParams :: "QueryScope \<Rightarrow> SqlParam list" where
  "scopeParams scope =
     [StringParam (qs_tenant_id scope), StringParam (qs_team_id scope)]
     @ (if qs_cluster_id scope \<noteq> [] then [StringParam (qs_cluster_id scope)] else [])"

definition stage_text :: "stage \<Rightarrow> string" where
  "stage_text st = (case st of InitStatement \<Rightarrow> '' init statement failed: '' | Prepare \<Rightarrow> '' prepare failed: ''
     | BindParams \<Rightarrow> '' bind params failed: '' | Execute \<Rightarrow> '' execute failed: '' | BindResult \<Rightarrow> '' bind result failed: '')"

definition cell_text :: "string option \<Rightarrow> string" where
  "cell_text c = (case c of None \<Rightarrow> [] | Some s \<Rightarrow> take 4096 s)"

definition executePreparedRows :: "query_env \<Rightarrow> string \<Rightarrow> SqlParam list \<Rightarrow> string \<Rightarrow> string + string list list" where
  "executePreparedRows E sql params ctxt =
     (case q_db E sql params of
        Failed st msg \<Rightarrow> Inl (''QueryManager: '' @ ctxt @ stage_text st @ msg)
      | NoMetadata \<Rightarrow> Inr []
      | Fetched rows (Some msg) \<Rightarrow> Inl (''QueryManager: '' @ ctxt @ '' fetch failed: '' @ msg)
      | Fetched rows None \<Rightarrow> Inr (map (map cell_text) rows))"

definition atoi :: "string \<Rightarrow> int" where
  "atoi s = wrap32 (fst (strtol10 s))"

definition executePreparedCount :: "query_env \<Rightarrow> string \<Rightarrow> SqlParam list \<Rightarrow> string \<Rightarrow> string + int" where
  "executePreparedCount E sql params ctxt =
     (case executePreparedRows E sql params ctxt of Inl e \<Rightarrow> Inl e
      | Inr rows \<Rightarrow> Inr (case rows of (c # _) # _ \<Rightarrow> atoi c | _ \<Rightarrow> 0))"

definition cell :: "string list \<Rightarrow> nat \<Rightarrow> string" where
  "cell row i = (if i < length row then row ! i else [])"

definition toFloat :: "string list \<Rightarrow> nat \<Rightarrow> fp" where
  "toFloat row i = (if cell row i \<noteq> [] then to_f32 (atof (cell row i)) else Fin 0)"

definition checked :: "'e + 'a \<Rightarrow> 'a option" where
  "checked r = (case r of Inl _ \<Rightarrow> None | Inr v \<Rightarrow> Some v)"

definition toU64 :: "string list \<Rightarrow> nat \<Rightarrow> u64 option" where
  "toU64 row i = (if cell row i \<noteq> [] then checked (stoull (cell row i)) else Some 0)"

definition toI64 :: "string list \<Rightarrow> nat \<Rightarrow> int option" where
  "toI64 row i = (if cell row i \<noteq> [] then checked (stoll (cell row i)) else Some 0)"

definition toBool :: "string list \<Rightarrow> nat \<Rightarrow> bool" where
  "toBool row i \<longleftrightarrow> cell row i \<in> {''1'', ''true'', ''TRUE'', ''yes'', ''YES''}"

definition time_cell :: "query_env \<Rightarrow> string list \<Rightarrow> nat \<Rightarrow> int" where
  "time_cell E row i = (if cell row i \<noteq> [] then q_parseTimeString E (cell row i) else q_now E)"

section \<open>Initialisation\<close>

definition QueryManager_new :: QueryManager where
  "QueryManager_new = \<lparr>initialized = False, queryPool = False, qm_config = default_config, qm_metrics = None\<rparr>"

definition QueryManager_init ::
  "bool \<Rightarrow> ManagerConfig option \<Rightarrow> ManagerMetrics option \<Rightarrow> QueryManager \<Rightarrow> bool \<times> QueryManager" where
  "QueryManager_init pool config metrics q =
     (if initialized q then (True, q)
      else let q = q\<lparr>qm_config := (case config of None \<Rightarrow> qm_config q | Some c \<Rightarrow> c),
                     qm_metrics := metrics, queryPool := pool\<rparr>
           in if \<not> pool then (False, q) else (True, q\<lparr>initialized := True\<rparr>))"

definition QueryManager_close :: "QueryManager \<Rightarrow> QueryManager" where
  "QueryManager_close q = q\<lparr>initialized := False, queryPool := False\<rparr>"

definition isInitialized :: "QueryManager \<Rightarrow> bool" where
  "isInitialized q \<longleftrightarrow> initialized q \<and> queryPool q"

definition validateTimeRange :: "TimeRange \<Rightarrow> bool" where
  "validateTimeRange r \<longleftrightarrow> tr_start_time r \<le> tr_end_time r"

definition range_message :: string where
  "range_message = ''Invalid time range: start_time > end_time''"

definition acquireConnection :: "query_env \<Rightarrow> QueryManager \<Rightarrow> string option \<times> QueryManager" where
  "acquireConnection E q =
     (if \<not> initialized q \<or> \<not> queryPool q then (Some ''QueryManager is not initialized'', q)
      else if \<not> q_got E
      then (Some ''QueryManager query connection acquire timed out'',
            q\<lparr>qm_metrics := map_option (\<lambda>m. m\<lparr>pool_timeouts := pool_timeouts m + 1\<rparr>) (qm_metrics q)\<rparr>)
      else (None, q))"

definition failing :: "int option \<Rightarrow> string \<Rightarrow> 'r answer run" where
  "failing cnt e = Returns \<lparr>a_records = [], a_total = cnt, a_error = e\<rparr>"

text \<open>What every query does first; \<open>timed\<close> when it has a time range.\<close>

definition guarded ::
  "query_env \<Rightarrow> QueryManager \<Rightarrow> QueryScope \<Rightarrow> TimeRange option \<Rightarrow> int option \<Rightarrow> 'r answer run
     \<Rightarrow> 'r answer run \<times> QueryManager" where
  "guarded E q scope timed cnt body =
     (case acquireConnection E q of
        (Some e, q) \<Rightarrow> (failing cnt e, q)
      | (None, q) \<Rightarrow>
          (if \<not> validateQueryScope scope then failing cnt scope_error
           else if (case timed of None \<Rightarrow> False | Some r \<Rightarrow> \<not> validateTimeRange r) then failing cnt range_message
           else body, q))"

definition fix_page :: "int \<Rightarrow> int" where
  "fix_page page = (if page < 1 then 1 else page)"

definition fix_size :: "int \<Rightarrow> int" where
  "fix_size pageSize = (if pageSize < 1 then 100 else pageSize)"

text \<open>\<open>int offset = (page - 1) * pageSize;\<close>\<close>

definition page_offset :: "int \<Rightarrow> int \<Rightarrow> int option" where
  "page_offset page pageSize = (let n = (page - 1) * pageSize in if n < 2 ^ 31 then Some n else None)"

definition parsed :: "int option \<Rightarrow> 'r list option \<Rightarrow> 'r answer run" where
  "parsed cnt rs = (case rs of None \<Rightarrow> Throws
     | Some rs \<Rightarrow> Returns \<lparr>a_records = rs, a_total = cnt, a_error = []\<rparr>)"

section \<open>Queries by page\<close>

text \<open>
  The performance and detail queries differ in the table, the columns, the name used in
  messages and the row parser.
\<close>

definition whereClause :: "QueryScope \<Rightarrow> string" where
  "whereClause scope = ''WHERE '' @ scopePredicate scope @ '' AND server_name=? AND timestamp BETWEEN ? AND ?''"

definition whereParams :: "query_env \<Rightarrow> QueryScope \<Rightarrow> string \<Rightarrow> TimeRange \<Rightarrow> SqlParam list" where
  "whereParams E scope serverName r =
     scopeParams scope @ [StringParam serverName, StringParam (q_formatTimePoint E (tr_start_time r)),
       StringParam (q_formatTimePoint E (tr_end_time r))]"

definition queryPage ::
  "string \<Rightarrow> string \<Rightarrow> string \<Rightarrow> (query_env \<Rightarrow> string list \<Rightarrow> 'r option) \<Rightarrow> query_env \<Rightarrow> QueryManager \<Rightarrow> QueryScope
     \<Rightarrow> string \<Rightarrow> TimeRange \<Rightarrow> int \<Rightarrow> int \<Rightarrow> int option \<Rightarrow> 'r answer run \<times> QueryManager" where
  "queryPage table cols ctxt parse E q scope serverName r page pageSize cnt =
     guarded E q scope (Some r) cnt
       (let page = fix_page page; pageSize = fix_size pageSize; wh = whereClause scope; ps = whereParams E scope serverName r
        in case (case cnt of None \<Rightarrow> Inr None
                 | Some _ \<Rightarrow> map_sum id Some
                     (executePreparedCount E (''SELECT COUNT(*) FROM '' @ table @ '' '' @ wh) ps (ctxt @ '' count''))) of
             Inl e \<Rightarrow> failing (Some 0) e
           | Inr cnt \<Rightarrow>
               (case page_offset page pageSize of None \<Rightarrow> Undefined
                | Some off \<Rightarrow>
                    (case executePreparedRows E
                            (''SELECT '' @ cols @ '' FROM '' @ table @ '' '' @ wh @ '' ORDER BY timestamp DESC LIMIT ? OFFSET ?'')
                            (ps @ [Int64Param pageSize, Int64Param off]) (ctxt @ '' query'') of
                       Inl e \<Rightarrow> failing cnt e
                     | Inr rows \<Rightarrow> parsed cnt (those (map (parse E) rows)))))"

definition performance_record :: "query_env \<Rightarrow> string list \<Rightarrow> PerformanceRecord option" where
  "performance_record E row =
     Some \<lparr>pr_server_name = cell row 0, pr_timestamp = time_cell E row 1, pr_cpu_percent = toFloat row 2,
        pr_usr_percent = toFloat row 3, pr_sys_percent = toFloat row 4, pr_nice_percent = toFloat row 5,
        pr_idle_percent = toFloat row 6, pr_io_wait_percent = toFloat row 7,
        pr_irq_percent = toFloat row 8, pr_soft_irq_percent = toFloat row 9,
        pr_load_avg_1 = toFloat row 10, pr_load_avg_3 = toFloat row 11, pr_load_avg_15 = toFloat row 12,
        pr_mem_used_percent = toFloat row 13, pr_mem_total = toFloat row 14,
        pr_mem_free = toFloat row 15, pr_mem_avail = toFloat row 16,
        pr_disk_util_percent = toFloat row 17, pr_net_recv_bytes = toFloat row 19,
        pr_net_sent_bytes = toFloat row 18, pr_score = toFloat row 20,
        pr_cpu_percent_rate = toFloat row 21, pr_mem_used_percent_rate = toFloat row 22,
        pr_disk_util_percent_rate = toFloat row 23, pr_load_avg_1_rate = toFloat row 24,
        pr_net_recv_bytes_rate = toFloat row 26, pr_net_sent_bytes_rate = toFloat row 25\<rparr>"

definition perf_select :: string where
  "perf_select =
     ''server_name, timestamp, cpu_percent, usr_percent, system_percent, nice_percent, '' @
     ''idle_percent, io_wait_percent, irq_percent, soft_irq_percent, load_avg_1, load_avg_3, '' @
     ''load_avg_15, mem_used_percent, total, free, avail, disk_util_percent, send_rate, rcv_rate, '' @
     ''score, cpu_percent_rate, mem_used_percent_rate, disk_util_percent_rate, load_avg_1_rate, '' @
     ''send_rate_rate, rcv_rate_rate''"

definition queryPerformanceRecords ::
  "query_env \<Rightarrow> QueryManager \<Rightarrow> QueryScope \<Rightarrow> string \<Rightarrow> TimeRange \<Rightarrow> int \<Rightarrow> int \<Rightarrow> int option
     \<Rightarrow> PerformanceRecord answer run \<times> QueryManager" where
  "queryPerformanceRecords = queryPage ''server_performance'' perf_select ''performance'' performance_record"

definition net_detail_record :: "query_env \<Rightarrow> string list \<Rightarrow> NetDetailRecord option" where
  "net_detail_record E row =
     do {
       x3 \<leftarrow> toU64 row 3; x4 \<leftarrow> toU64 row 4; x5 \<leftarrow> toU64 row 5;
       x6 \<leftarrow> toU64 row 6;
       Some \<lparr>nr_server_name = cell row 0, nr_net_name = cell row 1, nr_timestamp = time_cell E row 2,
        nr_err_in = x3, nr_err_out = x4, nr_drop_in = x5, nr_drop_out = x6,
        nr_recv_bytes_rate = toFloat row 7, nr_sent_bytes_rate = toFloat row 8,
        nr_recv_packets_rate = toFloat row 9, nr_sent_packets_rate = toFloat row 10\<rparr> }"

definition net_select :: string where
  "net_select =
     ''server_name, net_name, timestamp, err_in, err_out, drop_in, drop_out, rcv_bytes_rate, '' @
     ''snd_bytes_rate, rcv_packets_rate, snd_packets_rate''"

definition queryNetDetailRecords ::
  "query_env \<Rightarrow> QueryManager \<Rightarrow> QueryScope \<Rightarrow> string \<Rightarrow> TimeRange \<Rightarrow> int \<Rightarrow> int \<Rightarrow> int option
     \<Rightarrow> NetDetailRecord answer run \<times> QueryManager" where
  "queryNetDetailRecords = queryPage ''server_net_detail'' net_select ''net detail'' net_detail_record"

definition disk_detail_record :: "query_env \<Rightarrow> string list \<Rightarrow> DiskDetailRecord option" where
  "disk_detail_record E row =
     Some \<lparr>dr_server_name = cell row 0, dr_disk_name = cell row 1, dr_timestamp = time_cell E row 2,
        dr_read_bytes_per_sec = toFloat row 3, dr_write_bytes_per_sec = toFloat row 4,
        dr_read_iops = toFloat row 5, dr_write_iops = toFloat row 6,
        dr_avg_read_latency_ms = toFloat row 7, dr_avg_write_latency_ms = toFloat row 8,
        dr_util_percent = toFloat row 9\<rparr>"

definition disk_select :: string where
  "disk_select =
     ''server_name, disk_name, timestamp, read_bytes_per_sec, write_bytes_per_sec, read_iops, '' @
     ''write_iops, avg_read_latency_ms, avg_write_latency_ms, util_percent''"

definition queryDiskDetailRecords ::
  "query_env \<Rightarrow> QueryManager \<Rightarrow> QueryScope \<Rightarrow> string \<Rightarrow> TimeRange \<Rightarrow> int \<Rightarrow> int \<Rightarrow> int option
     \<Rightarrow> DiskDetailRecord answer run \<times> QueryManager" where
  "queryDiskDetailRecords = queryPage ''server_disk_detail'' disk_select ''disk detail'' disk_detail_record"

definition mem_detail_record :: "query_env \<Rightarrow> string list \<Rightarrow> MemDetailRecord option" where
  "mem_detail_record E row =
     Some \<lparr>mr_server_name = cell row 0, mr_timestamp = time_cell E row 1, mr_mem_total = toFloat row 2,
        mr_mem_free = toFloat row 3, mr_mem_avail = toFloat row 4, mr_buffers = toFloat row 5,
        mr_cached = toFloat row 6, mr_active = toFloat row 7, mr_inactive = toFloat row 8,
        mr_dirty = toFloat row 9\<rparr>"

definition mem_select :: string where
  "mem_select =
     ''server_name, timestamp, total, free, avail, buffers, cached, active, inactive, dirty''"

definition queryMemDetailRecords ::
  "query_env \<Rightarrow> QueryManager \<Rightarrow> QueryScope \<Rightarrow> string \<Rightarrow> TimeRange \<Rightarrow> int \<Rightarrow> int \<Rightarrow> int option
     \<Rightarrow> MemDetailRecord answer run \<times> QueryManager" where
  "queryMemDetailRecords = queryPage ''server_mem_detail'' mem_select ''mem detail'' mem_detail_record"

definition softirq_detail_record :: "query_env \<Rightarrow> string list \<Rightarrow> SoftIrqDetailRecord option" where
  "softirq_detail_record E row =
     do {
       x3 \<leftarrow> toI64 row 3; x4 \<leftarrow> toI64 row 4; x5 \<leftarrow> toI64 row 5;
       x6 \<leftarrow> toI64 row 6; x7 \<leftarrow> toI64 row 7; x8 \<leftarrow> toI64 row 8;
       Some \<lparr>sr_server_name = cell row 0, sr_cpu_name = cell row 1, sr_timestamp = time_cell E row 2,
        sr_hi = x3, sr_timer = x4, sr_net_tx = x5, sr_net_rx = x6, sr_block = x7, sr_sched = x8\<rparr> }"

definition sirq_select :: string where
  "sirq_select =
     ''server_name, cpu_name, timestamp, hi, timer, net_tx, net_rx, block, sched''"

definition querySoftIrqDetailRecords ::
  "query_env \<Rightarrow> QueryManager \<Rightarrow> QueryScope \<Rightarrow> string \<Rightarrow> TimeRange \<Rightarrow> int \<Rightarrow> int \<Rightarrow> int option
     \<Rightarrow> SoftIrqDetailRecord answer run \<times> QueryManager" where
  "querySoftIrqDetailRecords = queryPage ''server_softirq_detail'' sirq_select ''softirq detail'' softirq_detail_record"

definition mysql_detail_record :: "query_env \<Rightarrow> string list \<Rightarrow> MysqlDetailRecord option" where
  "mysql_detail_record E row =
     do {
       x4 \<leftarrow> toI64 row 4; x8 \<leftarrow> toU64 row 8; x9 \<leftarrow> toU64 row 9;
       x10 \<leftarrow> toU64 row 10; x11 \<leftarrow> toU64 row 11; x12 \<leftarrow> toU64 row 12;
       x13 \<leftarrow> toU64 row 13; x14 \<leftarrow> toU64 row 14; x15 \<leftarrow> toU64 row 15;
       x16 \<leftarrow> toU64 row 16; x17 \<leftarrow> toU64 row 17; x18 \<leftarrow> toU64 row 18;
       x19 \<leftarrow> toU64 row 19; x20 \<leftarrow> toU64 row 20; x21 \<leftarrow> toU64 row 21;
       x23 \<leftarrow> toU64 row 23;
       Some \<lparr>mq_server_name = cell row 0, mq_instance = cell row 1, mq_timestamp = time_cell E row 2,
        mq_mysql_host = cell row 3, mq_mysql_port = wrap32 x4, mq_up = toBool row 5,
        mq_version = cell row 6, mq_role = cell row 7, mq_max_connections = x8,
        mq_threads_connected = x9, mq_threads_running = x10, mq_aborted_connects = x11,
        mq_questions = x12, mq_com_select = x13, mq_com_insert = x14, mq_com_update = x15,
        mq_com_delete = x16, mq_com_commit = x17, mq_com_rollback = x18, mq_slow_queries = x19,
        mq_innodb_buffer_pool_read_requests = x20, mq_innodb_buffer_pool_reads = x21,
        mq_innodb_buffer_pool_hit_percent = toFloat row 22, mq_innodb_row_lock_waits = x23,
        mq_innodb_row_lock_time_avg_ms = toFloat row 24, mq_replication_configured = toBool row 25,
        mq_replication_running = toBool row 26, mq_replication_lag_seconds = toFloat row 27,
        mq_connection_used_percent = toFloat row 28, mq_qps = toFloat row 29, mq_tps = toFloat row 30,
        mq_slow_queries_rate = toFloat row 31, mq_innodb_row_lock_waits_rate = toFloat row 32\<rparr> }"

definition mysql_select :: string where
  "mysql_select =
     ''server_name, instance, timestamp, mysql_host, mysql_port, up, version, `role`, '' @
     ''max_connections, threads_connected, threads_running, aborted_connects, questions, '' @
     ''com_select, com_insert, com_update, com_delete, com_commit, com_rollback, slow_queries, '' @
     ''innodb_buffer_pool_read_requests, innodb_buffer_pool_reads, innodb_buffer_pool_hit_percent, '' @
     ''innodb_row_lock_waits, innodb_row_lock_time_avg_ms, replication_configured, '' @
     ''replication_running, replication_lag_seconds, connection_used_percent, qps, tps, '' @
     ''slow_queries_rate, innodb_row_lock_waits_rate''"

definition queryMysqlDetailRecords ::
  "query_env \<Rightarrow> QueryManager \<Rightarrow> QueryScope \<Rightarrow> string \<Rightarrow> TimeRange \<Rightarrow> int \<Rightarrow> int \<Rightarrow> int option
     \<Rightarrow> MysqlDetailRecord answer run \<times> QueryManager" where
  "queryMysqlDetailRecords = queryPage ''server_mysql_detail'' mysql_select ''mysql detail'' mysql_detail_record"

definition redis_detail_record :: "query_env \<Rightarrow> string list \<Rightarrow> RedisDetailRecord option" where
  "redis_detail_record E row =
     do {
       x4 \<leftarrow> toI64 row 4; x8 \<leftarrow> toU64 row 8; x9 \<leftarrow> toU64 row 9;
       x10 \<leftarrow> toU64 row 10; x11 \<leftarrow> toU64 row 11; x13 \<leftarrow> toU64 row 13;
       x14 \<leftarrow> toU64 row 14; x17 \<leftarrow> toU64 row 17; x20 \<leftarrow> toU64 row 20;
       x21 \<leftarrow> toU64 row 21; x23 \<leftarrow> toU64 row 23; x24 \<leftarrow> toU64 row 24;
       x25 \<leftarrow> toU64 row 25; x26 \<leftarrow> toU64 row 26; x27 \<leftarrow> toU64 row 27;
       x28 \<leftarrow> toU64 row 28; x33 \<leftarrow> toU64 row 33; x35 \<leftarrow> toU64 row 35;
       Some \<lparr>rr_server_name = cell row 0, rr_instance = cell row 1, rr_timestamp = time_cell E row 2,
        rr_redis_host = cell row 3, rr_redis_port = wrap32 x4, rr_up = toBool row 5,
        rr_version = cell row 6, rr_role = cell row 7, rr_uptime_in_seconds = x8,
        rr_connected_clients = x9, rr_blocked_clients = x10, rr_maxclients = x11,
        rr_connection_used_percent = toFloat row 12, rr_used_memory = x13, rr_maxmemory = x14,
        rr_mem_fragmentation_ratio = toFloat row 15, rr_memory_used_percent = toFloat row 16,
        rr_total_commands_processed = x17, rr_instantaneous_ops_per_sec = toFloat row 18,
        rr_commands_per_sec = toFloat row 19, rr_keyspace_hits = x20, rr_keyspace_misses = x21,
        rr_keyspace_hit_percent = toFloat row 22, rr_expired_keys = x23, rr_evicted_keys = x24,
        rr_rejected_connections = x25, rr_total_error_replies = x26, rr_total_net_input_bytes = x27,
        rr_total_net_output_bytes = x28, rr_net_input_bytes_per_sec = toFloat row 29,
        rr_net_output_bytes_per_sec = toFloat row 30, rr_replication_configured = toBool row 31,
        rr_master_link_up = toBool row 32, rr_connected_slaves = x33,
        rr_master_last_io_seconds_ago = toFloat row 34, rr_slowlog_len = x35,
        rr_slowlog_growth = toFloat row 36\<rparr> }"

definition redis_select :: string where
  "redis_select =
     ''server_name, instance, timestamp, redis_host, redis_port, up, version, `role`, '' @
     ''uptime_in_seconds, connected_clients, blocked_clients, maxclients, connection_used_percent, '' @
     ''used_memory, maxmemory, mem_fragmentation_ratio, memory_used_percent, '' @
     ''total_commands_processed, instantaneous_ops_per_sec, commands_per_sec, keyspace_hits, '' @
     ''keyspace_misses, keyspace_hit_percent, expired_keys, evicted_keys, rejected_connections, '' @
     ''total_error_replies, total_net_input_bytes, total_net_output_bytes, net_input_bytes_per_sec, '' @
     ''net_output_bytes_per_sec, replication_configured, master_link_up, connected_slaves, '' @
     ''master_last_io_seconds_ago, slowlog_len, slowlog_growth''"

definition queryRedisDetailRecords ::
  "query_env \<Rightarrow> QueryManager \<Rightarrow> QueryScope \<Rightarrow> string \<Rightarrow> TimeRange \<Rightarrow> int \<Rightarrow> int \<Rightarrow> int option
     \<Rightarrow> RedisDetailRecord answer run \<times> QueryManager" where
  "queryRedisDetailRecords = queryPage ''server_redis_detail'' redis_select ''redis detail'' redis_detail_record"

section \<open>Trend\<close>

definition trend_record :: "query_env \<Rightarrow> string list \<Rightarrow> PerformanceRecord option" where
  "trend_record E row =
     Some \<lparr>pr_server_name = cell row 0, pr_timestamp = time_cell E row 1, pr_cpu_percent = toFloat row 2,
        pr_usr_percent = toFloat row 3, pr_sys_percent = toFloat row 4, pr_nice_percent = Fin 0,
        pr_idle_percent = Fin 0, pr_io_wait_percent = toFloat row 5, pr_irq_percent = Fin 0,
        pr_soft_irq_percent = Fin 0, pr_load_avg_1 = toFloat row 6, pr_load_avg_3 = toFloat row 7,
        pr_load_avg_15 = toFloat row 8, pr_mem_used_percent = toFloat row 9, pr_mem_total = Fin 0,
        pr_mem_free = Fin 0, pr_mem_avail = Fin 0, pr_disk_util_percent = toFloat row 10,
        pr_net_recv_bytes = toFloat row 12, pr_net_sent_bytes = toFloat row 11,
        pr_score = toFloat row 13, pr_cpu_percent_rate = toFloat row 14,
        pr_mem_used_percent_rate = toFloat row 15, pr_disk_util_percent_rate = toFloat row 16,
        pr_load_avg_1_rate = toFloat row 17, pr_net_recv_bytes_rate = Fin 0,
        pr_net_sent_bytes_rate = Fin 0\<rparr>"

definition trend_select :: string where
  "trend_select =
     ''server_name, timestamp, cpu_percent, usr_percent, system_percent, io_wait_percent, '' @
     ''load_avg_1, load_avg_3, load_avg_15, mem_used_percent, disk_util_percent, send_rate, '' @
     ''rcv_rate, score, cpu_percent_rate, mem_used_percent_rate, disk_util_percent_rate, '' @
     ''load_avg_1_rate''"

definition trend_average :: string where
  "trend_average =
     ''server_name, FROM_UNIXTIME(FLOOR(UNIX_TIMESTAMP(timestamp) / ?) * ?) as time_bucket, '' @
     ''AVG(cpu_percent) as cpu_percent, AVG(usr_percent) as usr_percent, AVG(system_percent) as '' @
     ''system_percent, AVG(io_wait_percent) as io_wait_percent, AVG(load_avg_1) as load_avg_1, '' @
     ''AVG(load_avg_3) as load_avg_3, AVG(load_avg_15) as load_avg_15, AVG(mem_used_percent) as '' @
     ''mem_used_percent, AVG(disk_util_percent) as disk_util_percent, AVG(send_rate) as send_rate, '' @
     ''AVG(rcv_rate) as rcv_rate, AVG(score) as score, AVG(cpu_percent_rate) as cpu_percent_rate, '' @
     ''AVG(mem_used_percent_rate) as mem_used_percent_rate, AVG(disk_util_percent_rate) as '' @
     ''disk_util_percent_rate, AVG(load_avg_1_rate) as load_avg_1_rate''"

definition queryTrend ::
  "query_env \<Rightarrow> QueryManager \<Rightarrow> QueryScope \<Rightarrow> string \<Rightarrow> TimeRange \<Rightarrow> int
     \<Rightarrow> PerformanceRecord answer run \<times> QueryManager" where
  "queryTrend E q scope serverName r intervalSeconds =
     guarded E q scope (Some r) None
       (let wh = whereClause scope; ps = whereParams E scope serverName r;
            (sql, params) =
              (if 0 < intervalSeconds
               then (''SELECT '' @ trend_average @ '' FROM server_performance '' @ wh
                       @ '' GROUP BY server_name, time_bucket ORDER BY time_bucket'',
                     [Int64Param intervalSeconds, Int64Param intervalSeconds] @ ps)
               else (''SELECT '' @ trend_select @ '' FROM server_performance '' @ wh @ '' ORDER BY timestamp'', ps))
        in case executePreparedRows E sql params ''trend query'' of
             Inl e \<Rightarrow> failing None e
           | Inr rows \<Rightarrow> parsed None (those (map (trend_record E) rows)))"

section \<open>Anomalies\<close>

definition anomaly ::
  "string \<Rightarrow> int \<Rightarrow> string \<Rightarrow> string \<Rightarrow> fp \<Rightarrow> fp \<Rightarrow> string \<Rightarrow> AnomalyRecord" where
  "anomaly name ts type metric v limit severity =
    \<lparr>ar_server_name = name, ar_timestamp = ts, ar_anomaly_type = type, ar_severity = severity, ar_value = v,
     ar_threshold = limit, ar_metric_name = metric\<rparr>"

definition level :: "bool \<Rightarrow> string" where
  "level critical = (if critical then ''CRITICAL'' else ''WARNING'')"

definition perf_anomalies :: "query_env \<Rightarrow> AnomalyThreshold \<Rightarrow> string list \<Rightarrow> AnomalyRecord list" where
  "perf_anomalies E t row =
     (let name = cell row 0; ts = time_cell E row 1; cpu = toFloat row 2; mem = toFloat row 3; disk = toFloat row 4;
          cpu_rate = toFloat row 5; mem_rate = toFloat row 6;
          high = (\<lambda>type metric v limit. if flt limit v
                    then [anomaly name ts type metric v limit (level (flt (Fin 95) v))] else []);
          spike = (\<lambda>metric v. if flt (at_change_rate_threshold t) (fabs v)
                    then [anomaly name ts ''RATE_SPIKE'' metric v (at_change_rate_threshold t) (level (flt (Fin 1) (fabs v)))]
                    else [])
      in high ''CPU_HIGH'' ''cpu_percent'' cpu (at_cpu_threshold t)
         @ high ''MEM_HIGH'' ''mem_used_percent'' mem (at_memory_threshold t)
         @ high ''DISK_HIGH'' ''disk_util_percent'' disk (at_disk_threshold t)
         @ spike ''cpu_percent_rate'' cpu_rate @ spike ''mem_used_percent_rate'' mem_rate)"

definition metric_of :: "string \<Rightarrow> string \<Rightarrow> string" where
  "metric_of inst metric = (if inst = [] then metric else inst @ ''.'' @ metric)"

definition mysql_anomalies :: "query_env \<Rightarrow> AnomalyThreshold \<Rightarrow> string list \<Rightarrow> AnomalyRecord list" where
  "mysql_anomalies E t row =
     (let name = cell row 0; ts = time_cell E row 1; inst = cell row 2; up = toBool row 3;
          connectionUsed = toFloat row 4; replicationLag = toFloat row 5; slowQueryRate = toFloat row 6;
          lockWaitRate = toFloat row 7; bufferPoolHit = toFloat row 8;
          add = (\<lambda>cond type metric v limit critical. if cond
                   then [anomaly name ts type (metric_of inst metric) v limit (level critical)] else []);
          times = (\<lambda>n limit. fmul f32 limit (Fin n))
      in add (\<not> up) ''MYSQL_DOWN'' ''up'' (Fin 0) (Fin 1) True
         @ add (flt (at_mysql_connection_threshold t) connectionUsed)
             (if flt (Fin 95) connectionUsed then ''MYSQL_CONNECTION_CRITICAL'' else ''MYSQL_CONNECTION_HIGH'')
             ''connection_used_percent'' connectionUsed (at_mysql_connection_threshold t) (flt (Fin 95) connectionUsed)
         @ add (flt (at_mysql_replication_lag_threshold t) replicationLag) ''MYSQL_REPLICATION_LAG''
             ''replication_lag_seconds'' replicationLag (at_mysql_replication_lag_threshold t)
             (flt (times 2 (at_mysql_replication_lag_threshold t)) replicationLag)
         @ add (flt (at_mysql_slow_query_rate_threshold t) slowQueryRate) ''MYSQL_SLOW_QUERY_SPIKE''
             ''slow_queries_rate'' slowQueryRate (at_mysql_slow_query_rate_threshold t)
             (flt (times 5 (at_mysql_slow_query_rate_threshold t)) slowQueryRate)
         @ add (flt (at_mysql_lock_wait_rate_threshold t) lockWaitRate) ''MYSQL_LOCK_WAIT_SPIKE''
             ''innodb_row_lock_waits_rate'' lockWaitRate (at_mysql_lock_wait_rate_threshold t)
             (flt (times 5 (at_mysql_lock_wait_rate_threshold t)) lockWaitRate)
         @ add (flt (Fin 0) bufferPoolHit \<and> flt bufferPoolHit (at_mysql_buffer_pool_hit_threshold t)) ''MYSQL_BUFFER_POOL_LOW''
             ''innodb_buffer_pool_hit_percent'' bufferPoolHit (at_mysql_buffer_pool_hit_threshold t)
             (flt bufferPoolHit (Fin 90)))"

definition redis_anomalies :: "query_env \<Rightarrow> AnomalyThreshold \<Rightarrow> string list \<Rightarrow> AnomalyRecord list" where
  "redis_anomalies E t row =
     (let name = cell row 0; ts = time_cell E row 1; inst = cell row 2; up = toBool row 3;
          connectionUsed = toFloat row 4; memoryUsed = toFloat row 5; hitRate = toFloat row 6;
          replicationConfigured = toBool row 7; masterLinkUp = toBool row 8; replicationLag = toFloat row 9;
          rejectedConnections = toFloat row 10; slowlogGrowth = toFloat row 11;
          add = (\<lambda>cond type metric v limit critical. if cond
                   then [anomaly name ts type (metric_of inst metric) v limit (level critical)] else []);
          times = (\<lambda>n limit. fmul f32 limit (Fin n))
      in add (\<not> up) ''REDIS_DOWN'' ''up'' (Fin 0) (Fin 1) True
         @ add (flt (at_redis_connection_threshold t) connectionUsed)
             (if flt (Fin 95) connectionUsed then ''REDIS_CONNECTION_CRITICAL'' else ''REDIS_CONNECTION_HIGH'')
             ''connection_used_percent'' connectionUsed (at_redis_connection_threshold t) (flt (Fin 95) connectionUsed)
         @ add (flt (at_redis_memory_threshold t) memoryUsed)
             (if flt (Fin 95) memoryUsed then ''REDIS_MEMORY_CRITICAL'' else ''REDIS_MEMORY_HIGH'')
             ''memory_used_percent'' memoryUsed (at_redis_memory_threshold t) (flt (Fin 95) memoryUsed)
         @ add (flt (Fin 0) hitRate \<and> flt hitRate (at_redis_hit_rate_threshold t)) ''REDIS_HIT_RATE_LOW''
             ''keyspace_hit_percent'' hitRate (at_redis_hit_rate_threshold t) (flt hitRate (Fin 60))
         @ add (replicationConfigured \<and> \<not> masterLinkUp) ''REDIS_REPLICATION_LINK_DOWN'' ''master_link_up'' (Fin 0) (Fin 1) True
         @ add (flt (at_redis_replication_lag_threshold t) replicationLag) ''REDIS_REPLICATION_LAG''
             ''master_last_io_seconds_ago'' replicationLag (at_redis_replication_lag_threshold t)
             (flt (times 2 (at_redis_replication_lag_threshold t)) replicationLag)
         @ add (flt (Fin 0) rejectedConnections) ''REDIS_REJECTED_CONNECTIONS''
             ''rejected_connections'' rejectedConnections (Fin 0) False
         @ add (flt (at_redis_slowlog_growth_threshold t) slowlogGrowth) ''REDIS_SLOWLOG_GROWTH''
             ''slowlog_growth'' slowlogGrowth (at_redis_slowlog_growth_threshold t)
             (flt (times 5 (at_redis_slowlog_growth_threshold t)) slowlogGrowth))"

text \<open>The three statements: the same scope and time range, each with its own condition.\<close>

definition anomaly_where :: "QueryScope \<Rightarrow> string \<Rightarrow> string" where
  "anomaly_where scope serverName =
     scopePredicate scope @ '' AND timestamp BETWEEN ? AND ?'' @ (if serverName \<noteq> [] then '' AND server_name=?'' else [])"

definition anomaly_params :: "query_env \<Rightarrow> QueryScope \<Rightarrow> string \<Rightarrow> TimeRange \<Rightarrow> fp list \<Rightarrow> SqlParam list" where
  "anomaly_params E scope serverName r limits =
     scopeParams scope @ [StringParam (q_formatTimePoint E (tr_start_time r)),
       StringParam (q_formatTimePoint E (tr_end_time r))]
     @ (if serverName \<noteq> [] then [StringParam serverName] else []) @ map DoubleParam limits"

definition perf_anomaly_select :: string where
  "perf_anomaly_select =
     ''SELECT server_name, timestamp, cpu_percent, mem_used_percent, disk_util_percent, '' @
     ''cpu_percent_rate, mem_used_percent_rate FROM server_performance WHERE ''"

definition perf_anomaly_cond :: string where
  "perf_anomaly_cond =
     '' '' @ ''AND (cpu_percent > ? OR mem_used_percent > ? OR disk_util_percent > ? OR '' @
     ''ABS(cpu_percent_rate) > ? OR ABS(mem_used_percent_rate) > ?)'' @ '' ORDER BY timestamp DESC''"

definition perf_anomaly_sql :: "QueryScope \<Rightarrow> string \<Rightarrow> string" where
  "perf_anomaly_sql scope serverName =
     perf_anomaly_select @ anomaly_where scope serverName @ perf_anomaly_cond"

definition mysql_anomaly_select :: string where
  "mysql_anomaly_select =
     ''SELECT server_name, timestamp, instance, up, connection_used_percent, '' @
     ''replication_lag_seconds, slow_queries_rate, innodb_row_lock_waits_rate, '' @
     ''innodb_buffer_pool_hit_percent FROM server_mysql_detail WHERE ''"

definition mysql_anomaly_cond :: string where
  "mysql_anomaly_cond =
     '' '' @ ''AND (up=0 OR connection_used_percent > ? OR (replication_configured=1 AND '' @
     ''replication_lag_seconds > ?) OR slow_queries_rate > ? OR innodb_row_lock_waits_rate > ? OR '' @
     ''(innodb_buffer_pool_hit_percent > 0 AND innodb_buffer_pool_hit_percent < ?))'' @ '' ORDER BY timestamp DESC''"

definition mysql_anomaly_sql :: "QueryScope \<Rightarrow> string \<Rightarrow> string" where
  "mysql_anomaly_sql scope serverName =
     mysql_anomaly_select @ anomaly_where scope serverName @ mysql_anomaly_cond"

definition redis_anomaly_select :: string where
  "redis_anomaly_select =
     ''SELECT server_name, timestamp, instance, up, connection_used_percent, memory_used_percent, '' @
     ''keyspace_hit_percent, replication_configured, master_link_up, master_last_io_seconds_ago, '' @
     ''rejected_connections, slowlog_growth FROM server_redis_detail WHERE ''"

definition redis_anomaly_cond :: string where
  "redis_anomaly_cond =
     '' '' @ ''AND (up=0 OR connection_used_percent > ? OR memory_used_percent > ? OR (keyspace_hit_percent '' @
     ''> 0 AND keyspace_hit_percent < ?) OR (replication_configured=1 AND master_link_up=0) OR '' @
     ''master_last_io_seconds_ago > ? OR rejected_connections > 0 OR slowlog_growth > ?)'' @ '' ORDER BY timestamp DESC''"

definition redis_anomaly_sql :: "QueryScope \<Rightarrow> string \<Rightarrow> string" where
  "redis_anomaly_sql scope serverName =
     redis_anomaly_select @ anomaly_where scope serverName @ redis_anomaly_cond"

definition perf_limits :: "AnomalyThreshold \<Rightarrow> fp list" where
  "perf_limits t = [at_cpu_threshold t, at_memory_threshold t, at_disk_threshold t, at_change_rate_threshold t,
     at_change_rate_threshold t]"

definition mysql_limits :: "AnomalyThreshold \<Rightarrow> fp list" where
  "mysql_limits t = [at_mysql_connection_threshold t, at_mysql_replication_lag_threshold t,
     at_mysql_slow_query_rate_threshold t, at_mysql_lock_wait_rate_threshold t, at_mysql_buffer_pool_hit_threshold t]"

definition redis_limits :: "AnomalyThreshold \<Rightarrow> fp list" where
  "redis_limits t = [at_redis_connection_threshold t, at_redis_memory_threshold t, at_redis_hit_rate_threshold t,
     at_redis_replication_lag_threshold t, at_redis_slowlog_growth_threshold t]"

text \<open>The three lists of a query, or the error of the statement that failed with what was found before it.\<close>

definition collect_anomalies ::
  "query_env \<Rightarrow> QueryScope \<Rightarrow> string \<Rightarrow> TimeRange \<Rightarrow> AnomalyThreshold \<Rightarrow> (string \<times> AnomalyRecord list) + AnomalyRecord list" where
  "collect_anomalies E scope serverName r t =
     (let run = (\<lambda>sql limits. executePreparedRows E (sql scope serverName) (anomaly_params E scope serverName r limits))
      in case run perf_anomaly_sql (perf_limits t) ''anomaly query'' of
           Inl e \<Rightarrow> Inl (e, [])
         | Inr rows \<Rightarrow>
             (let as = concat (map (perf_anomalies E t) rows)
              in case run mysql_anomaly_sql (mysql_limits t) ''mysql anomaly query'' of
                   Inl e \<Rightarrow> Inl (e, as)
                 | Inr rows \<Rightarrow>
                     (let as = as @ concat (map (mysql_anomalies E t) rows)
                      in case run redis_anomaly_sql (redis_limits t) ''redis anomaly query'' of
                           Inl e \<Rightarrow> Inl (e, as)
                         | Inr rows \<Rightarrow> Inr (as @ concat (map (redis_anomalies E t) rows)))))"

text \<open>
  The page is cut out of the sorted list; \<open>srt\<close> is \<open>std::sort\<close> by descending time, which does
  not say how equal times are ordered. Adding the page size to the offset can overflow too.
\<close>

definition cut_page :: "int \<Rightarrow> int \<Rightarrow> 'r list \<Rightarrow> 'r list option" where
  "cut_page off pageSize rs =
     (if int (length rs) \<le> off then Some []
      else if 2 ^ 31 \<le> off + pageSize then None
      else Some (take (nat (min (off + pageSize) (int (length rs)) - off)) (drop (nat off) rs)))"

definition queryAnomalyRecords ::
  "(AnomalyRecord list \<Rightarrow> AnomalyRecord list) \<Rightarrow> query_env \<Rightarrow> QueryManager \<Rightarrow> QueryScope \<Rightarrow> string \<Rightarrow> TimeRange
     \<Rightarrow> AnomalyThreshold \<Rightarrow> int \<Rightarrow> int \<Rightarrow> int option \<Rightarrow> AnomalyRecord answer run \<times> QueryManager" where
  "queryAnomalyRecords srt E q scope serverName r t page pageSize cnt =
     guarded E q scope (Some r) cnt
       (case collect_anomalies E scope serverName r t of
          Inl (e, as) \<Rightarrow> Returns \<lparr>a_records = as, a_total = cnt, a_error = e\<rparr>
        | Inr as \<Rightarrow>
            (let as = srt as; cnt = map_option (\<lambda>_. int (length as)) cnt
             in case page_offset (fix_page page) (fix_size pageSize) of None \<Rightarrow> Undefined
                | Some off \<Rightarrow>
                    (case cut_page off (fix_size pageSize) as of None \<Rightarrow> Undefined
                     | Some rs \<Rightarrow> Returns \<lparr>a_records = rs, a_total = cnt, a_error = []\<rparr>)))"

section \<open>Scores\<close>

definition score_summary :: "query_env \<Rightarrow> string list \<Rightarrow> ServerScoreSummary" where
  "score_summary E row =
     (let updated = time_cell E row 2
      in \<lparr>ss_server_name = cell row 0, ss_score = toFloat row 1, ss_last_updated = updated,
          ss_status = (if 60 < cdiv (q_now E - updated) 1000000000 then OFFLINE else ONLINE),
          ss_cpu_percent = toFloat row 3, ss_mem_used_percent = toFloat row 4,
          ss_disk_util_percent = toFloat row 5, ss_load_avg_1 = toFloat row 6\<rparr>)"

definition latest_sql :: "QueryScope \<Rightarrow> string" where
  "latest_sql scope =
     ''SELECT p1.server_name, p1.score, p1.timestamp, p1.cpu_percent, ''
     @ ''p1.mem_used_percent, p1.disk_util_percent, p1.load_avg_1 ''
     @ ''FROM server_performance p1 INNER JOIN (''
     @ ''  SELECT tenant_id, team_id, cluster_id, server_name, MAX(timestamp) as max_ts ''
     @ ''  FROM server_performance WHERE '' @ scopePredicate scope
     @ '' GROUP BY tenant_id, team_id, cluster_id, server_name''
     @ '') p2 ON p1.tenant_id = p2.tenant_id AND p1.team_id = p2.team_id ''
     @ ''AND p1.cluster_id = p2.cluster_id AND p1.server_name = p2.server_name ''
     @ ''AND p1.timestamp = p2.max_ts ORDER BY p1.score ''"

definition queryServerScoreRank ::
  "query_env \<Rightarrow> QueryManager \<Rightarrow> QueryScope \<Rightarrow> SortOrder \<Rightarrow> int \<Rightarrow> int \<Rightarrow> int option
     \<Rightarrow> ServerScoreSummary answer run \<times> QueryManager" where
  "queryServerScoreRank E q scope order page pageSize cnt =
     guarded E q scope None cnt
       (let page = fix_page page; pageSize = fix_size pageSize
        in case (case cnt of None \<Rightarrow> Inr None
                 | Some _ \<Rightarrow> map_sum id Some
                     (executePreparedCount E
                       (''SELECT COUNT(DISTINCT server_name) FROM server_performance WHERE '' @ scopePredicate scope)
                       (scopeParams scope) ''score rank count'')) of
             Inl e \<Rightarrow> failing (Some 0) e
           | Inr cnt \<Rightarrow>
               (case page_offset page pageSize of None \<Rightarrow> Undefined
                | Some off \<Rightarrow>
                    (case executePreparedRows E
                            (latest_sql scope @ (if order = ASC then ''ASC'' else ''DESC'') @ '' LIMIT ? OFFSET ?'')
                            (scopeParams scope @ [Int64Param pageSize, Int64Param off]) ''score rank query'' of
                       Inl e \<Rightarrow> failing cnt e
                     | Inr rows \<Rightarrow> parsed cnt (Some (map (score_summary E) rows)))))"

text \<open>The running totals of the loop over the servers.\<close>

record tally =
  totalScore :: fp
  maxScore :: fp
  minScore :: fp
  bestServer :: string
  worstServer :: string
  onlineCount :: int
  offlineCount :: int

definition tally_zero :: tally where
  "tally_zero = \<lparr>totalScore = Fin 0, maxScore = Fin 0, minScore = MAX_SCORE, bestServer = [], worstServer = [],
     onlineCount = 0, offlineCount = 0\<rparr>"

definition tally_add :: "ServerScoreSummary \<Rightarrow> tally \<Rightarrow> tally" where
  "tally_add s y =
     (let y = (if ss_status s = ONLINE then y\<lparr>onlineCount := onlineCount y + 1\<rparr> else y\<lparr>offlineCount := offlineCount y + 1\<rparr>);
          y = y\<lparr>totalScore := fadd f32 (totalScore y) (ss_score s)\<rparr>;
          y = (if flt (maxScore y) (ss_score s) then y\<lparr>maxScore := ss_score s, bestServer := ss_server_name s\<rparr> else y)
      in if flt (ss_score s) (minScore y) then y\<lparr>minScore := ss_score s, worstServer := ss_server_name s\<rparr> else y)"

definition cluster_stats :: "ServerScoreSummary list \<Rightarrow> ClusterStats" where
  "cluster_stats rs =
     (let y = fold tally_add rs tally_zero
      in \<lparr>st_total_servers = int (length rs), st_online_servers = onlineCount y, st_offline_servers = offlineCount y,
          st_avg_score = (if rs = [] then Fin 0 else fdiv f32 (totalScore y) (f32_of_int (int (length rs)))),
          st_max_score = (if flt (Fin 0) (maxScore y) then maxScore y else Fin 0),
          st_min_score = (if flt (minScore y) MAX_SCORE then minScore y else Fin 0),
          st_best_server = bestServer y, st_worst_server = worstServer y\<rparr>)"

text \<open>The caller's statistics are only written when the query succeeds.\<close>

definition queryLatestServerScores ::
  "query_env \<Rightarrow> QueryManager \<Rightarrow> QueryScope \<Rightarrow> (ServerScoreSummary answer run \<times> ClusterStats option) \<times> QueryManager" where
  "queryLatestServerScores E q scope =
     (case guarded E q scope None None
             (case executePreparedRows E (latest_sql scope @ ''DESC'') (scopeParams scope) ''latest score query'' of
                Inl e \<Rightarrow> failing None e
              | Inr rows \<Rightarrow> parsed None (Some (map (score_summary E) rows))) of
        (r, q) \<Rightarrow>
          ((r, case r of Returns a \<Rightarrow> if a_error a = [] then Some (cluster_stats (a_records a)) else None | _ \<Rightarrow> None), q))"

end
