(* ===== verification/Query_Correct.thy ===== *)
theory Query_Correct
  imports Query_Manager "HOL-Library.Multiset"
begin

text \<open>
  What the queries of \<open>Query_Manager\<close> guarantee: every statement is bound to the scope of
  the request, the pages of a result are a partition of it, the statistics of a cluster are
  those of its servers, and what happens on each error.
\<close>

section \<open>Statements bound to a scope\<close>

text \<open>
  A statement is bound to a scope when it has as many placeholders as parameters and holds
  the scope's condition with the scope's identifiers at its placeholders.
\<close>

definition placeholders :: "string \<Rightarrow> nat" where
  "placeholders s = length (filter (\<lambda>c. c = CHR ''?'') s)"

definition bound_to :: "QueryScope \<Rightarrow> string \<Rightarrow> SqlParam list \<Rightarrow> bool" where
  "bound_to scope sql ps \<longleftrightarrow> placeholders sql = length ps \<and>
     (\<exists>a b xs ys. sql = a @ scopePredicate scope @ b \<and> ps = xs @ scopeParams scope @ ys
        \<and> placeholders a = length xs)"

text \<open>Two databases that answer alike to everything bound to the scope.\<close>

definition agree :: "QueryScope \<Rightarrow> (string \<Rightarrow> SqlParam list \<Rightarrow> stmt_reply) \<Rightarrow> (string \<Rightarrow> SqlParam list \<Rightarrow> stmt_reply) \<Rightarrow> bool" where
  "agree scope db db' \<longleftrightarrow> (\<forall>sql ps. bound_to scope sql ps \<longrightarrow> db sql ps = db' sql ps)"

lemma placeholders_append [simp]: "placeholders (a @ b) = placeholders a + placeholders b"
  by (simp add: placeholders_def)

lemma placeholders_Cons: "placeholders (c # s) = (if c = CHR ''?'' then 1 else 0) + placeholders s"
  by (simp add: placeholders_def)

lemma placeholders_Nil [simp]: "placeholders [] = 0"
  by (simp add: placeholders_def)

lemma scope_placeholders [simp]: "placeholders (scopePredicate scope) = length (scopeParams scope)"
  by (simp add: scopePredicate_def scopeParams_def placeholders_def)

lemma bound_toI:
  assumes "placeholders a = length xs" "placeholders b = length ys"
  shows "bound_to scope (a @ scopePredicate scope @ b) (xs @ scopeParams scope @ ys)"
  using assms unfolding bound_to_def by (auto intro!: exI)

lemma rows_agree:
  assumes "agree scope (q_db E) db" "bound_to scope sql ps"
  shows "executePreparedRows (E\<lparr>q_db := db\<rparr>) sql ps ctxt = executePreparedRows E sql ps ctxt"
  using assms by (simp add: executePreparedRows_def agree_def)

lemma count_agree:
  assumes "agree scope (q_db E) db" "bound_to scope sql ps"
  shows "executePreparedCount (E\<lparr>q_db := db\<rparr>) sql ps ctxt = executePreparedCount E sql ps ctxt"
  by (simp add: executePreparedCount_def rows_agree [OF assms])

lemma where_bound:
  assumes "placeholders pre = length xs" "placeholders post = length ys"
  shows "bound_to scope (pre @ whereClause scope @ post) (xs @ whereParams E scope n r @ ys)"
proof -
  have "placeholders (pre @ ''WHERE '') = length xs"
    "placeholders ('' AND server_name=? AND timestamp BETWEEN ? AND ?'' @ post)
       = length ([StringParam n, StringParam (q_formatTimePoint E (tr_start_time r)),
           StringParam (q_formatTimePoint E (tr_end_time r))] @ ys)"
    using assms by (simp_all add: placeholders_Cons)
  from bound_toI [OF this] show ?thesis by (simp add: whereClause_def whereParams_def)
qed

lemma anomaly_bound:
  assumes "placeholders pre = 0" "placeholders post = length limits"
  shows "bound_to scope (pre @ anomaly_where scope n @ post) (anomaly_params E scope n r limits)"
proof -
  have "placeholders pre = length []"
    "placeholders (('' AND timestamp BETWEEN ? AND ?'' @ (if n \<noteq> [] then '' AND server_name=?'' else [])) @ post)
       = length ([StringParam (q_formatTimePoint E (tr_start_time r)), StringParam (q_formatTimePoint E (tr_end_time r))]
           @ (if n \<noteq> [] then [StringParam n] else []) @ map DoubleParam limits)"
    using assms by (simp_all add: placeholders_Cons)
  from bound_toI [OF this, of scope] show ?thesis by (simp add: anomaly_where_def anomaly_params_def)
qed

lemma env_db_simps [simp]:
  "q_got (E\<lparr>q_db := db\<rparr>) = q_got E" "q_now (E\<lparr>q_db := db\<rparr>) = q_now E"
  "whereParams (E\<lparr>q_db := db\<rparr>) = whereParams E" "anomaly_params (E\<lparr>q_db := db\<rparr>) = anomaly_params E"
  "time_cell (E\<lparr>q_db := db\<rparr>) = time_cell E" "acquireConnection (E\<lparr>q_db := db\<rparr>) = acquireConnection E"
  "guarded (E\<lparr>q_db := db\<rparr>) = guarded E"
  by (auto simp: whereParams_def anomaly_params_def time_cell_def acquireConnection_def guarded_def fun_eq_iff)

lemma select_placeholders [simp]:
  "placeholders perf_select = 0" "placeholders net_select = 0" "placeholders disk_select = 0"
  "placeholders mem_select = 0" "placeholders sirq_select = 0" "placeholders mysql_select = 0"
  "placeholders redis_select = 0" "placeholders trend_select = 0" "placeholders trend_average = 2"
  by (simp_all add: perf_select_def net_select_def disk_select_def mem_select_def sirq_select_def mysql_select_def
      redis_select_def trend_select_def trend_average_def placeholders_Cons)

lemma parsers_env [simp]:
  "performance_record (E\<lparr>q_db := db\<rparr>) = performance_record E" "net_detail_record (E\<lparr>q_db := db\<rparr>) = net_detail_record E"
  "disk_detail_record (E\<lparr>q_db := db\<rparr>) = disk_detail_record E" "mem_detail_record (E\<lparr>q_db := db\<rparr>) = mem_detail_record E"
  "softirq_detail_record (E\<lparr>q_db := db\<rparr>) = softirq_detail_record E" "mysql_detail_record (E\<lparr>q_db := db\<rparr>) = mysql_detail_record E"
  "redis_detail_record (E\<lparr>q_db := db\<rparr>) = redis_detail_record E" "trend_record (E\<lparr>q_db := db\<rparr>) = trend_record E"
  "score_summary (E\<lparr>q_db := db\<rparr>) = score_summary E" "perf_anomalies (E\<lparr>q_db := db\<rparr>) = perf_anomalies E"
  "mysql_anomalies (E\<lparr>q_db := db\<rparr>) = mysql_anomalies E" "redis_anomalies (E\<lparr>q_db := db\<rparr>) = redis_anomalies E"
  by (simp_all add: fun_eq_iff performance_record_def net_detail_record_def disk_detail_record_def mem_detail_record_def
      softirq_detail_record_def mysql_detail_record_def redis_detail_record_def trend_record_def score_summary_def
      perf_anomalies_def mysql_anomalies_def redis_anomalies_def)

lemma page_agree:
  assumes "agree scope (q_db E) db" "placeholders cols = 0" "placeholders table = 0" "parse (E\<lparr>q_db := db\<rparr>) = parse E"
  shows "queryPage table cols ctxt parse (E\<lparr>q_db := db\<rparr>) q scope n r page pageSize cnt
       = queryPage table cols ctxt parse E q scope n r page pageSize cnt"
proof -
  have c: "bound_to scope (''SELECT COUNT(*) FROM '' @ table @ '' '' @ whereClause scope) (whereParams E scope n r)"
    using where_bound [of "''SELECT COUNT(*) FROM '' @ table @ '' ''" "[]" "[]" "[]" scope E n r] assms(3)
    by (simp add: placeholders_Cons)
  have s: "bound_to scope (''SELECT '' @ cols @ '' FROM '' @ table @ '' '' @ whereClause scope @ '' ORDER BY timestamp DESC LIMIT ? OFFSET ?'')
      (whereParams E scope n r @ [Int64Param k, Int64Param off])" for k off
    using where_bound [of "''SELECT '' @ cols @ '' FROM '' @ table @ '' ''" "[]" "'' ORDER BY timestamp DESC LIMIT ? OFFSET ?''"
        "[Int64Param k, Int64Param off]" scope E n r] assms(2,3)
    by (simp add: placeholders_Cons)
  show ?thesis
    unfolding queryPage_def Let_def env_db_simps assms(4) count_agree [OF assms(1) c] rows_agree [OF assms(1) s] ..
qed

lemma trend_agree:
  assumes "agree scope (q_db E) db"
  shows "queryTrend (E\<lparr>q_db := db\<rparr>) q scope n r iv = queryTrend E q scope n r iv"
proof -
  have a: "bound_to scope (''SELECT '' @ trend_average @ '' FROM server_performance '' @ whereClause scope
        @ '' GROUP BY server_name, time_bucket ORDER BY time_bucket'') ([Int64Param iv, Int64Param iv] @ whereParams E scope n r)"
    using where_bound [of "''SELECT '' @ trend_average @ '' FROM server_performance ''" "[Int64Param iv, Int64Param iv]"
        "'' GROUP BY server_name, time_bucket ORDER BY time_bucket''" "[]" scope E n r]
    by (simp add: placeholders_Cons)
  have b: "bound_to scope (''SELECT '' @ trend_select @ '' FROM server_performance '' @ whereClause scope @ '' ORDER BY timestamp'')
      (whereParams E scope n r)"
    using where_bound [of "''SELECT '' @ trend_select @ '' FROM server_performance ''" "[]" "'' ORDER BY timestamp''" "[]" scope E n r]
    by (simp add: placeholders_Cons)
  show ?thesis
    unfolding queryTrend_def Let_def
    by (cases "0 < iv") (simp_all only: if_True if_False prod.case env_db_simps parsers_env rows_agree [OF assms a] rows_agree [OF assms b])
qed

lemma anomaly_placeholders [simp]:
  "placeholders perf_anomaly_select = 0" "placeholders mysql_anomaly_select = 0" "placeholders redis_anomaly_select = 0"
  "placeholders perf_anomaly_cond = 5" "placeholders mysql_anomaly_cond = 5" "placeholders redis_anomaly_cond = 5"
  by (simp_all add: perf_anomaly_select_def mysql_anomaly_select_def redis_anomaly_select_def perf_anomaly_cond_def
      mysql_anomaly_cond_def redis_anomaly_cond_def placeholders_Cons)

lemma anomalies_agree:
  assumes "agree scope (q_db E) db"
  shows "collect_anomalies (E\<lparr>q_db := db\<rparr>) scope n r t = collect_anomalies E scope n r t"
proof -
  have p: "bound_to scope (perf_anomaly_sql scope n) (anomaly_params E scope n r (perf_limits t))"
    unfolding perf_anomaly_sql_def by (rule anomaly_bound) (simp_all add: perf_limits_def)
  have m: "bound_to scope (mysql_anomaly_sql scope n) (anomaly_params E scope n r (mysql_limits t))"
    unfolding mysql_anomaly_sql_def by (rule anomaly_bound) (simp_all add: mysql_limits_def)
  have d: "bound_to scope (redis_anomaly_sql scope n) (anomaly_params E scope n r (redis_limits t))"
    unfolding redis_anomaly_sql_def by (rule anomaly_bound) (simp_all add: redis_limits_def)
  show ?thesis
    unfolding collect_anomalies_def Let_def env_db_simps parsers_env rows_agree [OF assms p] rows_agree [OF assms m]
      rows_agree [OF assms d] ..
qed

lemma latest_bound:
  assumes "placeholders post = length ys"
  shows "bound_to scope (latest_sql scope @ post) (scopeParams scope @ ys)"
  using bound_toI [where xs = "[]" and ys = ys and scope = scope
      and a = "''SELECT p1.server_name, p1.score, p1.timestamp, p1.cpu_percent, p1.mem_used_percent, p1.disk_util_percent, p1.load_avg_1 FROM server_performance p1 INNER JOIN (  SELECT tenant_id, team_id, cluster_id, server_name, MAX(timestamp) as max_ts   FROM server_performance WHERE ''"
      and b = "'' GROUP BY tenant_id, team_id, cluster_id, server_name) p2 ON p1.tenant_id = p2.tenant_id AND p1.team_id = p2.team_id AND p1.cluster_id = p2.cluster_id AND p1.server_name = p2.server_name AND p1.timestamp = p2.max_ts ORDER BY p1.score '' @ post"] assms
  by (simp add: latest_sql_def placeholders_Cons)

lemma rank_agree:
  assumes "agree scope (q_db E) db"
  shows "queryServerScoreRank (E\<lparr>q_db := db\<rparr>) q scope order page pageSize cnt = queryServerScoreRank E q scope order page pageSize cnt"
proof -
  have c: "bound_to scope (''SELECT COUNT(DISTINCT server_name) FROM server_performance WHERE '' @ scopePredicate scope) (scopeParams scope)"
    using bound_toI [of "''SELECT COUNT(DISTINCT server_name) FROM server_performance WHERE ''" "[]" "[]" "[]" scope]
    by (simp add: placeholders_Cons)
  have s: "bound_to scope (latest_sql scope @ (if order = ASC then ''ASC'' else ''DESC'') @ '' LIMIT ? OFFSET ?'')
      (scopeParams scope @ [Int64Param k, Int64Param off])" for k off
    by (rule latest_bound) (simp add: placeholders_Cons)
  show ?thesis
    unfolding queryServerScoreRank_def Let_def env_db_simps parsers_env count_agree [OF assms c] rows_agree [OF assms s] ..
qed

lemma latest_agree:
  assumes "agree scope (q_db E) db"
  shows "queryLatestServerScores (E\<lparr>q_db := db\<rparr>) q scope = queryLatestServerScores E q scope"
proof -
  have "bound_to scope (latest_sql scope @ ''DESC'') (scopeParams scope @ [])"
    by (rule latest_bound) (simp add: placeholders_Cons)
  then have "bound_to scope (latest_sql scope @ ''DESC'') (scopeParams scope)" by simp
  from rows_agree [OF assms this] show ?thesis
    unfolding queryLatestServerScores_def env_db_simps parsers_env by simp
qed

text \<open>
  No query sees beyond its scope. Two databases that answer alike to every statement that
  carries the scope's condition, with the tenant, team and cluster bound at its placeholders,
  give the same outcome to every query made in that scope: records, totals, statistics,
  errors and the manager afterwards.
\<close>

lemma queries_scoped:
  assumes "agree scope (q_db E) db"
  shows "queryPerformanceRecords (E\<lparr>q_db := db\<rparr>) q scope n r page k cnt = queryPerformanceRecords E q scope n r page k cnt
    \<and> queryTrend (E\<lparr>q_db := db\<rparr>) q scope n r iv = queryTrend E q scope n r iv
    \<and> queryAnomalyRecords srt (E\<lparr>q_db := db\<rparr>) q scope n r t page k cnt = queryAnomalyRecords srt E q scope n r t page k cnt
    \<and> queryServerScoreRank (E\<lparr>q_db := db\<rparr>) q scope order page k cnt = queryServerScoreRank E q scope order page k cnt
    \<and> queryLatestServerScores (E\<lparr>q_db := db\<rparr>) q scope = queryLatestServerScores E q scope
    \<and> queryNetDetailRecords (E\<lparr>q_db := db\<rparr>) q scope n r page k cnt = queryNetDetailRecords E q scope n r page k cnt
    \<and> queryDiskDetailRecords (E\<lparr>q_db := db\<rparr>) q scope n r page k cnt = queryDiskDetailRecords E q scope n r page k cnt
    \<and> queryMemDetailRecords (E\<lparr>q_db := db\<rparr>) q scope n r page k cnt = queryMemDetailRecords E q scope n r page k cnt
    \<and> querySoftIrqDetailRecords (E\<lparr>q_db := db\<rparr>) q scope n r page k cnt = querySoftIrqDetailRecords E q scope n r page k cnt
    \<and> queryMysqlDetailRecords (E\<lparr>q_db := db\<rparr>) q scope n r page k cnt = queryMysqlDetailRecords E q scope n r page k cnt
    \<and> queryRedisDetailRecords (E\<lparr>q_db := db\<rparr>) q scope n r page k cnt = queryRedisDetailRecords E q scope n r page k cnt"
  unfolding queryPerformanceRecords_def queryNetDetailRecords_def queryDiskDetailRecords_def queryMemDetailRecords_def
    querySoftIrqDetailRecords_def queryMysqlDetailRecords_def queryRedisDetailRecords_def queryAnomalyRecords_def
    anomalies_agree [OF assms] env_db_simps trend_agree [OF assms] rank_agree [OF assms] latest_agree [OF assms]
  by (intro conjI refl page_agree [OF assms]) (simp_all add: placeholders_Cons)

section \<open>Pages\<close>

lemma pages_cover:
  "concat (map (\<lambda>k. take sz (drop (k * sz) xs)) [0..<n]) = take (n * sz) xs"
  by (induction n) (simp_all add: take_add [symmetric] add.commute)

lemma cut_page_take:
  assumes "0 \<le> off" "off + k < 2 ^ 31" "0 < k"
  shows "cut_page off k rs = Some (take (nat k) (drop (nat off) rs))"
  using assms by (auto simp: cut_page_def min_def nat_diff_distrib' nat_add_distrib le_nat_iff intro!: take_all [symmetric]
      simp flip: nat_le_iff)

text \<open>What the C++ standard says of \<open>std::sort\<close>: a permutation in order; the order of ties is open.\<close>

locale std_sort =
  fixes srt :: "'r list \<Rightarrow> 'r list" and before :: "'r \<Rightarrow> 'r \<Rightarrow> bool"
  assumes permutes: "mset (srt xs) = mset xs"
    and in_order: "sorted_wrt (\<lambda>x y. \<not> before y x) (srt xs)"
begin

lemma srt_length: "length (srt xs) = length xs"
  using permutes [of xs] by (rule mset_eq_length)

lemma pages_partition:
  assumes "length xs \<le> n * sz"
  shows "concat (map (\<lambda>k. take sz (drop (k * sz) (srt xs))) [0..<n]) = srt xs"
  using assms by (simp add: pages_cover srt_length)

end

definition newer :: "AnomalyRecord \<Rightarrow> AnomalyRecord \<Rightarrow> bool" where
  "newer a b \<longleftrightarrow> ar_timestamp b < ar_timestamp a"

interpretation by_time: std_sort "sort_key (\<lambda>a. - ar_timestamp a)" newer
proof
  fix xs :: "AnomalyRecord list"
  have "sorted (map (\<lambda>a. - ar_timestamp a) (sort_key (\<lambda>a. - ar_timestamp a) xs))" by simp
  then show "sorted_wrt (\<lambda>x y. \<not> newer y x) (sort_key (\<lambda>a. - ar_timestamp a) xs)"
    unfolding sorted_map by (rule sorted_wrt_mono_rel [rotated]) (simp add: newer_def)
qed simp

definition admitted :: "query_env \<Rightarrow> QueryManager \<Rightarrow> QueryScope \<Rightarrow> TimeRange option \<Rightarrow> bool" where
  "admitted E q scope timed \<longleftrightarrow> isInitialized q \<and> q_got E \<and> validateQueryScope scope
     \<and> (case timed of None \<Rightarrow> True | Some r \<Rightarrow> validateTimeRange r)"

lemma guarded_admitted [simp]: "admitted E q scope timed \<Longrightarrow> guarded E q scope timed cnt body = (body, q)"
  by (cases timed) (auto simp: admitted_def guarded_def acquireConnection_def isInitialized_def)

lemma page_offset_Suc:
  assumes "int (Suc j) * k < 2 ^ 31" "0 < k"
  shows "page_offset (fix_page (int (Suc j))) (fix_size k) = Some (int j * k)"
  using assms by (auto simp: page_offset_def fix_page_def fix_size_def Let_def algebra_simps)

text \<open>
  C27: the pages of an anomaly query are a partition of its result. When the statements
  answer and the pages asked for stay within an \<open>int\<close>, every page returns, the total is the
  number of anomalies found, and the pages 1 to n put one after the other are all of them,
  newest first, whatever \<open>std::sort\<close> does with equal times.
\<close>

lemma anomaly_pages:
  assumes "std_sort srt newer"
    and "admitted E q scope (Some r)" "collect_anomalies E scope name r t = Inr as"
    and "0 < k" "length as \<le> n * nat k" "int n * k < 2 ^ 31"
  shows "\<exists>pg. (\<forall>j < n. queryAnomalyRecords srt E q scope name r t (int (Suc j)) k (Some c)
             = (Returns \<lparr>a_records = pg j, a_total = Some (int (length as)), a_error = []\<rparr>, q) \<and> length (pg j) \<le> nat k)
      \<and> mset (concat (map pg [0..<n])) = mset as
      \<and> sorted_wrt (\<lambda>x y. ar_timestamp y \<le> ar_timestamp x) (concat (map pg [0..<n]))"
proof (intro exI [of _ "\<lambda>j. take (nat k) (drop (j * nat k) (srt as))"] conjI allI impI)
  fix j assume "j < n"
  then have "int (Suc j) * k \<le> int n * k" using \<open>0 < k\<close> by (intro mult_right_mono) auto
  then have j: "int (Suc j) * k < 2 ^ 31" using assms(6) by simp
  then have "int j * k + k < 2 ^ 31" by (simp add: algebra_simps)
  then have "cut_page (int j * k) k (srt as) = Some (take (nat k) (drop (j * nat k) (srt as)))"
    using \<open>0 < k\<close> by (simp add: cut_page_take nat_mult_distrib)
  then show "queryAnomalyRecords srt E q scope name r t (int (Suc j)) k (Some c)
      = (Returns \<lparr>a_records = take (nat k) (drop (j * nat k) (srt as)), a_total = Some (int (length as)), a_error = []\<rparr>, q)"
    using assms(2,3,4) page_offset_Suc [OF j] std_sort.srt_length [OF assms(1)]
    by (simp add: queryAnomalyRecords_def fix_size_def)
next
  show "mset (concat (map (\<lambda>j. take (nat k) (drop (j * nat k) (srt as))) [0..<n])) = mset as"
    using std_sort.pages_partition [OF assms(1,5)] std_sort.permutes [OF assms(1)] by simp
next
  show "sorted_wrt (\<lambda>x y. ar_timestamp y \<le> ar_timestamp x) (concat (map (\<lambda>j. take (nat k) (drop (j * nat k) (srt as))) [0..<n]))"
    using std_sort.pages_partition [OF assms(1,5)] std_sort.in_order [OF assms(1), of as] by (simp add: newer_def not_less)
qed simp

section \<open>Statistics of a cluster\<close>

lemma MAX_SCORE_100: "MAX_SCORE = Fin 100"
  by (simp add: MAX_SCORE_def fp_eval)

lemma tally_add_counts:
  "onlineCount (tally_add s y) = onlineCount y + (if ss_status s = ONLINE then 1 else 0)"
  "offlineCount (tally_add s y) = offlineCount y + (if ss_status s = OFFLINE then 1 else 0)"
  by (cases "ss_status s"; simp add: tally_add_def Let_def)+

lemma tally_add_extremes:
  "maxScore (tally_add s y) = (if flt (maxScore y) (ss_score s) then ss_score s else maxScore y)"
  "bestServer (tally_add s y) = (if flt (maxScore y) (ss_score s) then ss_server_name s else bestServer y)"
  "minScore (tally_add s y) = (if flt (ss_score s) (minScore y) then ss_score s else minScore y)"
  "worstServer (tally_add s y) = (if flt (ss_score s) (minScore y) then ss_server_name s else worstServer y)"
  by (simp_all add: tally_add_def Let_def)

lemma tally_counts:
  "onlineCount (fold tally_add rs y) = onlineCount y + int (length (filter (\<lambda>s. ss_status s = ONLINE) rs))"
  "offlineCount (fold tally_add rs y) = offlineCount y + int (length (filter (\<lambda>s. ss_status s = OFFLINE) rs))"
  by (induction rs arbitrary: y) (simp_all add: tally_add_counts)

text \<open>The best so far and its server, and the worst so far and its server.\<close>

lemma tally_best:
  assumes "\<forall>s \<in> set rs. ss_score s = Fin (sc s)" "maxScore y = Fin m"
  shows "\<exists>b. maxScore (fold tally_add rs y) = Fin b \<and> m \<le> b \<and> (\<forall>s \<in> set rs. sc s \<le> b)
    \<and> (if b = m then bestServer (fold tally_add rs y) = bestServer y
       else \<exists>s \<in> set rs. bestServer (fold tally_add rs y) = ss_server_name s \<and> sc s = b)"
  using assms
proof (induction rs rule: rev_induct)
  case (snoc s rs)
  then obtain b where "maxScore (fold tally_add rs y) = Fin b" "m \<le> b" "\<forall>s \<in> set rs. sc s \<le> b"
    "if b = m then bestServer (fold tally_add rs y) = bestServer y
     else \<exists>s \<in> set rs. bestServer (fold tally_add rs y) = ss_server_name s \<and> sc s = b"
    by auto
  then show ?case
    using snoc.prems by (intro exI [of _ "max b (sc s)"]) (fastforce simp: tally_add_extremes max_def)
qed simp

lemma tally_worst:
  assumes "\<forall>s \<in> set rs. ss_score s = Fin (sc s)" "minScore y = Fin m"
  shows "\<exists>b. minScore (fold tally_add rs y) = Fin b \<and> b \<le> m \<and> (\<forall>s \<in> set rs. b \<le> sc s)
    \<and> (if b = m then worstServer (fold tally_add rs y) = worstServer y
       else \<exists>s \<in> set rs. worstServer (fold tally_add rs y) = ss_server_name s \<and> sc s = b)"
  using assms
proof (induction rs rule: rev_induct)
  case (snoc s rs)
  then obtain b where "minScore (fold tally_add rs y) = Fin b" "b \<le> m" "\<forall>s \<in> set rs. b \<le> sc s"
    "if b = m then worstServer (fold tally_add rs y) = worstServer y
     else \<exists>s \<in> set rs. worstServer (fold tally_add rs y) = ss_server_name s \<and> sc s = b"
    by auto
  then show ?case
    using snoc.prems by (intro exI [of _ "min b (sc s)"]) (fastforce simp: tally_add_extremes min_def)
qed simp

lemma cluster_counts:
  "st_online_servers (cluster_stats rs) + st_offline_servers (cluster_stats rs) = st_total_servers (cluster_stats rs)"
proof -
  have "ss_status s = OFFLINE \<longleftrightarrow> ss_status s \<noteq> ONLINE" for s :: ServerScoreSummary
    by (cases "ss_status s") simp_all
  then have "length (filter (\<lambda>s. ss_status s = ONLINE) rs) + length (filter (\<lambda>s. ss_status s = OFFLINE) rs) = length rs"
    using sum_length_filter_compl [of "\<lambda>s. ss_status s = ONLINE" rs] by simp
  then show ?thesis
    by (simp add: cluster_stats_def Let_def tally_counts tally_zero_def flip: of_nat_add)
qed

lemma cluster_max:
  assumes "rs \<noteq> []" "\<forall>s \<in> set rs. ss_score s = Fin (sc s) \<and> 0 \<le> sc s"
  shows "\<exists>s \<in> set rs. st_max_score (cluster_stats rs) = Fin (sc s) \<and> (\<forall>s' \<in> set rs. sc s' \<le> sc s)
         \<and> (0 < sc s \<longrightarrow> st_best_server (cluster_stats rs) = ss_server_name s)"
proof -
  have "\<forall>s \<in> set rs. ss_score s = Fin (sc s)" "maxScore tally_zero = Fin 0" using assms(2) by (auto simp: tally_zero_def)
  from tally_best [OF this] obtain b where b: "maxScore (fold tally_add rs tally_zero) = Fin b" "0 \<le> b" "\<forall>s \<in> set rs. sc s \<le> b"
    "b \<noteq> 0 \<longrightarrow> (\<exists>s \<in> set rs. bestServer (fold tally_add rs tally_zero) = ss_server_name s \<and> sc s = b)"
    by (auto split: if_splits)
  show ?thesis
  proof (cases "b = 0")
    case True
    then have "sc (hd rs) = 0" using assms b(3) by (simp add: order_antisym)
    with True b(1,3) assms(1) show ?thesis
      by (intro bexI [of _ "hd rs"]) (auto simp: cluster_stats_def Let_def)
  qed (use b in \<open>auto simp: cluster_stats_def Let_def\<close>)
qed

lemma cluster_min:
  assumes "rs \<noteq> []" "\<forall>s \<in> set rs. ss_score s = Fin (sc s) \<and> sc s \<le> 100"
  shows "if \<forall>s \<in> set rs. sc s = 100 then st_min_score (cluster_stats rs) = Fin 0 \<and> st_worst_server (cluster_stats rs) = []
       else \<exists>s \<in> set rs. st_min_score (cluster_stats rs) = Fin (sc s) \<and> (\<forall>s' \<in> set rs. sc s \<le> sc s')
         \<and> st_worst_server (cluster_stats rs) = ss_server_name s"
proof -
  have "\<forall>s \<in> set rs. ss_score s = Fin (sc s)" "minScore tally_zero = Fin 100" using assms(2) by (auto simp: tally_zero_def MAX_SCORE_100)
  from tally_worst [OF this] obtain b where b: "minScore (fold tally_add rs tally_zero) = Fin b" "b \<le> 100" "\<forall>s \<in> set rs. b \<le> sc s"
    "b = 100 \<longrightarrow> worstServer (fold tally_add rs tally_zero) = []"
    "b \<noteq> 100 \<longrightarrow> (\<exists>s \<in> set rs. worstServer (fold tally_add rs tally_zero) = ss_server_name s \<and> sc s = b)"
    by (auto simp: tally_zero_def split: if_splits)
  show ?thesis
  proof (cases "b = 100")
    case True
    then have "\<forall>s \<in> set rs. sc s = 100" using b(3) assms(2) by (auto intro: order_antisym)
    with True b show ?thesis by (simp add: cluster_stats_def Let_def MAX_SCORE_100)
  next
    case False
    with b obtain s where s: "s \<in> set rs" "worstServer (fold tally_add rs tally_zero) = ss_server_name s" "sc s = b" by auto
    then have "\<not> (\<forall>s \<in> set rs. sc s = 100)" using False by auto
    with s b False show ?thesis by (auto simp: cluster_stats_def Let_def MAX_SCORE_100)
  qed
qed

text \<open>
  C28: the statistics of a cluster. Every server is counted once, as online or offline. When
  the scores lie between 0 and 100, the maximum reported is the greatest of them and, unless
  all are 0, the best server has it. The minimum reported is the least and the worst server
  has it, unless all are 100: then the minimum is reported as 0 and the worst server has no
  name, since \<open>MAX_SCORE\<close>, written as 100 plus epsilon, rounds to 100.
\<close>

lemma cluster_extremes:
  assumes "rs \<noteq> []" "\<forall>s \<in> set rs. ss_score s = Fin (sc s) \<and> 0 \<le> sc s \<and> sc s \<le> 100"
  shows "st_online_servers (cluster_stats rs) + st_offline_servers (cluster_stats rs) = st_total_servers (cluster_stats rs)
    \<and> (\<exists>s \<in> set rs. st_max_score (cluster_stats rs) = Fin (sc s) \<and> (\<forall>s' \<in> set rs. sc s' \<le> sc s)
         \<and> (0 < sc s \<longrightarrow> st_best_server (cluster_stats rs) = ss_server_name s))
    \<and> (if \<forall>s \<in> set rs. sc s = 100 then st_min_score (cluster_stats rs) = Fin 0 \<and> st_worst_server (cluster_stats rs) = []
       else \<exists>s \<in> set rs. st_min_score (cluster_stats rs) = Fin (sc s) \<and> (\<forall>s' \<in> set rs. sc s \<le> sc s')
         \<and> st_worst_server (cluster_stats rs) = ss_server_name s)"
  using assms by (intro conjI cluster_counts cluster_max cluster_min) auto

section \<open>Refusals\<close>

definition refused :: "'r answer run \<Rightarrow> bool" where
  "refused u \<longleftrightarrow> (case u of Returns a \<Rightarrow> a_records a = [] \<and> a_error a \<noteq> [] | _ \<Rightarrow> False)"

lemma guarded_refused: "\<not> admitted E q scope timed \<Longrightarrow> refused (fst (guarded E q scope timed cnt body))"
  by (cases timed)
    (auto simp: admitted_def guarded_def acquireConnection_def isInitialized_def refused_def failing_def scope_error_def
      range_message_def)

lemma guarded_body: "\<not> admitted E q scope timed \<Longrightarrow> guarded E q scope timed cnt body = guarded E q scope timed cnt body'"
  by (cases timed) (auto simp: admitted_def guarded_def acquireConnection_def isInitialized_def)

text \<open>
  A query by name and time range that is not admitted (the manager is not initialised, no
  connection comes in time, the tenant or the team is missing, or the range is empty) returns
  no record and an error message, and never reaches the database.
\<close>

lemma not_admitted:
  assumes "\<not> admitted E q scope (Some r)"
  shows "refused (fst (queryPerformanceRecords E q scope n r page k cnt)) \<and> refused (fst (queryTrend E q scope n r iv))
    \<and> refused (fst (queryAnomalyRecords srt E q scope n r t page k cnt))
    \<and> refused (fst (queryNetDetailRecords E q scope n r page k cnt)) \<and> refused (fst (queryDiskDetailRecords E q scope n r page k cnt))
    \<and> refused (fst (queryMemDetailRecords E q scope n r page k cnt)) \<and> refused (fst (querySoftIrqDetailRecords E q scope n r page k cnt))
    \<and> refused (fst (queryMysqlDetailRecords E q scope n r page k cnt)) \<and> refused (fst (queryRedisDetailRecords E q scope n r page k cnt))
    \<and> queryPerformanceRecords (E\<lparr>q_db := db\<rparr>) q scope n r page k cnt = queryPerformanceRecords E q scope n r page k cnt
    \<and> queryAnomalyRecords srt (E\<lparr>q_db := db\<rparr>) q scope n r t page k cnt = queryAnomalyRecords srt E q scope n r t page k cnt"
  unfolding queryPerformanceRecords_def queryTrend_def queryAnomalyRecords_def queryNetDetailRecords_def queryDiskDetailRecords_def
    queryMemDetailRecords_def querySoftIrqDetailRecords_def queryMysqlDetailRecords_def queryRedisDetailRecords_def queryPage_def
    env_db_simps
  by (intro conjI guarded_refused [OF assms] guarded_body [OF assms])

text \<open>
  C40: a page far enough out has no defined answer. The offset \<open>(page - 1) * pageSize\<close> is
  computed in \<open>int\<close> from the numbers of the request, which have no upper bound, and from
  \<open>2 ^ 31\<close> on it overflows; every query by page computes it before the statement is run.
\<close>

lemma deep_pages_undefined:
  assumes "admitted E q scope (Some r)" "1 \<le> page" "1 \<le> k" "2 ^ 31 \<le> (page - 1) * k"
  shows "fst (queryPerformanceRecords E q scope n r page k None) = Undefined
    \<and> fst (queryServerScoreRank E q scope order page k None) = Undefined
    \<and> (collect_anomalies E scope n r t = Inr as \<longrightarrow> fst (queryAnomalyRecords srt E q scope n r t page k None) = Undefined)"
proof -
  have "page_offset (fix_page page) (fix_size k) = None"
    using assms by (simp add: page_offset_def fix_page_def fix_size_def)
  moreover have "admitted E q scope None" using assms(1) by (simp add: admitted_def)
  ultimately show ?thesis
    using assms(1) by (simp add: queryPerformanceRecords_def queryPage_def queryServerScoreRank_def queryAnomalyRecords_def)
qed

section \<open>Witnesses\<close>

definition sample_env :: query_env where
  "sample_env = \<lparr>q_got = True,
     q_db = (\<lambda>sql ps. Fetched [[Some ''db01'', Some ''2026-01-01 00:00:00'']] None),
     q_formatTimePoint = (\<lambda>_. ''2026-01-01 00:00:00''), q_parseTimeString = (\<lambda>_. 0), q_now = 0\<rparr>"

definition sample_manager :: QueryManager where
  "sample_manager = QueryManager_new\<lparr>initialized := True, queryPool := True\<rparr>"

definition sample_scope :: QueryScope where
  "sample_scope = \<lparr>qs_tenant_id = ''acme'', qs_team_id = ''ops'', qs_cluster_id = []\<rparr>"

definition sample_range :: TimeRange where
  "sample_range = \<lparr>tr_start_time = 0, tr_end_time = 1\<rparr>"

lemmas sample_defs = sample_env_def sample_manager_def sample_scope_def sample_range_def

lemma sample_admitted: "admitted sample_env sample_manager sample_scope (Some sample_range)"
  by (simp add: admitted_def sample_defs isInitialized_def validateQueryScope_def validateTimeRange_def)

lemma queries_scoped_witness:
  "\<exists>db. db ''SELECT 1'' [] \<noteq> q_db sample_env ''SELECT 1'' []
     \<and> agree sample_scope (q_db sample_env) db
     \<and> queryLatestServerScores (sample_env\<lparr>q_db := db\<rparr>) sample_manager sample_scope
         = queryLatestServerScores sample_env sample_manager sample_scope"
proof -
  define db where "db = (\<lambda>(sql :: string) ps. if ps = ([] :: SqlParam list) then Failed Prepare ''denied'' else q_db sample_env sql ps)"
  have "agree sample_scope (q_db sample_env) db"
    by (auto simp: agree_def bound_to_def scopeParams_def db_def)
  with queries_scoped [OF this, of sample_manager] show ?thesis
    by (intro exI [of _ db]) (simp add: db_def sample_env_def)
qed

lemma sample_anomalies:
  "\<exists>as. collect_anomalies sample_env sample_scope [] sample_range default_thresholds = Inr as \<and> length as = 2"
  by (simp add: collect_anomalies_def executePreparedRows_def sample_env_def cell_text_def perf_anomalies_def mysql_anomalies_def
      redis_anomalies_def toFloat_def toBool_def cell_def default_thresholds_def fabs_def)

lemma anomaly_pages_witness:
  "\<exists>as pg. length as = 2
     \<and> (\<forall>j < 2. queryAnomalyRecords (sort_key (\<lambda>a. - ar_timestamp a)) sample_env sample_manager sample_scope [] sample_range
           default_thresholds (int (Suc j)) 1 (Some 0)
         = (Returns \<lparr>a_records = pg j, a_total = Some 2, a_error = []\<rparr>, sample_manager) \<and> length (pg j) \<le> 1)
     \<and> mset (concat (map pg [0..<2])) = mset as"
proof -
  obtain as where as: "collect_anomalies sample_env sample_scope [] sample_range default_thresholds = Inr as" "length as = 2"
    using sample_anomalies by auto
  have "length as \<le> 2 * nat 1" using as(2) by simp
  from anomaly_pages [OF by_time.std_sort_axioms sample_admitted as(1) _ this, of 0] as(2) show ?thesis
    by (auto intro!: exI [of _ as])
qed

definition sample_summary :: "string \<Rightarrow> rat \<Rightarrow> ServerScoreSummary" where
  "sample_summary name x = \<lparr>ss_server_name = name, ss_score = Fin x, ss_last_updated = 0, ss_status = ONLINE,
     ss_cpu_percent = Fin 0, ss_mem_used_percent = Fin 0, ss_disk_util_percent = Fin 0, ss_load_avg_1 = Fin 0\<rparr>"

lemma cluster_extremes_witness:
  "st_min_score (cluster_stats [sample_summary ''db01'' 100, sample_summary ''db02'' 100]) = Fin 0
   \<and> st_worst_server (cluster_stats [sample_summary ''db01'' 100, sample_summary ''db02'' 100]) = []"
  using cluster_extremes [of "[sample_summary ''db01'' 100, sample_summary ''db02'' 100]" "\<lambda>_. 100"]
  by (simp add: sample_summary_def)

lemma not_admitted_witness:
  "refused (fst (queryPerformanceRecords sample_env QueryManager_new sample_scope ''db01'' sample_range 1 10 None))"
  using not_admitted [of sample_env QueryManager_new sample_scope sample_range]
  by (simp add: admitted_def isInitialized_def QueryManager_new_def)

lemma deep_pages_undefined_witness:
  "fst (queryPerformanceRecords sample_env sample_manager sample_scope ''db01'' sample_range 21474838 100 None) = Undefined"
  using deep_pages_undefined [OF sample_admitted, of 21474838 100] by simp

end
