(* ===== verification/Query_Service.thy ===== *)
theory Query_Service
  imports Query_Correct Dispatcher "HOL-Library.Sublist"
begin

text \<open>
  \<open>QueryService.h/.cpp\<close> and the messages of \<open>query_api.proto\<close>: the gRPC handlers of the
  queries. A handler called on a gRPC thread hands itself to the dispatcher and waits; run by
  a query worker it checks the request, asks the query manager and fills in the response. The
  scores of a cluster are kept in the Redis cache. The cache's two operations and the
  protobuf encoding are parameters.
\<close>

section \<open>Messages\<close>

record Timestamp =
  seconds :: int
  nanos :: int

definition default_Timestamp :: Timestamp where
  "default_Timestamp = \<lparr>seconds = 0, nanos = 0\<rparr>"

record pb_TimeRange =
  pt_start_time :: Timestamp
  pt_end_time :: Timestamp

record Pagination =
  pn_page :: int
  pn_page_size :: int

record pb_QueryScope =
  pq_tenant_id :: string
  pq_team_id :: string
  pq_cluster_id :: string

text \<open>\<open>QueryPerformanceRequest\<close> and \<open>QueryDetailRequest\<close> have the same fields.\<close>

record QueryDetailRequest =
  dq_server_name :: string
  dq_time_range :: pb_TimeRange
  dq_pagination :: Pagination
  dq_scope :: pb_QueryScope

type_synonym QueryPerformanceRequest = QueryDetailRequest

record QueryTrendRequest =
  tq_server_name :: string
  tq_time_range :: pb_TimeRange
  tq_interval_seconds :: int
  tq_scope :: pb_QueryScope

record QueryAnomalyRequest =
  aq_server_name :: string
  aq_time_range :: pb_TimeRange
  aq_cpu_threshold :: fp
  aq_mem_threshold :: fp
  aq_disk_threshold :: fp
  aq_change_rate_threshold :: fp
  aq_pagination :: Pagination
  aq_mysql_connection_threshold :: fp
  aq_mysql_replication_lag_threshold :: fp
  aq_mysql_slow_query_rate_threshold :: fp
  aq_mysql_lock_wait_rate_threshold :: fp
  aq_mysql_buffer_pool_hit_threshold :: fp
  aq_redis_connection_threshold :: fp
  aq_redis_memory_threshold :: fp
  aq_redis_hit_rate_threshold :: fp
  aq_redis_replication_lag_threshold :: fp
  aq_redis_slowlog_growth_threshold :: fp
  aq_scope :: pb_QueryScope

record QueryScoreRankRequest =
  kq_order :: SortOrder
  kq_pagination :: Pagination
  kq_scope :: pb_QueryScope

record QueryLatestScoreRequest =
  lq_scope :: pb_QueryScope

record pb_PerformanceRecord =
  ppr_server_name :: string
  ppr_timestamp :: Timestamp
  ppr_cpu_percent :: fp
  ppr_usr_percent :: fp
  ppr_system_percent :: fp
  ppr_nice_percent :: fp
  ppr_idle_percent :: fp
  ppr_io_wait_percent :: fp
  ppr_irq_percent :: fp
  ppr_soft_irq_percent :: fp
  ppr_load_avg_1 :: fp
  ppr_load_avg_3 :: fp
  ppr_load_avg_15 :: fp
  ppr_mem_used_percent :: fp
  ppr_mem_total :: fp
  ppr_mem_free :: fp
  ppr_mem_avail :: fp
  ppr_disk_util_percent :: fp
  ppr_send_rate :: fp
  ppr_rcv_rate :: fp
  ppr_score :: fp
  ppr_cpu_percent_rate :: fp
  ppr_usr_percent_rate :: fp
  ppr_system_percent_rate :: fp
  ppr_io_wait_percent_rate :: fp
  ppr_load_avg_1_rate :: fp
  ppr_load_avg_3_rate :: fp
  ppr_load_avg_15_rate :: fp
  ppr_mem_used_percent_rate :: fp
  ppr_disk_util_percent_rate :: fp
  ppr_send_rate_rate :: fp
  ppr_rcv_rate_rate :: fp

record pb_AnomalyRecord =
  par_server_name :: string
  par_timestamp :: Timestamp
  par_anomaly_type :: string
  par_severity :: string
  par_value :: fp
  par_threshold :: fp
  par_metric_name :: string

record pb_ServerScoreSummary =
  pss_server_name :: string
  pss_score :: fp
  pss_last_update :: Timestamp
  pss_status :: ServerStatus
  pss_cpu_percent :: fp
  pss_mem_used_percent :: fp
  pss_disk_util_percent :: fp
  pss_load_avg_1 :: fp

record pb_ClusterStats =
  pst_total_servers :: int
  pst_online_servers :: int
  pst_offline_servers :: int
  pst_avg_score :: fp
  pst_max_score :: fp
  pst_min_score :: fp
  pst_best_server :: string
  pst_worst_server :: string

record pb_NetDetailRecord =
  pnr_server_name :: string
  pnr_net_name :: string
  pnr_timestamp :: Timestamp
  pnr_err_in :: u64
  pnr_err_out :: u64
  pnr_drop_in :: u64
  pnr_drop_out :: u64
  pnr_rcv_bytes_rate :: fp
  pnr_snd_bytes_rate :: fp
  pnr_rcv_packets_rate :: fp
  pnr_snd_packets_rate :: fp
  pnr_rcv_bytes_rate_rate :: fp
  pnr_snd_bytes_rate_rate :: fp
  pnr_err_in_rate :: fp
  pnr_err_out_rate :: fp
  pnr_drop_in_rate :: fp
  pnr_drop_out_rate :: fp

record pb_DiskDetailRecord =
  pdr_server_name :: string
  pdr_disk_name :: string
  pdr_timestamp :: Timestamp
  pdr_read_bytes_per_sec :: fp
  pdr_write_bytes_per_sec :: fp
  pdr_read_iops :: fp
  pdr_write_iops :: fp
  pdr_avg_read_latency_ms :: fp
  pdr_avg_write_latency_ms :: fp
  pdr_util_percent :: fp
  pdr_read_bytes_per_sec_rate :: fp
  pdr_write_bytes_per_sec_rate :: fp
  pdr_read_iops_rate :: fp
  pdr_write_iops_rate :: fp
  pdr_util_percent_rate :: fp

record pb_MemDetailRecord =
  pmr_server_name :: string
  pmr_timestamp :: Timestamp
  pmr_total :: fp
  pmr_free :: fp
  pmr_avail :: fp
  pmr_buffers :: fp
  pmr_cached :: fp
  pmr_swap_cached :: fp
  pmr_active :: fp
  pmr_inactive :: fp
  pmr_active_anon :: fp
  pmr_inactive_anon :: fp
  pmr_active_file :: fp
  pmr_inactive_file :: fp
  pmr_dirty :: fp
  pmr_writeback :: fp
  pmr_anon_pages :: fp
  pmr_mapped :: fp
  pmr_total_rate :: fp
  pmr_free_rate :: fp
  pmr_avail_rate :: fp
  pmr_active_rate :: fp
  pmr_inactive_rate :: fp

record pb_SoftIrqDetailRecord =
  psr_server_name :: string
  psr_cpu_name :: string
  psr_timestamp :: Timestamp
  psr_hi :: int
  psr_timer :: int
  psr_net_tx :: int
  psr_net_rx :: int
  psr_block :: int
  psr_irq_poll :: int
  psr_tasklet :: int
  psr_sched :: int
  psr_hrtimer :: int
  psr_rcu :: int
  psr_hi_rate :: fp
  psr_timer_rate :: fp
  psr_net_tx_rate :: fp
  psr_net_rx_rate :: fp
  psr_block_rate :: fp
  psr_sched_rate :: fp

record pb_MysqlDetailRecord =
  pmq_server_name :: string
  pmq_instance :: string
  pmq_timestamp :: Timestamp
  pmq_mysql_host :: string
  pmq_mysql_port :: int
  pmq_up :: bool
  pmq_version :: string
  pmq_role :: string
  pmq_max_connections :: u64
  pmq_threads_connected :: u64
  pmq_threads_running :: u64
  pmq_aborted_connects :: u64
  pmq_questions :: u64
  pmq_com_select :: u64
  pmq_com_insert :: u64
  pmq_com_update :: u64
  pmq_com_delete :: u64
  pmq_com_commit :: u64
  pmq_com_rollback :: u64
  pmq_slow_queries :: u64
  pmq_innodb_buffer_pool_read_requests :: u64
  pmq_innodb_buffer_pool_reads :: u64
  pmq_innodb_buffer_pool_hit_percent :: fp
  pmq_innodb_row_lock_waits :: u64
  pmq_innodb_row_lock_time_avg_ms :: fp
  pmq_replication_configured :: bool
  pmq_replication_running :: bool
  pmq_replication_lag_seconds :: fp
  pmq_connection_used_percent :: fp
  pmq_qps :: fp
  pmq_tps :: fp
  pmq_slow_queries_rate :: fp
  pmq_innodb_row_lock_waits_rate :: fp

record pb_RedisDetailRecord =
  prr_server_name :: string
  prr_instance :: string
  prr_timestamp :: Timestamp
  prr_redis_host :: string
  prr_redis_port :: int
  prr_up :: bool
  prr_version :: string
  prr_role :: string
  prr_uptime_in_seconds :: u64
  prr_connected_clients :: u64
  prr_blocked_clients :: u64
  prr_maxclients :: u64
  prr_connection_used_percent :: fp
  prr_used_memory :: u64
  prr_maxmemory :: u64
  prr_mem_fragmentation_ratio :: fp
  prr_memory_used_percent :: fp
  prr_total_commands_processed :: u64
  prr_instantaneous_ops_per_sec :: fp
  prr_commands_per_sec :: fp
  prr_keyspace_hits :: u64
  prr_keyspace_misses :: u64
  prr_keyspace_hit_percent :: fp
  prr_expired_keys :: u64
  prr_evicted_keys :: u64
  prr_rejected_connections :: u64
  prr_total_error_replies :: u64
  prr_total_net_input_bytes :: u64
  prr_total_net_output_bytes :: u64
  prr_net_input_bytes_per_sec :: fp
  prr_net_output_bytes_per_sec :: fp
  prr_replication_configured :: bool
  prr_master_link_up :: bool
  prr_connected_slaves :: u64
  prr_master_last_io_seconds_ago :: fp
  prr_slowlog_len :: u64
  prr_slowlog_growth :: fp

text \<open>The responses by page, with their repeated field; those of the trend and of the latest scores.\<close>

record 'p page_response =
  pg_records :: "'p list"
  pg_total_count :: int
  pg_page :: int
  pg_page_size :: int

record QueryTrendResponse =
  tp_records :: "pb_PerformanceRecord list"
  tp_interval_seconds :: int

record QueryLatestScoreResponse =
  lp_servers :: "pb_ServerScoreSummary list"
  lp_cluster_stats :: "pb_ClusterStats option"

section \<open>Conversions\<close>

text \<open>
  \<open>system_clock\<close> counts nanoseconds in 64 bits: seconds beyond the year 2262 overflow in
  \<open>from_time_t\<close>. The other way the nanoseconds are cut off.
\<close>

definition from_time_t :: "int \<Rightarrow> int option" where
  "from_time_t s = (let n = s * 1000000000 in if - (2 ^ 63) \<le> n \<and> n < 2 ^ 63 then Some n else None)"

definition convertTimeRange :: "pb_TimeRange \<Rightarrow> TimeRange option" where
  "convertTimeRange r =
     do { a \<leftarrow> from_time_t (seconds (pt_start_time r)); b \<leftarrow> from_time_t (seconds (pt_end_time r));
          Some \<lparr>tr_start_time = a, tr_end_time = b\<rparr> }"

definition setTimestamp :: "int \<Rightarrow> Timestamp" where
  "setTimestamp tp = \<lparr>seconds = cdiv tp 1000000000, nanos = 0\<rparr>"

text \<open>The message of a missing scope, in UTF-8.\<close>

definition missing_scope :: string where
  "missing_scope = map char_of [231, 188, 186, 229, 176, 145, 230, 159, 165, 232, 175, 162, 231, 167, 159, 230, 136, 183, 230,
       136, 150, 229, 155, 162, 233, 152, 159, 228, 189, 156, 231, 148, 168, 229, 159, 159 :: nat]"

definition convertQueryScope :: "pb_QueryScope \<Rightarrow> grpc_Status + QueryScope" where
  "convertQueryScope requestScope =
     (let scope = \<lparr>qs_tenant_id = pq_tenant_id requestScope, qs_team_id = pq_team_id requestScope,
                   qs_cluster_id = pq_cluster_id requestScope\<rparr>
      in if qs_tenant_id scope = [] \<or> qs_team_id scope = [] then Inl (UNAUTHENTICATED, missing_scope) else Inr scope)"

definition latestScoreCacheKey :: "QueryScope \<Rightarrow> string" where
  "latestScoreCacheKey scope =
     ''manager:query:latest_score:'' @ qs_tenant_id scope @ '':'' @ qs_team_id scope @ '':'' @ qs_cluster_id scope"

definition queryErrorStatus :: "string \<Rightarrow> grpc_Status" where
  "queryErrorStatus error =
     (if sublist ''not initialized'' error \<or> sublist ''MySQL support is not enabled'' error
      then (UNAVAILABLE, error) else (INTERNAL, error))"

definition perf_message :: "PerformanceRecord \<Rightarrow> pb_PerformanceRecord" where
  "perf_message rec =
     \<lparr>ppr_server_name = pr_server_name rec, ppr_timestamp = setTimestamp (pr_timestamp rec),
       ppr_cpu_percent = pr_cpu_percent rec, ppr_usr_percent = pr_usr_percent rec,
       ppr_system_percent = pr_sys_percent rec, ppr_nice_percent = pr_nice_percent rec,
       ppr_idle_percent = pr_idle_percent rec, ppr_io_wait_percent = pr_io_wait_percent rec,
       ppr_irq_percent = pr_irq_percent rec, ppr_soft_irq_percent = pr_soft_irq_percent rec,
       ppr_load_avg_1 = pr_load_avg_1 rec, ppr_load_avg_3 = pr_load_avg_3 rec,
       ppr_load_avg_15 = pr_load_avg_15 rec, ppr_mem_used_percent = pr_mem_used_percent rec,
       ppr_mem_total = pr_mem_total rec, ppr_mem_free = pr_mem_free rec,
       ppr_mem_avail = pr_mem_avail rec, ppr_disk_util_percent = pr_disk_util_percent rec,
       ppr_send_rate = pr_net_sent_bytes rec, ppr_rcv_rate = pr_net_recv_bytes rec,
       ppr_score = pr_score rec, ppr_cpu_percent_rate = pr_cpu_percent_rate rec,
       ppr_usr_percent_rate = Fin 0, ppr_system_percent_rate = Fin 0, ppr_io_wait_percent_rate = Fin 0,
       ppr_load_avg_1_rate = pr_load_avg_1_rate rec, ppr_load_avg_3_rate = Fin 0,
       ppr_load_avg_15_rate = Fin 0, ppr_mem_used_percent_rate = pr_mem_used_percent_rate rec,
       ppr_disk_util_percent_rate = pr_disk_util_percent_rate rec, ppr_send_rate_rate = Fin 0,
       ppr_rcv_rate_rate = Fin 0\<rparr>"

definition trend_message :: "PerformanceRecord \<Rightarrow> pb_PerformanceRecord" where
  "trend_message rec =
     \<lparr>ppr_server_name = pr_server_name rec, ppr_timestamp = setTimestamp (pr_timestamp rec),
       ppr_cpu_percent = pr_cpu_percent rec, ppr_usr_percent = pr_usr_percent rec,
       ppr_system_percent = pr_sys_percent rec, ppr_nice_percent = Fin 0, ppr_idle_percent = Fin 0,
       ppr_io_wait_percent = pr_io_wait_percent rec, ppr_irq_percent = Fin 0,
       ppr_soft_irq_percent = Fin 0, ppr_load_avg_1 = pr_load_avg_1 rec,
       ppr_load_avg_3 = pr_load_avg_3 rec, ppr_load_avg_15 = pr_load_avg_15 rec,
       ppr_mem_used_percent = pr_mem_used_percent rec, ppr_mem_total = Fin 0, ppr_mem_free = Fin 0,
       ppr_mem_avail = Fin 0, ppr_disk_util_percent = pr_disk_util_percent rec,
       ppr_send_rate = pr_net_sent_bytes rec, ppr_rcv_rate = pr_net_recv_bytes rec,
       ppr_score = pr_score rec, ppr_cpu_percent_rate = pr_cpu_percent_rate rec,
       ppr_usr_percent_rate = Fin 0, ppr_system_percent_rate = Fin 0, ppr_io_wait_percent_rate = Fin 0,
       ppr_load_avg_1_rate = pr_load_avg_1_rate rec, ppr_load_avg_3_rate = Fin 0,
       ppr_load_avg_15_rate = Fin 0, ppr_mem_used_percent_rate = pr_mem_used_percent_rate rec,
       ppr_disk_util_percent_rate = pr_disk_util_percent_rate rec, ppr_send_rate_rate = Fin 0,
       ppr_rcv_rate_rate = Fin 0\<rparr>"

definition anomaly_message :: "AnomalyRecord \<Rightarrow> pb_AnomalyRecord" where
  "anomaly_message rec =
     \<lparr>par_server_name = ar_server_name rec, par_timestamp = setTimestamp (ar_timestamp rec),
       par_anomaly_type = ar_anomaly_type rec, par_severity = ar_severity rec, par_value = ar_value rec,
       par_threshold = ar_threshold rec, par_metric_name = ar_metric_name rec\<rparr>"

definition score_message :: "ServerScoreSummary \<Rightarrow> pb_ServerScoreSummary" where
  "score_message rec =
     \<lparr>pss_server_name = ss_server_name rec, pss_score = ss_score rec,
       pss_last_update = setTimestamp (ss_last_updated rec), pss_status = ss_status rec,
       pss_cpu_percent = ss_cpu_percent rec, pss_mem_used_percent = ss_mem_used_percent rec,
       pss_disk_util_percent = ss_disk_util_percent rec, pss_load_avg_1 = ss_load_avg_1 rec\<rparr>"

definition net_message :: "NetDetailRecord \<Rightarrow> pb_NetDetailRecord" where
  "net_message rec =
     \<lparr>pnr_server_name = nr_server_name rec, pnr_net_name = nr_net_name rec,
       pnr_timestamp = setTimestamp (nr_timestamp rec), pnr_err_in = nr_err_in rec,
       pnr_err_out = nr_err_out rec, pnr_drop_in = nr_drop_in rec, pnr_drop_out = nr_drop_out rec,
       pnr_rcv_bytes_rate = nr_recv_bytes_rate rec, pnr_snd_bytes_rate = nr_sent_bytes_rate rec,
       pnr_rcv_packets_rate = nr_recv_packets_rate rec, pnr_snd_packets_rate = nr_sent_packets_rate rec,
       pnr_rcv_bytes_rate_rate = Fin 0, pnr_snd_bytes_rate_rate = Fin 0, pnr_err_in_rate = Fin 0,
       pnr_err_out_rate = Fin 0, pnr_drop_in_rate = Fin 0, pnr_drop_out_rate = Fin 0\<rparr>"

definition disk_message :: "DiskDetailRecord \<Rightarrow> pb_DiskDetailRecord" where
  "disk_message rec =
     \<lparr>pdr_server_name = dr_server_name rec, pdr_disk_name = dr_disk_name rec,
       pdr_timestamp = setTimestamp (dr_timestamp rec),
       pdr_read_bytes_per_sec = dr_read_bytes_per_sec rec,
       pdr_write_bytes_per_sec = dr_write_bytes_per_sec rec, pdr_read_iops = dr_read_iops rec,
       pdr_write_iops = dr_write_iops rec, pdr_avg_read_latency_ms = dr_avg_read_latency_ms rec,
       pdr_avg_write_latency_ms = dr_avg_write_latency_ms rec, pdr_util_percent = dr_util_percent rec,
       pdr_read_bytes_per_sec_rate = Fin 0, pdr_write_bytes_per_sec_rate = Fin 0,
       pdr_read_iops_rate = Fin 0, pdr_write_iops_rate = Fin 0, pdr_util_percent_rate = Fin 0\<rparr>"

definition mem_message :: "MemDetailRecord \<Rightarrow> pb_MemDetailRecord" where
  "mem_message rec =
     \<lparr>pmr_server_name = mr_server_name rec, pmr_timestamp = setTimestamp (mr_timestamp rec),
       pmr_total = mr_mem_total rec, pmr_free = mr_mem_free rec, pmr_avail = mr_mem_avail rec,
       pmr_buffers = mr_buffers rec, pmr_cached = mr_cached rec, pmr_swap_cached = Fin 0,
       pmr_active = mr_active rec, pmr_inactive = mr_inactive rec, pmr_active_anon = Fin 0,
       pmr_inactive_anon = Fin 0, pmr_active_file = Fin 0, pmr_inactive_file = Fin 0,
       pmr_dirty = mr_dirty rec, pmr_writeback = Fin 0, pmr_anon_pages = Fin 0, pmr_mapped = Fin 0,
       pmr_total_rate = Fin 0, pmr_free_rate = Fin 0, pmr_avail_rate = Fin 0, pmr_active_rate = Fin 0,
       pmr_inactive_rate = Fin 0\<rparr>"

definition softirq_message :: "SoftIrqDetailRecord \<Rightarrow> pb_SoftIrqDetailRecord" where
  "softirq_message rec =
     \<lparr>psr_server_name = sr_server_name rec, psr_cpu_name = sr_cpu_name rec,
       psr_timestamp = setTimestamp (sr_timestamp rec), psr_hi = sr_hi rec, psr_timer = sr_timer rec,
       psr_net_tx = sr_net_tx rec, psr_net_rx = sr_net_rx rec, psr_block = sr_block rec,
       psr_irq_poll = 0, psr_tasklet = 0, psr_sched = sr_sched rec, psr_hrtimer = 0, psr_rcu = 0,
       psr_hi_rate = Fin 0, psr_timer_rate = Fin 0, psr_net_tx_rate = Fin 0, psr_net_rx_rate = Fin 0,
       psr_block_rate = Fin 0, psr_sched_rate = Fin 0\<rparr>"

definition mysql_message :: "MysqlDetailRecord \<Rightarrow> pb_MysqlDetailRecord" where
  "mysql_message rec =
     \<lparr>pmq_server_name = mq_server_name rec, pmq_instance = mq_instance rec,
       pmq_timestamp = setTimestamp (mq_timestamp rec), pmq_mysql_host = mq_mysql_host rec,
       pmq_mysql_port = mq_mysql_port rec, pmq_up = mq_up rec, pmq_version = mq_version rec,
       pmq_role = mq_role rec, pmq_max_connections = mq_max_connections rec,
       pmq_threads_connected = mq_threads_connected rec, pmq_threads_running = mq_threads_running rec,
       pmq_aborted_connects = mq_aborted_connects rec, pmq_questions = mq_questions rec,
       pmq_com_select = mq_com_select rec, pmq_com_insert = mq_com_insert rec,
       pmq_com_update = mq_com_update rec, pmq_com_delete = mq_com_delete rec,
       pmq_com_commit = mq_com_commit rec, pmq_com_rollback = mq_com_rollback rec,
       pmq_slow_queries = mq_slow_queries rec,
       pmq_innodb_buffer_pool_read_requests = mq_innodb_buffer_pool_read_requests rec,
       pmq_innodb_buffer_pool_reads = mq_innodb_buffer_pool_reads rec,
       pmq_innodb_buffer_pool_hit_percent = mq_innodb_buffer_pool_hit_percent rec,
       pmq_innodb_row_lock_waits = mq_innodb_row_lock_waits rec,
       pmq_innodb_row_lock_time_avg_ms = mq_innodb_row_lock_time_avg_ms rec,
       pmq_replication_configured = mq_replication_configured rec,
       pmq_replication_running = mq_replication_running rec,
       pmq_replication_lag_seconds = mq_replication_lag_seconds rec,
       pmq_connection_used_percent = mq_connection_used_percent rec, pmq_qps = mq_qps rec,
       pmq_tps = mq_tps rec, pmq_slow_queries_rate = mq_slow_queries_rate rec,
       pmq_innodb_row_lock_waits_rate = mq_innodb_row_lock_waits_rate rec\<rparr>"

definition redis_message :: "RedisDetailRecord \<Rightarrow> pb_RedisDetailRecord" where
  "redis_message rec =
     \<lparr>prr_server_name = rr_server_name rec, prr_instance = rr_instance rec,
       prr_timestamp = setTimestamp (rr_timestamp rec), prr_redis_host = rr_redis_host rec,
       prr_redis_port = rr_redis_port rec, prr_up = rr_up rec, prr_version = rr_version rec,
       prr_role = rr_role rec, prr_uptime_in_seconds = rr_uptime_in_seconds rec,
       prr_connected_clients = rr_connected_clients rec, prr_blocked_clients = rr_blocked_clients rec,
       prr_maxclients = rr_maxclients rec, prr_connection_used_percent = rr_connection_used_percent rec,
       prr_used_memory = rr_used_memory rec, prr_maxmemory = rr_maxmemory rec,
       prr_mem_fragmentation_ratio = rr_mem_fragmentation_ratio rec,
       prr_memory_used_percent = rr_memory_used_percent rec,
       prr_total_commands_processed = rr_total_commands_processed rec,
       prr_instantaneous_ops_per_sec = rr_instantaneous_ops_per_sec rec,
       prr_commands_per_sec = rr_commands_per_sec rec, prr_keyspace_hits = rr_keyspace_hits rec,
       prr_keyspace_misses = rr_keyspace_misses rec,
       prr_keyspace_hit_percent = rr_keyspace_hit_percent rec, prr_expired_keys = rr_expired_keys rec,
       prr_evicted_keys = rr_evicted_keys rec, prr_rejected_connections = rr_rejected_connections rec,
       prr_total_error_replies = rr_total_error_replies rec,
       prr_total_net_input_bytes = rr_total_net_input_bytes rec,
       prr_total_net_output_bytes = rr_total_net_output_bytes rec,
       prr_net_input_bytes_per_sec = rr_net_input_bytes_per_sec rec,
       prr_net_output_bytes_per_sec = rr_net_output_bytes_per_sec rec,
       prr_replication_configured = rr_replication_configured rec,
       prr_master_link_up = rr_master_link_up rec, prr_connected_slaves = rr_connected_slaves rec,
       prr_master_last_io_seconds_ago = rr_master_last_io_seconds_ago rec,
       prr_slowlog_len = rr_slowlog_len rec, prr_slowlog_growth = rr_slowlog_growth rec\<rparr>"

definition stats_message :: "ClusterStats \<Rightarrow> pb_ClusterStats" where
  "stats_message stats =
     \<lparr>pst_total_servers = st_total_servers stats, pst_online_servers = st_online_servers stats,
       pst_offline_servers = st_offline_servers stats, pst_avg_score = st_avg_score stats,
       pst_max_score = st_max_score stats, pst_min_score = st_min_score stats,
       pst_best_server = st_best_server stats, pst_worst_server = st_worst_server stats\<rparr>"

definition thresholds_of :: "QueryAnomalyRequest \<Rightarrow> AnomalyThreshold" where
  "thresholds_of request =
     (let given = (\<lambda>v dflt. if flt (Fin 0) v then v else Fin dflt)
      in \<lparr>at_cpu_threshold = given (aq_cpu_threshold request) 80,
          at_memory_threshold = given (aq_mem_threshold request) 90,
          at_disk_threshold = given (aq_disk_threshold request) 85,
          at_change_rate_threshold = given (aq_change_rate_threshold request) (1 / 2),
          at_mysql_connection_threshold = given (aq_mysql_connection_threshold request) 90,
          at_mysql_replication_lag_threshold = given (aq_mysql_replication_lag_threshold request) 30,
          at_mysql_slow_query_rate_threshold = given (aq_mysql_slow_query_rate_threshold request) 1,
          at_mysql_lock_wait_rate_threshold = given (aq_mysql_lock_wait_rate_threshold request) 1,
          at_mysql_buffer_pool_hit_threshold = given (aq_mysql_buffer_pool_hit_threshold request) 95,
          at_redis_connection_threshold = given (aq_redis_connection_threshold request) 90,
          at_redis_memory_threshold = given (aq_redis_memory_threshold request) 90,
          at_redis_hit_rate_threshold = given (aq_redis_hit_rate_threshold request) 80,
          at_redis_replication_lag_threshold = given (aq_redis_replication_lag_threshold request) 30,
          at_redis_slowlog_growth_threshold = given (aq_redis_slowlog_growth_threshold request) 1\<rparr>)"

section \<open>The service\<close>

text \<open>
  The manager and the cache behind the service's pointers, and whether a call has had
  undefined behaviour, after which nothing is said of the service.
\<close>

record 'c QueryServiceImpl =
  sv_manager :: "QueryManager option"
  sv_cache :: "'c option"
  sv_undefined :: bool

type_synonym ('c, 'p) reply = "(grpc_Status \<times> 'p) run \<times> 'c QueryServiceImpl"

definition usable :: "'c QueryServiceImpl \<Rightarrow> bool" where
  "usable s \<longleftrightarrow> (case sv_manager s of None \<Rightarrow> False | Some q \<Rightarrow> isInitialized q)"

text \<open>What a query left in its output parameters, and how a handler ends.\<close>

definition finish :: "('r answer \<Rightarrow> 'p) \<Rightarrow> 'p \<Rightarrow> 'c QueryServiceImpl \<Rightarrow> 'r answer run \<times> QueryManager \<Rightarrow> ('c, 'p) reply" where
  "finish fill response s result =
     (case result of (r, q) \<Rightarrow>
        (case r of Throws \<Rightarrow> Throws | Undefined \<Rightarrow> Undefined
         | Returns a \<Rightarrow> Returns (if a_error a \<noteq> [] then (queryErrorStatus (a_error a), response) else (status_OK, fill a)),
         s\<lparr>sv_manager := Some q\<rparr>))"

text \<open>What every handler but the latest scores checks first.\<close>

definition with_scope ::
  "'c QueryServiceImpl \<Rightarrow> pb_QueryScope \<Rightarrow> 'p \<Rightarrow> (QueryManager \<Rightarrow> QueryScope \<Rightarrow> ('c, 'p) reply) \<Rightarrow> ('c, 'p) reply" where
  "with_scope s requestScope response rest =
     (case sv_manager s of None \<Rightarrow> (Returns ((UNAVAILABLE, ''Query manager not initialized''), response), s)
      | Some q \<Rightarrow>
          if \<not> isInitialized q then (Returns ((UNAVAILABLE, ''Query manager not initialized''), response), s)
          else (case convertQueryScope requestScope of Inl status \<Rightarrow> (Returns (status, response), s)
                | Inr scope \<Rightarrow> rest q scope))"

definition with_range ::
  "'c QueryServiceImpl \<Rightarrow> pb_TimeRange \<Rightarrow> 'p \<Rightarrow> (TimeRange \<Rightarrow> ('c, 'p) reply) \<Rightarrow> ('c, 'p) reply" where
  "with_range s time_range response rest =
     (case convertTimeRange time_range of None \<Rightarrow> (Undefined, s)
      | Some rng \<Rightarrow>
          if \<not> validateTimeRange rng
          then (Returns ((INVALID_ARGUMENT, ''Invalid time range: start_time > end_time''), response), s)
          else rest rng)"

definition fill_page :: "('r \<Rightarrow> 'p) \<Rightarrow> int \<Rightarrow> int \<Rightarrow> 'p page_response \<Rightarrow> 'r answer \<Rightarrow> 'p page_response" where
  "fill_page message page pageSize response a =
     \<lparr>pg_records = pg_records response @ map message (a_records a),
      pg_total_count = (case a_total a of None \<Rightarrow> 0 | Some n \<Rightarrow> n), pg_page = page, pg_page_size = pageSize\<rparr>"

text \<open>The handlers by page differ in the query they make and the message they fill in.\<close>

definition answer_page ::
  "(QueryManager \<Rightarrow> QueryScope \<Rightarrow> string \<Rightarrow> TimeRange \<Rightarrow> int \<Rightarrow> int \<Rightarrow> int option \<Rightarrow> 'r answer run \<times> QueryManager)
     \<Rightarrow> ('r \<Rightarrow> 'p) \<Rightarrow> QueryDetailRequest \<Rightarrow> 'p page_response \<Rightarrow> 'c QueryServiceImpl \<Rightarrow> ('c, 'p page_response) reply" where
  "answer_page query message request response s =
     with_scope s (dq_scope request) response (\<lambda>q scope.
       with_range s (dq_time_range request) response (\<lambda>rng.
         let page = fix_page (pn_page (dq_pagination request)); pageSize = fix_size (pn_page_size (dq_pagination request))
         in finish (fill_page message page pageSize response) response s
              (query q scope (dq_server_name request) rng page pageSize (Some 0))))"

definition QueryPerformance ::
  "query_env \<Rightarrow> QueryDetailRequest \<Rightarrow> pb_PerformanceRecord page_response \<Rightarrow> 'c QueryServiceImpl \<Rightarrow> ('c, pb_PerformanceRecord page_response) reply" where
  "QueryPerformance E = answer_page (queryPerformanceRecords E) perf_message"

definition QueryTrend ::
  "query_env \<Rightarrow> QueryTrendRequest \<Rightarrow> QueryTrendResponse \<Rightarrow> 'c QueryServiceImpl \<Rightarrow> ('c, QueryTrendResponse) reply" where
  "QueryTrend E request response s =
     with_scope s (tq_scope request) response (\<lambda>q scope.
       with_range s (tq_time_range request) response (\<lambda>rng.
         finish (\<lambda>a. \<lparr>tp_records = tp_records response @ map trend_message (a_records a),
                       tp_interval_seconds = tq_interval_seconds request\<rparr>) response s
           (queryTrend E q scope (tq_server_name request) rng (tq_interval_seconds request))))"

definition QueryAnomaly ::
  "(AnomalyRecord list \<Rightarrow> AnomalyRecord list) \<Rightarrow> query_env \<Rightarrow> QueryAnomalyRequest \<Rightarrow> pb_AnomalyRecord page_response
     \<Rightarrow> 'c QueryServiceImpl \<Rightarrow> ('c, pb_AnomalyRecord page_response) reply" where
  "QueryAnomaly srt E request response s =
     with_scope s (aq_scope request) response (\<lambda>q scope.
       with_range s (aq_time_range request) response (\<lambda>rng.
         let page = fix_page (pn_page (aq_pagination request)); pageSize = fix_size (pn_page_size (aq_pagination request))
         in finish (fill_page anomaly_message page pageSize response) response s
              (queryAnomalyRecords srt E q scope (aq_server_name request) rng (thresholds_of request) page pageSize (Some 0))))"

definition QueryScoreRank ::
  "query_env \<Rightarrow> QueryScoreRankRequest \<Rightarrow> pb_ServerScoreSummary page_response \<Rightarrow> 'c QueryServiceImpl
     \<Rightarrow> ('c, pb_ServerScoreSummary page_response) reply" where
  "QueryScoreRank E request response s =
     with_scope s (kq_scope request) response (\<lambda>q scope.
       let order = (if kq_order request = ASC then ASC else DESC);
           page = fix_page (pn_page (kq_pagination request)); pageSize = fix_size (pn_page_size (kq_pagination request))
       in finish (fill_page score_message page pageSize response) response s
            (queryServerScoreRank E q scope order page pageSize (Some 0)))"

text \<open>
  The latest scores: the scope is checked before the manager, then the cache is asked.
  \<open>par\<close> is \<open>ParseFromString\<close>: whether it succeeded and what it left in the response.
\<close>

record 'c cache_ops =
  cget :: "string \<Rightarrow> 'c \<Rightarrow> string option \<times> 'c"
  cset :: "string \<Rightarrow> string \<Rightarrow> 'c \<Rightarrow> bool \<times> 'c"
  ser :: "QueryLatestScoreResponse \<Rightarrow> string option"
  par :: "string \<Rightarrow> bool \<times> QueryLatestScoreResponse"

definition look_up ::
  "'c cache_ops \<Rightarrow> string \<Rightarrow> QueryLatestScoreResponse \<Rightarrow> 'c QueryServiceImpl
     \<Rightarrow> bool \<times> QueryLatestScoreResponse \<times> 'c QueryServiceImpl" where
  "look_up K key response s =
     (case sv_cache s of None \<Rightarrow> (False, response, s)
      | Some c \<Rightarrow>
          (case cget K key c of (cached, c) \<Rightarrow>
             let s = s\<lparr>sv_cache := Some c\<rparr>
             in case cached of None \<Rightarrow> (False, response, s)
                | Some v \<Rightarrow> (case par K v of (b, response) \<Rightarrow> (b, response, s))))"

definition put_back ::
  "'c cache_ops \<Rightarrow> string \<Rightarrow> QueryLatestScoreResponse \<Rightarrow> 'c QueryServiceImpl \<Rightarrow> 'c QueryServiceImpl" where
  "put_back K key response s =
     (case (sv_cache s, ser K response) of
        (Some c, Some v) \<Rightarrow> s\<lparr>sv_cache := Some (snd (cset K key v c))\<rparr>
      | _ \<Rightarrow> s)"

definition fill_scores :: "QueryLatestScoreResponse \<Rightarrow> ClusterStats \<Rightarrow> ServerScoreSummary answer \<Rightarrow> QueryLatestScoreResponse" where
  "fill_scores response stats a =
     \<lparr>lp_servers = lp_servers response @ map score_message (a_records a), lp_cluster_stats = Some (stats_message stats)\<rparr>"

definition zero_stats :: ClusterStats where
  "zero_stats = \<lparr>st_total_servers = 0, st_online_servers = 0, st_offline_servers = 0, st_avg_score = Fin 0,
     st_max_score = Fin 0, st_min_score = Fin 0, st_best_server = [], st_worst_server = []\<rparr>"

definition QueryLatestScore ::
  "'c cache_ops \<Rightarrow> query_env \<Rightarrow> QueryLatestScoreRequest \<Rightarrow> QueryLatestScoreResponse \<Rightarrow> 'c QueryServiceImpl
     \<Rightarrow> ('c, QueryLatestScoreResponse) reply" where
  "QueryLatestScore K E request response s =
     (case convertQueryScope (lq_scope request) of Inl status \<Rightarrow> (Returns (status, response), s)
      | Inr scope \<Rightarrow>
          (case sv_manager s of None \<Rightarrow> (Returns ((UNAVAILABLE, ''Query manager not initialized''), response), s)
           | Some q \<Rightarrow>
               if \<not> isInitialized q then (Returns ((UNAVAILABLE, ''Query manager not initialized''), response), s)
               else
                 (case look_up K (latestScoreCacheKey scope) response s of (hit, response, s) \<Rightarrow>
                    if hit then (Returns (status_OK, response), s)
                    else
                      (case queryLatestServerScores E q scope of ((r, stats), q) \<Rightarrow>
                         (case finish (fill_scores response (case stats of None \<Rightarrow> zero_stats | Some st \<Rightarrow> st)) response s (r, q) of
                            (Returns (status, response), s) \<Rightarrow>
                              (Returns (status, response),
                               if ok status then put_back K (latestScoreCacheKey scope) response s else s)
                          | (r, s) \<Rightarrow> (r, s))))))"

definition QueryNetDetail ::
  "query_env \<Rightarrow> QueryDetailRequest \<Rightarrow> pb_NetDetailRecord page_response \<Rightarrow> 'c QueryServiceImpl \<Rightarrow> ('c, pb_NetDetailRecord page_response) reply" where
  "QueryNetDetail E = answer_page (queryNetDetailRecords E) net_message"

definition QueryDiskDetail ::
  "query_env \<Rightarrow> QueryDetailRequest \<Rightarrow> pb_DiskDetailRecord page_response \<Rightarrow> 'c QueryServiceImpl \<Rightarrow> ('c, pb_DiskDetailRecord page_response) reply" where
  "QueryDiskDetail E = answer_page (queryDiskDetailRecords E) disk_message"

definition QueryMemDetail ::
  "query_env \<Rightarrow> QueryDetailRequest \<Rightarrow> pb_MemDetailRecord page_response \<Rightarrow> 'c QueryServiceImpl \<Rightarrow> ('c, pb_MemDetailRecord page_response) reply" where
  "QueryMemDetail E = answer_page (queryMemDetailRecords E) mem_message"

definition QuerySoftIrqDetail ::
  "query_env \<Rightarrow> QueryDetailRequest \<Rightarrow> pb_SoftIrqDetailRecord page_response \<Rightarrow> 'c QueryServiceImpl \<Rightarrow> ('c, pb_SoftIrqDetailRecord page_response) reply" where
  "QuerySoftIrqDetail E = answer_page (querySoftIrqDetailRecords E) softirq_message"

definition QueryMysqlDetail ::
  "query_env \<Rightarrow> QueryDetailRequest \<Rightarrow> pb_MysqlDetailRecord page_response \<Rightarrow> 'c QueryServiceImpl \<Rightarrow> ('c, pb_MysqlDetailRecord page_response) reply" where
  "QueryMysqlDetail E = answer_page (queryMysqlDetailRecords E) mysql_message"

definition QueryRedisDetail ::
  "query_env \<Rightarrow> QueryDetailRequest \<Rightarrow> pb_RedisDetailRecord page_response \<Rightarrow> 'c QueryServiceImpl \<Rightarrow> ('c, pb_RedisDetailRecord page_response) reply" where
  "QueryRedisDetail E = answer_page (queryRedisDetailRecords E) redis_message"

section \<open>Dispatching\<close>

text \<open>
  The task handed to the dispatcher runs the handler on a copy of the request and a fresh
  response, with \<open>g_inside_dispatcher\<close> set. \<open>what\<close> is the text of an exception.
\<close>

definition as_task ::
  "string \<Rightarrow> ('req \<Rightarrow> 'p \<Rightarrow> 'c QueryServiceImpl \<Rightarrow> ('c, 'p) reply) \<Rightarrow> 'req \<Rightarrow> 'p \<Rightarrow> ('c QueryServiceImpl, 'p) query_fun" where
  "as_task what handler request out s =
     (case handler request out s of
        (Returns (status, response), s) \<Rightarrow> (Inr (status, response), s)
      | (Throws, s) \<Rightarrow> (Inl (StdException what), s)
      | (Undefined, s) \<Rightarrow> (Inl UnknownException, s\<lparr>sv_undefined := True\<rparr>))"

definition dispatchQuery ::
  "('q, ('c QueryServiceImpl, 'p) world ManagerTask) mpmc_ops
   \<Rightarrow> ('q ManagerDispatcher \<times> ('c QueryServiceImpl, 'p) world \<Rightarrow> 'q ManagerDispatcher \<times> ('c QueryServiceImpl, 'p) world)
   \<Rightarrow> string \<Rightarrow> bool \<Rightarrow> ('req \<Rightarrow> 'p \<Rightarrow> 'c QueryServiceImpl \<Rightarrow> ('c, 'p) reply) \<Rightarrow> 'req \<Rightarrow> 'p \<Rightarrow> 'p
   \<Rightarrow> 'q ManagerDispatcher option \<Rightarrow> ('c QueryServiceImpl, 'p) world
   \<Rightarrow> grpc_Status \<times> 'p \<times> 'q ManagerDispatcher option \<times> ('c QueryServiceImpl, 'p) world" where
  "dispatchQuery ops during what inside handler request fresh response dispatcher w =
     (case dispatcher of None \<Rightarrow> (status_OK, response, dispatcher, w)
      | Some d \<Rightarrow>
          if inside then (status_OK, response, dispatcher, w)
          else (case submitQueryTask ops during (as_task what handler request fresh) (Some response) d w of
                  (status, r, d, w) \<Rightarrow> (status, (case r of None \<Rightarrow> response | Some r \<Rightarrow> r), Some d, w)))"

text \<open>A handler as gRPC calls it: handed over, or run here when there is no dispatcher or this is one of its threads.\<close>

definition rpc ::
  "('q, ('c QueryServiceImpl, 'p) world ManagerTask) mpmc_ops
   \<Rightarrow> ('q ManagerDispatcher \<times> ('c QueryServiceImpl, 'p) world \<Rightarrow> 'q ManagerDispatcher \<times> ('c QueryServiceImpl, 'p) world)
   \<Rightarrow> string \<Rightarrow> bool \<Rightarrow> ('req \<Rightarrow> 'p \<Rightarrow> 'c QueryServiceImpl \<Rightarrow> ('c, 'p) reply) \<Rightarrow> 'req \<Rightarrow> 'p \<Rightarrow> 'p
   \<Rightarrow> 'q ManagerDispatcher option \<Rightarrow> ('c QueryServiceImpl, 'p) world
   \<Rightarrow> (grpc_Status \<times> 'p) run \<times> 'q ManagerDispatcher option \<times> ('c QueryServiceImpl, 'p) world" where
  "rpc ops during what inside handler request fresh response dispatcher w =
     (if dispatcher \<noteq> None \<and> \<not> inside
      then (case dispatchQuery ops during what inside handler request fresh response dispatcher w of
              (status, response, dispatcher, w) \<Rightarrow> (Returns (status, response), dispatcher, w))
      else (case handler request response (app w) of (r, s) \<Rightarrow> (r, dispatcher, w\<lparr>app := s\<rparr>)))"

end
