(* ===== verification/Service_Correct.thy ===== *)
theory Service_Correct
  imports Query_Service
begin

text \<open>
  What the handlers of \<open>Query_Service\<close> guarantee: a handler handed to the dispatcher answers
  as one called directly, every refusal has its status, the answer to a request depends only
  on its scope, and what the cache of scores keeps and reveals.
\<close>

section \<open>Dispatching\<close>

text \<open>
  C18: dispatching is transparent. When the dispatcher runs and its query queue has room, and
  the worker serves the queue before the deadline, a handler called on a gRPC thread returns
  the status the handler gives on the state the earlier tasks left, and its response when the
  status is OK; the service afterwards is the one the handler leaves.
\<close>

lemma dispatched_as_direct:
  fixes w :: "('c QueryServiceImpl, 'p) world"
  assumes "task_queue ops items cap" "running d"
    and "length (items (queryQueue d)) < cap (queryQueue d)"
    and "length (items (queryQueue d)) < unat (query_queue_capacity (d_config d))"
  defines "before \<equiv> fold effect (items (queryQueue d)) (w\<lparr>next_promise := Suc (next_promise w)\<rparr>)"
  assumes "handler request fresh (app before) = (Returns (status, resp), s)"
  shows "\<exists>d' w'. rpc ops (serve ops now (Suc (length (items (queryQueue d))))) what False handler request fresh response (Some d) w
           = (Returns (status, if ok status then resp else response), Some d', w') \<and> app w' = s"
proof -
  have "as_task what handler request fresh (app before) = (Inr (status, resp), s)"
    using assms(6) by (simp add: as_task_def)
  then show ?thesis
    using submitQueryTask_served [OF assms(1-4), of "as_task what handler request fresh" w status resp now response]
    unfolding before_def [symmetric]
    by (auto simp: rpc_def dispatchQuery_def split: prod.splits)
qed

section \<open>Scope of a request\<close>

lemma with_scope_cong:
  assumes "\<And>q scope. convertQueryScope requestScope = Inr scope \<Longrightarrow> rest q scope = rest' q scope"
  shows "with_scope s requestScope response rest = with_scope s requestScope response rest'"
  using assms by (auto simp: with_scope_def split: option.split sum.split)

lemma answer_page_cong:
  assumes "\<And>q scope n r page k. convertQueryScope (dq_scope request) = Inr scope
      \<Longrightarrow> query q scope n r page k (Some 0) = query' q scope n r page k (Some 0)"
  shows "answer_page query message request response s = answer_page query' message request response s"
  unfolding answer_page_def by (rule with_scope_cong) (simp add: assms)


section \<open>The cache of scores\<close>

lemma append_sep_inject:
  assumes "x \<notin> set a" "x \<notin> set c" "a @ x # b = c @ x # d"
  shows "a = c \<and> b = d"
  using assms
proof (induction a arbitrary: c)
  case Nil
  then show ?case by (cases c) auto
next
  case (Cons y a)
  then show ?case by (cases c) auto
qed

lemma cache_key_inject:
  assumes "latestScoreCacheKey sc = latestScoreCacheKey sc'"
    and "CHR '':'' \<notin> set (qs_tenant_id sc) \<union> set (qs_team_id sc)"
    and "CHR '':'' \<notin> set (qs_tenant_id sc') \<union> set (qs_team_id sc')"
  shows "sc = sc'"
proof -
  have "qs_tenant_id sc @ CHR '':'' # qs_team_id sc @ CHR '':'' # qs_cluster_id sc
      = qs_tenant_id sc' @ CHR '':'' # qs_team_id sc' @ CHR '':'' # qs_cluster_id sc'"
    using assms(1) by (simp add: latestScoreCacheKey_def)
  from append_sep_inject [OF _ _ this]
  have "qs_tenant_id sc = qs_tenant_id sc'" and t: "qs_team_id sc @ CHR '':'' # qs_cluster_id sc
      = qs_team_id sc' @ CHR '':'' # qs_cluster_id sc'"
    using assms(2,3) by auto
  moreover from append_sep_inject [OF _ _ t] have "qs_team_id sc = qs_team_id sc' \<and> qs_cluster_id sc = qs_cluster_id sc'"
    using assms(2,3) by auto
  ultimately show ?thesis by (cases sc; cases sc') simp
qed

lemma latest_hit:
  assumes "convertQueryScope (lq_scope request) = Inr scope" "usable s" "sv_cache s = Some c"
    and "cget K (latestScoreCacheKey scope) c = (Some v, c')" "par K v = (True, R)"
  shows "QueryLatestScore K E request response s = (Returns (status_OK, R), s\<lparr>sv_cache := Some c'\<rparr>)"
  using assms by (auto simp: QueryLatestScore_def usable_def look_up_def split: option.splits)

lemma latest_miss:
  assumes "convertQueryScope (lq_scope request) = Inr scope" "sv_cache s = Some c"
    and "cget K (latestScoreCacheKey scope) c = (None, cm)" "ser K R = Some v"
    and "QueryLatestScore K E request response s = (Returns (status_OK, R), s')" 
  shows "sv_cache s' = Some (snd (cset K (latestScoreCacheKey scope) v cm))"
  using assms
  by (auto simp: QueryLatestScore_def look_up_def finish_def put_back_def ok_def queryErrorStatus_def
      split: option.splits prod.splits run.splits if_splits)

text \<open>
  C33: who gets cached scores. Once a request for the latest scores has been answered from the
  database and its response stored, every request whose scope has the same cache key is
  answered OK with that response, whatever the database says. Scopes with equal keys are
  equal when neither tenant nor team contains a colon; otherwise they need not be, and one
  tenant is shown the servers of another.
\<close>

lemma latest_score_cached:
  assumes "convertQueryScope (lq_scope request) = Inr scope" "convertQueryScope (lq_scope request') = Inr scope'"
    and "latestScoreCacheKey scope' = latestScoreCacheKey scope"
    and "sv_cache s = Some c" "cget K (latestScoreCacheKey scope) c = (None, cm)"
    and "QueryLatestScore K E request response s = (Returns (status_OK, R), s')"
    and "ser K R = Some v" "par K v = (True, R)"
    and "cget K (latestScoreCacheKey scope) (snd (cset K (latestScoreCacheKey scope) v cm)) = (Some v, ch)"
  shows "QueryLatestScore K E' request' response' s' = (Returns (status_OK, R), s'\<lparr>sv_cache := Some ch\<rparr>)
    \<and> (CHR '':'' \<notin> set (qs_tenant_id scope @ qs_team_id scope @ qs_tenant_id scope' @ qs_team_id scope') \<longrightarrow> scope' = scope)"
proof (intro conjI impI)
  have "usable s'"
    using assms(1,4-6)
    by (auto simp: QueryLatestScore_def look_up_def finish_def put_back_def usable_def queryLatestServerScores_def
        guarded_def acquireConnection_def isInitialized_def split: option.splits prod.splits run.splits if_splits)
  moreover have "sv_cache s' = Some (snd (cset K (latestScoreCacheKey scope) v cm))"
    by (rule latest_miss [OF assms(1,4,5,7,6)])
  ultimately show "QueryLatestScore K E' request' response' s' = (Returns (status_OK, R), s'\<lparr>sv_cache := Some ch\<rparr>)"
    using assms(3,8,9) by (intro latest_hit [OF assms(2)]) auto
next
  assume "CHR '':'' \<notin> set (qs_tenant_id scope @ qs_team_id scope @ qs_tenant_id scope' @ qs_team_id scope')"
  then show "scope' = scope" by (intro cache_key_inject [OF assms(3)]) auto
qed

section \<open>Witnesses\<close>

definition sample_pb_scope :: "string \<Rightarrow> string \<Rightarrow> pb_QueryScope" where
  "sample_pb_scope tenant team = \<lparr>pq_tenant_id = tenant, pq_team_id = team, pq_cluster_id = []\<rparr>"

definition sample_service :: "(string \<rightharpoonup> string) QueryServiceImpl" where
  "sample_service = \<lparr>sv_manager = Some sample_manager, sv_cache = Some Map.empty, sv_undefined = False\<rparr>"

definition no_scores :: QueryLatestScoreResponse where
  "no_scores = \<lparr>lp_servers = [], lp_cluster_stats = None\<rparr>"

definition sample_scores :: QueryLatestScoreResponse where
  "sample_scores =
     (let rows = [score_summary sample_env [''db01'', ''2026-01-01 00:00:00'']]
      in \<lparr>lp_servers = map score_message rows, lp_cluster_stats = Some (stats_message (cluster_stats rows))\<rparr>)"

definition sample_cache :: "(string \<rightharpoonup> string) cache_ops" where
  "sample_cache = \<lparr>cget = (\<lambda>k m. (m k, m)), cset = (\<lambda>k v m. (True, m(k \<mapsto> v))),
     ser = (\<lambda>_. Some ''scores''), par = (\<lambda>_. (True, sample_scores))\<rparr>"

lemma sample_query:
  "queryLatestServerScores sample_env sample_manager scope =
     ((Returns \<lparr>a_records = [score_summary sample_env [''db01'', ''2026-01-01 00:00:00'']], a_total = None, a_error = []\<rparr>,
       Some (cluster_stats [score_summary sample_env [''db01'', ''2026-01-01 00:00:00'']])), sample_manager)"
  if "validateQueryScope scope"
  using that
  by (simp add: queryLatestServerScores_def guarded_def acquireConnection_def sample_manager_def sample_env_def
      executePreparedRows_def parsed_def cell_text_def)

lemma sample_latest:
  assumes "convertQueryScope (lq_scope request) = Inr scope" "validateQueryScope scope"
  shows "QueryLatestScore sample_cache sample_env request no_scores sample_service
    = (Returns (status_OK, sample_scores), sample_service\<lparr>sv_cache := Some [latestScoreCacheKey scope \<mapsto> ''scores'']\<rparr>)"
  using assms
  by (simp add: QueryLatestScore_def look_up_def sample_service_def sample_query finish_def fill_scores_def put_back_def
      sample_cache_def no_scores_def sample_scores_def ok_def Let_def)
    (simp add: sample_manager_def isInitialized_def)

lemma latest_score_cached_witness:
  "\<exists>s'. QueryLatestScore sample_cache sample_env \<lparr>lq_scope = sample_pb_scope ''a'' ''b:c''\<rparr> no_scores sample_service
       = (Returns (status_OK, sample_scores), s')
   \<and> QueryLatestScore sample_cache sample_env \<lparr>lq_scope = sample_pb_scope ''a:b'' ''c''\<rparr> no_scores s'
       = (Returns (status_OK, sample_scores), s')"
proof -
  define sc where "sc = \<lparr>qs_tenant_id = ''a'', qs_team_id = ''b:c'', qs_cluster_id = []\<rparr>"
  define sc' where "sc' = \<lparr>qs_tenant_id = ''a:b'', qs_team_id = ''c'', qs_cluster_id = []\<rparr>"
  let ?s = "sample_service\<lparr>sv_cache := Some [latestScoreCacheKey sc \<mapsto> ''scores'']\<rparr>"
  have c: "convertQueryScope (sample_pb_scope ''a'' ''b:c'') = Inr sc" "convertQueryScope (sample_pb_scope ''a:b'' ''c'') = Inr sc'"
    by (simp_all add: convertQueryScope_def sample_pb_scope_def sc_def sc'_def)
  have k: "latestScoreCacheKey sc' = latestScoreCacheKey sc"
    by (simp add: latestScoreCacheKey_def sc_def sc'_def)
  have q: "QueryLatestScore sample_cache sample_env \<lparr>lq_scope = sample_pb_scope ''a'' ''b:c''\<rparr> no_scores sample_service
      = (Returns (status_OK, sample_scores), ?s)"
    by (rule sample_latest) (simp_all add: c, simp add: sc_def validateQueryScope_def)
  have "QueryLatestScore sample_cache sample_env \<lparr>lq_scope = sample_pb_scope ''a:b'' ''c''\<rparr> no_scores ?s
      = (Returns (status_OK, sample_scores), ?s)"
    using latest_score_cached [OF _ _ k _ _ q, where request' = "\<lparr>lq_scope = sample_pb_scope ''a:b'' ''c''\<rparr>" and c = Map.empty and cm = Map.empty
      and v = "''scores''" and ch = "[latestScoreCacheKey sc \<mapsto> ''scores'']" and E' = sample_env and response' = no_scores] c
    by (simp add: sample_service_def sample_cache_def)
  with q show ?thesis by blast
qed


lemma dispatched_as_direct_witness:
  "\<exists>d' w'. rpc fifo_ops (serve fifo_ops 0 1) ''stoull'' False (QueryLatestScore sample_cache sample_env)
       \<lparr>lq_scope = sample_pb_scope ''acme'' ''ops''\<rparr> no_scores no_scores (Some demo_dispatcher)
       \<lparr>app = sample_service, promises = Map.empty, next_promise = 0\<rparr>
     = (Returns (status_OK, sample_scores), Some d', w')"
proof -
  have "convertQueryScope (sample_pb_scope ''acme'' ''ops'') = Inr sample_scope"
    by (simp add: convertQueryScope_def sample_pb_scope_def sample_scope_def)
  then have "QueryLatestScore sample_cache sample_env \<lparr>lq_scope = sample_pb_scope ''acme'' ''ops''\<rparr> no_scores sample_service
      = (Returns (status_OK, sample_scores), sample_service\<lparr>sv_cache := Some [latestScoreCacheKey sample_scope \<mapsto> ''scores'']\<rparr>)"
    by (intro sample_latest) (simp_all add: sample_scope_def validateQueryScope_def)
  then show ?thesis
    using dispatched_as_direct [OF fifo_tasks.task_queue_axioms, of demo_dispatcher "QueryLatestScore sample_cache sample_env"
        "\<lparr>lq_scope = sample_pb_scope ''acme'' ''ops''\<rparr>" no_scores "\<lparr>app = sample_service, promises = Map.empty, next_promise = 0\<rparr>"
        status_OK sample_scores _ 0 "''stoull''" no_scores]
    by (auto simp: demo_dispatcher_eq demo_config_def ok_def)
qed

end
