(* ===== verification/Grpc_Server.thy ===== *)
theory Grpc_Server
  imports Dispatcher Host_Manager
begin

text \<open>
  \<open>GrpcServer.h/.cpp\<close>: the service the workers push to. A push is kept under its host's name
  and handed, under that name, to the dispatcher with the callback \<open>main\<close> has set: the host
  manager's \<open>onDataReceived\<close>. The property follows a push from the call to the host manager.
\<close>

record HostData =
  hd_info :: MonitorInfo
  hd_time :: int

type_synonym 'w DataReceivedCallback = "MonitorInfo \<Rightarrow> WorkerIdentity \<Rightarrow> 'w \<Rightarrow> outcome \<times> 'w"

record ('q, 'w) GrpcServerImpl =
  hostDatas :: "(string \<times> HostData) list"
  gs_callback :: "'w DataReceivedCallback option"
  gs_dispatcher :: "'q ManagerDispatcher option"

definition GrpcServerImpl_new :: "('q, 'w) GrpcServerImpl" where
  "GrpcServerImpl_new = \<lparr>hostDatas = [], gs_callback = None, gs_dispatcher = None\<rparr>"

definition setDataReceivedCallback :: "'w DataReceivedCallback option \<Rightarrow> ('q, 'w) GrpcServerImpl \<Rightarrow> ('q, 'w) GrpcServerImpl" where
  "setDataReceivedCallback callback g = g\<lparr>gs_callback := callback\<rparr>"

definition setDispatcher :: "'q ManagerDispatcher option \<Rightarrow> ('q, 'w) GrpcServerImpl \<Rightarrow> ('q, 'w) GrpcServerImpl" where
  "setDispatcher dispatcher g = g\<lparr>gs_dispatcher := dispatcher\<rparr>"

definition resolveHostID :: "MonitorInfo \<Rightarrow> string" where
  "resolveHostID info =
     (case m_host_info info of None \<Rightarrow> m_name info
      | Some hostInfo \<Rightarrow>
          (let hostName = hi_hostname hostInfo; ip = hi_ip_address hostInfo
           in if hostName \<noteq> [] \<and> ip \<noteq> [] then hostName @ ''_'' @ ip
              else if ip \<noteq> [] then ip
              else if hostName \<noteq> [] then hostName
              else m_name info))"

text \<open>The metadata of a call is a multimap; \<open>find\<close> gives the first value of the key.\<close>

definition metadataValue :: "(string \<times> string) list option \<Rightarrow> string \<Rightarrow> string" where
  "metadataValue context key =
     (case context of None \<Rightarrow> []
      | Some metadata \<Rightarrow> (case map_of metadata key of None \<Rightarrow> [] | Some v \<Rightarrow> v))"

definition identity_of :: "(string \<times> string) list option \<Rightarrow> WorkerIdentity" where
  "identity_of context =
     \<lparr>worker_id = metadataValue context ''x-monitor-worker-id'', worker_token = metadataValue context ''x-monitor-worker-token''\<rparr>"

text \<open>
  The status is \<open>None\<close> when an exception of the callback, run here for want of a dispatcher,
  leaves the handler.
\<close>

definition SetMonitorInfo ::
  "('q, 'w ManagerTask) mpmc_ops \<Rightarrow> (string \<Rightarrow> u64) \<Rightarrow> int \<Rightarrow> (string \<times> string) list option \<Rightarrow> MonitorInfo option
     \<Rightarrow> ('q, 'w) GrpcServerImpl \<Rightarrow> 'w \<Rightarrow> grpc_Status option \<times> ('q, 'w) GrpcServerImpl \<times> 'w" where
  "SetMonitorInfo ops hash now context request g w =
     (case request of None \<Rightarrow> (Some (INVALID_ARGUMENT, ''Empty request''), g, w)
      | Some info \<Rightarrow>
          (let workerIdentity = identity_of context; hostname = resolveHostID info
           in if worker_id workerIdentity = [] then (Some (UNAUTHENTICATED, ''Missing worker identity''), g, w)
              else if hostname = [] then (Some (INVALID_ARGUMENT, ''Missing hostname''), g, w)
              else
                let g = g\<lparr>hostDatas := put hostname \<lparr>hd_info = info, hd_time = now\<rparr> (hostDatas g)\<rparr>
                in case (gs_dispatcher g, gs_callback g) of
                     (Some d, Some callback) \<Rightarrow>
                       (case submitMonitorTask ops hash hostname (Some (callback info workerIdentity)) d of (accepted, d) \<Rightarrow>
                          (Some status_OK, g\<lparr>gs_dispatcher := Some d\<rparr>, w))
                   | (None, Some callback) \<Rightarrow>
                       (case callback info workerIdentity w of
                          (Returned, w) \<Rightarrow> (Some status_OK, g, w) | (Threw, w) \<Rightarrow> (None, g, w))
                   | (_, None) \<Rightarrow> (Some status_OK, g, w)))"

text \<open>\<open>hostDatas_.begin ()\<close> of the unordered map: \<open>first\<close> says which entry that is.\<close>

definition GetMonitorInfo ::
  "((string \<times> HostData) list \<Rightarrow> string \<times> HostData) \<Rightarrow> MonitorInfo \<Rightarrow> ('q, 'w) GrpcServerImpl \<Rightarrow> grpc_Status \<times> MonitorInfo" where
  "GetMonitorInfo first response g =
     (if hostDatas g \<noteq> [] then (status_OK, hd_info (snd (first (hostDatas g))))
      else ((NOT_FOUND, ''No monitor data available''), response))"

definition getAllHostDatas :: "('q, 'w) GrpcServerImpl \<Rightarrow> string \<rightharpoonup> HostData" where
  "getAllHostDatas g = map_of (hostDatas g)"

definition getHostData :: "string \<Rightarrow> HostData \<Rightarrow> ('q, 'w) GrpcServerImpl \<Rightarrow> bool \<times> HostData" where
  "getHostData hostID hostData g =
     (case map_of (hostDatas g) hostID of Some h \<Rightarrow> (True, h) | None \<Rightarrow> (False, hostData))"

text \<open>
  \<open>RpcClient\<close>, the client with which a stored message is read back: \<open>stub\<close> is the call, with the output
  parameter it fills and its status; a null pointer is refused without a call.
\<close>

record RpcClient =
  cl_hostAddress :: string

definition RpcClient_new :: "string \<Rightarrow> RpcClient" where
  "RpcClient_new hostAddress = \<lparr>cl_hostAddress = hostAddress\<rparr>"

definition getHostAddress :: "RpcClient \<Rightarrow> string" where
  "getHostAddress c = cl_hostAddress c"

definition RpcClient_getMonitorInfo ::
  "(string \<Rightarrow> MonitorInfo \<Rightarrow> grpc_Status \<times> MonitorInfo) \<Rightarrow> MonitorInfo option \<Rightarrow> RpcClient \<Rightarrow> bool \<times> MonitorInfo option" where
  "RpcClient_getMonitorInfo stub info c =
     (case info of None \<Rightarrow> (False, None)
      | Some info \<Rightarrow> (case stub (getHostAddress c) info of (status, info) \<Rightarrow> (ok status, Some info)))"

text \<open>The callback \<open>main\<close> sets; the clock and the host manager are what it acts on.\<close>

definition manager_callback ::
  "(string \<Rightarrow> string) \<Rightarrow> (string \<Rightarrow> registry_reply) \<Rightarrow> (fp \<Rightarrow> string) \<Rightarrow> (int \<times> HostManager) DataReceivedCallback" where
  "manager_callback escape db show_double info workerIdentity w =
     (case w of (clock, hm) \<Rightarrow> (Returned, (clock, onDataReceived escape db show_double clock info workerIdentity hm)))"

section \<open>A push from the call to the host manager\<close>

text \<open>The name a push is partitioned by is the name the host manager files it under.\<close>

lemma resolveHostID_host_id: "resolveHostID info = host_id info"
  by (auto simp: resolveHostID_def host_id_def Let_def split: option.split)

text \<open>
  C7: a push with a worker's name and a host's name is answered OK and replaces what the
  service keeps of that host, before anyone has looked at the worker's token. If the shard of
  the host's name has room, the last task of that shard is now the host manager's reception
  of this very message from this very worker, at the time it is run; no other shard changes.
  If it has no room the message is dropped and counted, and the answer is OK all the same.
\<close>

lemma push_pipeline:
  assumes "task_queue ops items cap" "gs_dispatcher g = Some d" "running d" "ingestShards d \<noteq> []"
    and "gs_callback g = Some (manager_callback escape db show_double)"
    and "worker_id (identity_of context) \<noteq> []" "host_id info \<noteq> []"
    and "SetMonitorInfo ops hash now context (Some info) g w = (status, g', w')"
  defines "i \<equiv> shardIndexFor hash d (host_id info)"
  shows "status = Some status_OK \<and> w' = w
    \<and> getAllHostDatas g' = (getAllHostDatas g)(host_id info \<mapsto> \<lparr>hd_info = info, hd_time = now\<rparr>)
    \<and> (\<exists>d'. gs_dispatcher g' = Some d'
        \<and> (if length (backlog items d ! i) < cap (is_queue (ingestShards d ! i))
           then \<exists>t. backlog items d' = (backlog items d)[i := backlog items d ! i @ [t]] \<and> partition_key t = host_id info
             \<and> (\<forall>clock hm. effect t (clock, hm)
                   = (clock, onDataReceived escape db show_double clock info (identity_of context) hm))
           else backlog items d' = backlog items d
             \<and> d_metrics d' = map_option (\<lambda>m. m\<lparr>queue_rejected := queue_rejected m + 1,
                   dropped_monitor_samples := dropped_monitor_samples m + 1\<rparr>) (d_metrics d)))"
proof -
  let ?f = "Some (manager_callback escape db show_double info (identity_of context))"
  obtain b d' where d': "submitMonitorTask ops hash (host_id info) ?f d = (b, d')" by fastforce
  have g': "status = Some status_OK" "w' = w" "gs_dispatcher g' = Some d'"
    "hostDatas g' = put (host_id info) \<lparr>hd_info = info, hd_time = now\<rparr> (hostDatas g)"
    using assms(2,5-8) d' by (auto simp: SetMonitorInfo_def resolveHostID_host_id)
  note spec = task_queue.submit_refines [OF assms(1,4) d', folded i_def]
  have e: "effect \<lparr>kind = MonitorPush, partition_key = host_id info, run = ?f\<rparr> (clock, hm)
      = (clock, onDataReceived escape db show_double clock info (identity_of context) hm)" for clock hm
    by (simp add: effect_def manager_callback_def)
  show ?thesis
    using g' spec assms(3) e by (auto simp: getAllHostDatas_def put_map_of intro!: exI [of _ d'])
qed

definition demo_server :: "(nat \<times> (int \<times> HostManager) ManagerTask list, int \<times> HostManager) GrpcServerImpl" where
  "demo_server = setDispatcher (Some demo_dispatcher)
     (setDataReceivedCallback (Some (manager_callback id demo_db (\<lambda>_. []))) GrpcServerImpl_new)"

lemma push_pipeline_witness:
  "\<exists>g' d' t. SetMonitorInfo fifo_ops (\<lambda>_. 1) 5 (Some [(''x-monitor-worker-id'', ''w'')]) (Some demo_info) demo_server (9, demo_manager)
       = (Some status_OK, g', (9, demo_manager))
     \<and> gs_dispatcher g' = Some d' \<and> backlog snd d' = [[], [t]]
     \<and> effect t (9, demo_manager)
       = (9, onDataReceived id demo_db (\<lambda>_. []) 9 demo_info \<lparr>worker_id = ''w'', worker_token = []\<rparr> demo_manager)"
proof -
  obtain status g' w' where
    r: "SetMonitorInfo fifo_ops (\<lambda>_. 1) 5 (Some [(''x-monitor-worker-id'', ''w'')]) (Some demo_info) demo_server (9, demo_manager)
      = (status, g', w')" by (metis prod_cases3)
  have i: "identity_of (Some [(''x-monitor-worker-id'', ''w'')]) = \<lparr>worker_id = ''w'', worker_token = []\<rparr>"
    by (simp add: identity_of_def metadataValue_def)
  have h: "host_id demo_info \<noteq> []" by (simp add: host_id_def demo_info_def default_MonitorInfo_def)
  have "backlog snd (demo_dispatcher :: (nat \<times> (int \<times> HostManager) ManagerTask list) ManagerDispatcher) = [[], []]"
    by (simp add: backlog_def demo_dispatcher_eq)
  then show ?thesis
    using push_pipeline [OF fifo_tasks.task_queue_axioms _ _ _ _ _ h r, of demo_dispatcher id demo_db "\<lambda>_. []"] r
    by (auto simp: demo_server_def setDispatcher_def setDataReceivedCallback_def i demo_dispatcher_eq shardIndexFor_def)
qed

text \<open>
  A client that asks the service after the first push it has taken is given that message;
  before it, the call fails and leaves the client's message alone.
\<close>

theorem client_reads_push:
  assumes "request = Some info" "worker_id (identity_of context) \<noteq> []" "resolveHostID info \<noteq> []"
    and "\<And>hs. hs \<noteq> [] \<Longrightarrow> first hs \<in> set hs" "SetMonitorInfo ops hash now context request GrpcServerImpl_new w = (st, g, w')"
  shows "RpcClient_getMonitorInfo (\<lambda>_ m. GetMonitorInfo first m g) (Some old) c = (True, Some info)
    \<and> RpcClient_getMonitorInfo (\<lambda>_ m. GetMonitorInfo first m (GrpcServerImpl_new :: ('q, 'w) GrpcServerImpl)) (Some old) c = (False, Some old)"
proof -
  have g: "hostDatas g = [(resolveHostID info, \<lparr>hd_info = info, hd_time = now\<rparr>)]"
    using assms(1-3,5) by (auto simp: SetMonitorInfo_def GrpcServerImpl_new_def Let_def)
  then have "first (hostDatas g) = (resolveHostID info, \<lparr>hd_info = info, hd_time = now\<rparr>)" using assms(4) [of "hostDatas g"] by simp
  then show ?thesis using g by (simp add: RpcClient_getMonitorInfo_def GetMonitorInfo_def GrpcServerImpl_new_def ok_def)
qed

theorem client_reads_push_witness:
  "\<exists>st g w'. SetMonitorInfo fifo_ops (\<lambda>_. 1) 5 (Some [(''x-monitor-worker-id'', ''w'')]) (Some demo_info) GrpcServerImpl_new (9 :: int, demo_manager) = (st, g, w')
     \<and> RpcClient_getMonitorInfo (\<lambda>_ m. GetMonitorInfo hd m g) (Some default_MonitorInfo) (RpcClient_new ''localhost:50051'') = (True, Some demo_info)"
proof -
  let ?ctx = "Some [(''x-monitor-worker-id'', ''w'')]"
  obtain st g w' where r: "SetMonitorInfo fifo_ops (\<lambda>_. 1) 5 ?ctx (Some demo_info) GrpcServerImpl_new (9 :: int, demo_manager) = (st, g, w')"
    by (metis prod_cases3)
  have "worker_id (identity_of ?ctx) \<noteq> []" "resolveHostID demo_info \<noteq> []"
    by (simp_all add: identity_of_def metadataValue_def resolveHostID_def demo_info_def default_MonitorInfo_def)
  from client_reads_push [OF refl this, of hd, OF _ r] r show ?thesis by (metis hd_in_set)
qed

end
