(* ===== verification/Local_Time.thy ===== *)
theory Local_Time
  imports Query_Manager
begin

text \<open>
  The two conversions between points in time and the text of a column that the query manager
  uses: \<open>formatTimePoint\<close> and \<open>parseTimeString\<close>. The zone of the host (\<open>localtime\<close> and \<open>mktime\<close>) is an argument.
  They are what the fields \<open>q_formatTimePoint\<close> and \<open>q_parseTimeString\<close> of \<open>query_env\<close> stand for.
\<close>

section \<open>Broken-down times\<close>

text \<open>\<open>std::tm\<close> as C has it: years since 1900, months from 0, and whether daylight saving time is in effect.\<close>

record tm_time =
  tm_year :: int
  tm_mon :: nat
  tm_mday :: nat
  tm_hour :: nat
  tm_min :: nat
  tm_sec :: nat
  tm_isdst :: int

definition two_digits :: "nat \<Rightarrow> string" where
  "two_digits n = [digit (n div 10), digit (n mod 10)]"

text \<open>\<open>strftime\<close> with \<open>%Y-%m-%d %H:%M:%S\<close>.\<close>

definition strftime_text :: "tm_time \<Rightarrow> string" where
  "strftime_text t =
     show_int (tm_year t + 1900) @ ''-'' @ two_digits (tm_mon t + 1) @ ''-'' @ two_digits (tm_mday t) @ '' ''
     @ two_digits (tm_hour t) @ '':'' @ two_digits (tm_min t) @ '':'' @ two_digits (tm_sec t)"

text \<open>
  \<open>std::get_time\<close> with the same format, on text that begins with all fields at full width and in
  their ranges; what it leaves in the structure for other text differs between libraries.
\<close>

definition number_at :: "string \<Rightarrow> nat \<Rightarrow> nat \<Rightarrow> nat" where
  "number_at s i n = digits_val (take n (drop i s))"

definition get_time_text :: "string \<Rightarrow> tm_time option" where
  "get_time_text s =
     (if 19 \<le> length s \<and> list_all (\<lambda>i. isdigit (s ! i)) [0, 1, 2, 3, 5, 6, 8, 9, 11, 12, 14, 15, 17, 18]
         \<and> s ! 4 = CHR ''-'' \<and> s ! 7 = CHR ''-'' \<and> s ! 10 = CHR '' '' \<and> s ! 13 = CHR '':'' \<and> s ! 16 = CHR '':''
         \<and> 1 \<le> number_at s 5 2 \<and> number_at s 5 2 \<le> 12 \<and> 1 \<le> number_at s 8 2 \<and> number_at s 8 2 \<le> 31
         \<and> number_at s 11 2 \<le> 23 \<and> number_at s 14 2 \<le> 59 \<and> number_at s 17 2 \<le> 60
      then Some \<lparr>tm_year = int (number_at s 0 4) - 1900, tm_mon = number_at s 5 2 - 1, tm_mday = number_at s 8 2,
             tm_hour = number_at s 11 2, tm_min = number_at s 14 2, tm_sec = number_at s 17 2, tm_isdst = 0\<rparr>
      else None)"

section \<open>The conversions\<close>

text \<open>A point in time is in nanoseconds; \<open>to_time_t\<close> cuts off to seconds.\<close>

definition formatTimePoint :: "(int \<Rightarrow> tm_time) \<Rightarrow> int \<Rightarrow> string" where
  "formatTimePoint localtime tp = strftime_text (localtime (cdiv tp 1000000000))"

definition parseTimeString :: "(tm_time \<Rightarrow> int) \<Rightarrow> (string \<Rightarrow> tm_time) \<Rightarrow> string \<Rightarrow> int" where
  "parseTimeString mktime other timeStr =
     (let tm = (case get_time_text timeStr of Some tm \<Rightarrow> tm | None \<Rightarrow> other timeStr)
      in mktime tm * 1000000000)"

section \<open>Reading back\<close>

definition in_calendar :: "tm_time \<Rightarrow> bool" where
  "in_calendar t \<longleftrightarrow> 1000 \<le> tm_year t + 1900 \<and> tm_year t + 1900 \<le> 9999 \<and> tm_mon t < 12 \<and> 1 \<le> tm_mday t \<and> tm_mday t \<le> 31
     \<and> tm_hour t < 24 \<and> tm_min t < 60 \<and> tm_sec t \<le> 60"

lemma show_four:
  assumes "1000 \<le> n" "n \<le> 9999"
  shows "show_nat n = [digit (n div 1000), digit (n div 100 mod 10), digit (n div 10 mod 10), digit (n mod 10)]"
proof -
  have "n div 1000 < 10" "\<not> n div 100 < 10" "\<not> n div 10 < 10" "\<not> n < 10" using assms by auto
  then show ?thesis
    by (simp add: show_nat.simps [of n] show_nat.simps [of "n div 10"] show_nat.simps [of "n div 100"] show_nat.simps [of "n div 1000"]
        div_mult2_eq [symmetric])
qed

lemma value_two: "n < 100 \<Longrightarrow> digits_val [digit (n div 10), digit (n mod 10)] = n"
  by (simp add: digits_val_def of_char_digit)

lemma value_four:
  assumes "n \<le> 9999"
  shows "digits_val [digit (n div 1000), digit (n div 100 mod 10), digit (n div 10 mod 10), digit (n mod 10)] = n"
proof -
  have "n div 1000 < 10" using assms by auto
  then have "digits_val [digit (n div 1000), digit (n div 100 mod 10), digit (n div 10 mod 10), digit (n mod 10)]
      = 1000 * (n div 1000) + 100 * (n div 100 mod 10) + 10 * (n div 10 mod 10) + n mod 10"
    by (simp add: digits_val_def of_char_digit)
  moreover have "10 * (n div 1000) + n div 100 mod 10 = n div 100" "10 * (n div 100) + n div 10 mod 10 = n div 10" "10 * (n div 10) + n mod 10 = n"
    using mult_div_mod_eq [of 10 "n div 100"] mult_div_mod_eq [of 10 "n div 10"] mult_div_mod_eq [of 10 n]
    by (simp_all add: div_mult2_eq [symmetric])
  ultimately show ?thesis by linarith
qed

text \<open>The text of a time is read back but for the flag of daylight saving time.\<close>

lemma get_time_strftime:
  assumes "in_calendar t"
  shows "get_time_text (strftime_text t @ rest) = Some (t\<lparr>tm_isdst := 0\<rparr>)"
proof -
  obtain y where y: "tm_year t + 1900 = int y" "1000 \<le> y" "y \<le> 9999"
    using assms by (cases "tm_year t + 1900") (auto simp: in_calendar_def)
  let ?s = "strftime_text t @ rest"
  have b: "tm_mon t + 1 < 100" "tm_mday t < 100" "tm_hour t < 100" "tm_min t < 100" "tm_sec t < 100"
    using assms by (auto simp: in_calendar_def)
  have "show_int (tm_year t + 1900) = show_nat y" by (simp add: y(1) show_int_def)
  then have s: "?s = [digit (y div 1000), digit (y div 100 mod 10), digit (y div 10 mod 10), digit (y mod 10)] @ ''-''
      @ two_digits (tm_mon t + 1) @ ''-'' @ two_digits (tm_mday t) @ '' ''
      @ two_digits (tm_hour t) @ '':'' @ two_digits (tm_min t) @ '':'' @ two_digits (tm_sec t) @ rest"
    by (simp add: strftime_text_def show_four [OF y(2,3)])
  have n: "number_at ?s 0 4 = y" "number_at ?s 5 2 = tm_mon t + 1" "number_at ?s 8 2 = tm_mday t" "number_at ?s 11 2 = tm_hour t"
      "number_at ?s 14 2 = tm_min t" "number_at ?s 17 2 = tm_sec t"
    unfolding s number_at_def two_digits_def
    using value_four [OF y(3)] value_two [OF b(1)] value_two [OF b(2)] value_two [OF b(3)] value_two [OF b(4)] value_two [OF b(5)]
    by simp_all
  have dig: "list_all (\<lambda>i. isdigit (?s ! i)) [0, 1, 2, 3, 5, 6, 8, 9, 11, 12, 14, 15, 17, 18]"
    unfolding s two_digits_def using y(3) b by simp
  have sep: "19 \<le> length ?s" "?s ! 4 = CHR ''-''" "?s ! 7 = CHR ''-''" "?s ! 10 = CHR '' ''" "?s ! 13 = CHR '':''" "?s ! 16 = CHR '':''"
    unfolding s two_digits_def by simp_all
  have "int y - 1900 = tm_year t" using y(1) by simp
  then show ?thesis
    using assms dig sep unfolding get_time_text_def n in_calendar_def by (cases t) simp
qed

text \<open>
  C31: What the query manager prints of a point in time and reads back. \<open>get_time\<close> leaves the flag of
  daylight saving time at zero, so \<open>mktime\<close> takes the text for standard time: outside of daylight
  saving time the second comes back exactly; while it is in effect, every time read from a
  row is late by the \<open>saving\<close> of the zone, although the range of the query was printed with it.
\<close>

theorem times_read_back:
  assumes "in_calendar (localtime t)" "t = cdiv tp 1000000000"
    and "mktime (localtime t) = t" "\<And>m. tm_isdst m = 1 \<Longrightarrow> mktime (m\<lparr>tm_isdst := 0\<rparr>) = mktime m + saving"
    and "tm_isdst (localtime t) \<in> {0, 1}"
  shows "parseTimeString mktime other (formatTimePoint localtime tp)
    = (if tm_isdst (localtime t) = 0 then t else t + saving) * 1000000000"
proof -
  have "get_time_text (strftime_text (localtime t)) = Some ((localtime t)\<lparr>tm_isdst := 0\<rparr>)"
    using get_time_strftime [OF assms(1), of "[]"] by simp
  then have r: "parseTimeString mktime other (formatTimePoint localtime tp) = mktime ((localtime t)\<lparr>tm_isdst := 0\<rparr>) * 1000000000"
    by (simp add: parseTimeString_def formatTimePoint_def assms(2) [symmetric])
  show ?thesis
  proof (cases "tm_isdst (localtime t) = 0")
    case True
    then have "(localtime t)\<lparr>tm_isdst := 0\<rparr> = localtime t" by (cases "localtime t") simp
    with True r assms(3) show ?thesis by simp
  next
    case False
    then show ?thesis using assms(3-5) r by simp
  qed
qed

text \<open>The first seconds of July 2026 in a zone two hours ahead of the universal time, one of them of daylight saving.\<close>

definition july_localtime :: "int \<Rightarrow> tm_time" where
  "july_localtime t = \<lparr>tm_year = 126, tm_mon = 6, tm_mday = 1, tm_hour = 0, tm_min = 0, tm_sec = nat (t - 1782856800), tm_isdst = 1\<rparr>"

definition july_mktime :: "tm_time \<Rightarrow> int" where
  "july_mktime m = 1782856800 + int (tm_sec m) + (if tm_isdst m = 0 then 3600 else 0)"

theorem times_read_back_witness:
  "parseTimeString july_mktime (\<lambda>_. july_localtime 0) (formatTimePoint july_localtime 1782856807500000000)
     = 1782860407000000000"
proof -
  let ?t = "1782856807 :: int"
  have l: "july_localtime ?t = \<lparr>tm_year = 126, tm_mon = 6, tm_mday = 1, tm_hour = 0, tm_min = 0, tm_sec = 7, tm_isdst = 1\<rparr>"
    by (simp add: july_localtime_def)
  have a: "in_calendar (july_localtime ?t)" by (simp add: l in_calendar_def)
  have b: "?t = cdiv 1782856807500000000 1000000000" by (simp add: cdiv_def)
  have c: "july_mktime (july_localtime ?t) = ?t" by (simp add: l july_mktime_def)
  have d: "july_mktime (m\<lparr>tm_isdst := 0\<rparr>) = july_mktime m + 3600" if "tm_isdst m = 1" for m
    using that by (simp add: july_mktime_def)
  have e: "tm_isdst (july_localtime ?t) \<in> {0, 1}" by (simp add: l)
  show ?thesis using times_read_back [where localtime = july_localtime and t = ?t and mktime = july_mktime and other = "\<lambda>_. july_localtime 0",
        OF a b c d e] unfolding l by simp
qed

end
