(* ===== verification/Redis_Pool.thy ===== *)
theory Redis_Pool
  imports Conn_Pool
begin

text \<open>
  \<open>RedisConnectionPool.cpp\<close> statement by statement. \<open>Conn_Pool\<close> treats both pools as one with a back end;
  here the Redis class is translated on its own, with what only it has: connections owned by
  \<open>std::unique_ptr\<close>, so that assigning or resetting one destroys the connection it held, client
  calls that report by exceptions, guards with pointers that are moved, and loops over the
  entries themselves. The property states that every operation does to the pool what the
  common one does at the Redis back end, so that all facts proved there are facts of this class.
\<close>

section \<open>The client\<close>

text \<open>
  redis-plus-plus as far as the class calls it: the constructor of \<open>sw::redis::Redis\<close>, which gives
  no connection when it throws, \<open>ping\<close>, which is true when it does not throw, and the destructor.
\<close>

record 'w redis_plus_plus =
  rc_Redis :: "string \<Rightarrow> 'w \<Rightarrow> conn option \<times> 'w"
  rc_ping :: "conn \<Rightarrow> 'w \<Rightarrow> bool \<times> 'w"
  rc_destroy :: "conn \<Rightarrow> 'w \<Rightarrow> 'w"

type_synonym 'w redis_state = "(string, 'w) pw"

definition redis_error :: "string pool \<Rightarrow> string pool" where
  "redis_error p = p_bump (\<lambda>m. m\<lparr>redis_errors := redis_errors m + 1\<rparr>) p"

text \<open>A pointer that goes out of scope, and \<open>entry.conn = c\<close>.\<close>

definition unique_drop :: "'w redis_plus_plus \<Rightarrow> conn option \<Rightarrow> 'w \<Rightarrow> 'w" where
  "unique_drop R c w = (case c of None \<Rightarrow> w | Some c \<Rightarrow> rc_destroy R c w)"

definition assign_conn :: "'w redis_plus_plus \<Rightarrow> conn option \<Rightarrow> Entry \<Rightarrow> 'w \<Rightarrow> Entry \<times> 'w" where
  "assign_conn R c entry w = (entry\<lparr>e_conn := c\<rparr>, unique_drop R (e_conn entry) w)"

text \<open>\<open>for (auto &entry : entries_)\<close>: the body takes an entry and the rest of the state.\<close>

fun each_entry :: "(Entry \<Rightarrow> 's \<Rightarrow> Entry \<times> 's) \<Rightarrow> Entry list \<Rightarrow> 's \<Rightarrow> Entry list \<times> 's" where
  "each_entry body [] s = ([], s)"
| "each_entry body (entry # es) s =
     (case body entry s of (entry, s) \<Rightarrow> (case each_entry body es s of (es, s) \<Rightarrow> (entry # es, s)))"

section \<open>The pool\<close>

definition RedisConnectionPool_new ::
  "string \<Rightarrow> int \<Rightarrow> int \<Rightarrow> int \<Rightarrow> int \<Rightarrow> int \<Rightarrow> int \<Rightarrow> ManagerMetrics option \<Rightarrow> string pool" where
  "RedisConnectionPool_new uri mn mx connectTo readTo healthCheck ttl metrics =
     (let mn = max 0 mn
      in \<lparr>p_cfg = uri, minSize = mn, maxSize = max mn mx, connectTimeout = connectTo, readTimeout = readTo,
          healthCheckInterval = healthCheck, idleTtl = ttl, p_metrics = metrics, entries = [], p_running = False\<rparr>)"

definition redis_connect :: "'w redis_plus_plus \<Rightarrow> 'w redis_state \<Rightarrow> conn option \<times> 'w redis_state" where
  "redis_connect R s =
     (case s of (p, w) \<Rightarrow>
        (case rc_Redis R (redis_uri_of p) w of
           (None, w) \<Rightarrow> (None, redis_error p, w)
         | (Some c, w) \<Rightarrow>
             (case rc_ping R c w of
                (True, w) \<Rightarrow> (Some c, p_bump (\<lambda>m. m\<lparr>pool_reconnects := pool_reconnects m + 1\<rparr>) p, w)
              | (False, w) \<Rightarrow> (None, redis_error p, rc_destroy R c w))))"

text \<open>The loop of \<open>start\<close>, \<open>n\<close> times.\<close>

fun redis_fill :: "'w redis_plus_plus \<Rightarrow> int \<Rightarrow> nat \<Rightarrow> 'w redis_state \<Rightarrow> 'w redis_state" where
  "redis_fill R now 0 s = s"
| "redis_fill R now (Suc n) s =
     (case redis_connect R s of (c, p, w) \<Rightarrow>
        (let entry = \<lparr>e_conn = c, inUse = False, healthy = (c \<noteq> None), failures = 0, lastUsed = now\<rparr>
         in redis_fill R now n (p\<lparr>entries := entries p @ [entry]\<rparr>, w)))"

definition redis_start :: "'w redis_plus_plus \<Rightarrow> int \<Rightarrow> 'w redis_state \<Rightarrow> bool \<times> 'w redis_state" where
  "redis_start R now s =
     (if p_running (fst s) then (True, s)
      else (True, redis_fill R now (nat (minSize (fst s))) ((fst s)\<lparr>p_running := True\<rparr>, snd s)))"

text \<open>\<open>entries_.clear ()\<close> destroys the connections the entries own.\<close>

definition redis_stop :: "'w redis_plus_plus \<Rightarrow> 'w redis_state \<Rightarrow> 'w redis_state" where
  "redis_stop R s =
     (if \<not> p_running (fst s) then s
      else ((fst s)\<lparr>p_running := False, entries := []\<rparr>, fold (\<lambda>entry. unique_drop R (e_conn entry)) (entries (fst s)) (snd s)))"

definition redis_closeEntry :: "'w redis_plus_plus \<Rightarrow> Entry \<Rightarrow> 'w \<Rightarrow> Entry \<times> 'w" where
  "redis_closeEntry R entry w =
     (case assign_conn R None entry w of (entry, w) \<Rightarrow> (entry\<lparr>healthy := False, inUse := False\<rparr>, w))"

text \<open>\<open>entry.conn = connect (); entry.healthy = entry.conn != nullptr;\<close>\<close>

definition redis_renew :: "'w redis_plus_plus \<Rightarrow> Entry \<Rightarrow> 'w redis_state \<Rightarrow> Entry \<times> 'w redis_state" where
  "redis_renew R entry s =
     (case redis_connect R s of (c, p, w) \<Rightarrow>
        (case assign_conn R c entry w of (entry, w) \<Rightarrow> (entry\<lparr>healthy := (e_conn entry \<noteq> None)\<rparr>, p, w)))"

definition redis_ensureHealthy :: "'w redis_plus_plus \<Rightarrow> nat \<Rightarrow> 'w redis_state \<Rightarrow> bool \<times> 'w redis_state" where
  "redis_ensureHealthy R index s =
     (let entry = entries (fst s) ! index
      in case e_conn entry of
           None \<Rightarrow> (case redis_renew R entry s of (entry, p, w) \<Rightarrow> (healthy entry, set_entry index entry p, w))
         | Some c \<Rightarrow>
             (case rc_ping R c (snd s) of
                (True, w) \<Rightarrow> (True, set_entry index (entry\<lparr>healthy := True, failures := 0\<rparr>) (fst s), w)
              | (False, w) \<Rightarrow>
                  (case redis_closeEntry R entry w of (entry, w) \<Rightarrow>
                     (case redis_renew R entry (redis_error (fst s), w) of (entry, p, w) \<Rightarrow>
                        (healthy entry, set_entry index entry p, w)))))"

definition redis_release :: "int \<Rightarrow> nat \<Rightarrow> bool \<Rightarrow> string pool \<Rightarrow> string pool" where
  "redis_release now index alive p =
     (if length (entries p) \<le> index then p
      else let entry = (entries p ! index)\<lparr>inUse := False, lastUsed := now\<rparr>
           in if \<not> alive
              then redis_error (set_entry index (entry\<lparr>healthy := False, failures := failures entry + 1\<rparr>) p)
              else set_entry index entry p)"

fun redis_available :: "Entry list \<Rightarrow> nat" where
  "redis_available [] = 0"
| "redis_available (entry # es) =
     (if \<not> inUse entry \<and> healthy entry \<and> e_conn entry \<noteq> None then Suc (redis_available es) else redis_available es)"

definition redis_availableCount :: "string pool \<Rightarrow> nat" where
  "redis_availableCount p = redis_available (entries p)"

section \<open>Guards\<close>

record redis_Guard =
  rg_pool :: bool
  rg_index :: nat
  rg_conn :: "conn option"
  rg_healthy :: bool

definition Guard_empty :: redis_Guard where
  "Guard_empty = \<lparr>rg_pool = False, rg_index = 0, rg_conn = None, rg_healthy = True\<rparr>"

definition Guard_new :: "nat \<Rightarrow> conn option \<Rightarrow> redis_Guard" where
  "Guard_new index c = \<lparr>rg_pool = True, rg_index = index, rg_conn = c, rg_healthy = True\<rparr>"

text \<open>The new guard and what is left of the other one.\<close>

definition Guard_move :: "redis_Guard \<Rightarrow> redis_Guard \<times> redis_Guard" where
  "Guard_move other =
     (\<lparr>rg_pool = rg_pool other, rg_index = rg_index other, rg_conn = rg_conn other, rg_healthy = rg_healthy other\<rparr>,
      other\<lparr>rg_pool := False, rg_conn := None\<rparr>)"

definition Guard_markUnhealthy :: "redis_Guard \<Rightarrow> redis_Guard" where
  "Guard_markUnhealthy g = g\<lparr>rg_healthy := False\<rparr>"

definition Guard_release :: "int \<Rightarrow> redis_Guard \<Rightarrow> string pool \<Rightarrow> redis_Guard \<times> string pool" where
  "Guard_release now g p =
     (g\<lparr>rg_pool := False, rg_conn := None\<rparr>,
      if rg_pool g \<and> rg_conn g \<noteq> None then redis_release now (rg_index g) (rg_healthy g) p else p)"

text \<open>\<open>this\<close> and \<open>other\<close> after the assignment of another object; that of the same object changes nothing.\<close>

definition Guard_assign :: "int \<Rightarrow> redis_Guard \<Rightarrow> redis_Guard \<Rightarrow> string pool \<Rightarrow> (redis_Guard \<times> redis_Guard) \<times> string pool" where
  "Guard_assign now this other p =
     (case Guard_release now this p of (this, p) \<Rightarrow>
        ((this\<lparr>rg_pool := rg_pool other, rg_index := rg_index other, rg_conn := rg_conn other, rg_healthy := rg_healthy other\<rparr>,
          other\<lparr>rg_pool := False, rg_conn := None\<rparr>), p))"

definition Guard_destroy :: "int \<Rightarrow> redis_Guard \<Rightarrow> string pool \<Rightarrow> string pool" where
  "Guard_destroy now g p = snd (Guard_release now g p)"

section \<open>Taking a connection\<close>

text \<open>The loop over the indices: \<open>None\<close> when it ends without a return.\<close>

fun redis_scan :: "'w redis_plus_plus \<Rightarrow> nat list \<Rightarrow> 'w redis_state \<Rightarrow> redis_Guard option \<times> 'w redis_state" where
  "redis_scan R [] s = (None, s)"
| "redis_scan R (i # is) s =
     (if inUse (entries (fst s) ! i) then redis_scan R is s
      else case (if healthy (entries (fst s) ! i) then (True, s) else redis_ensureHealthy R i s) of
             (False, s) \<Rightarrow> redis_scan R is s
           | (True, s) \<Rightarrow>
               (let entry = (entries (fst s) ! i)\<lparr>inUse := True\<rparr>
                in (Some (Guard_new i (e_conn entry)), set_entry i entry (fst s), snd s)))"

definition redis_grow :: "'w redis_plus_plus \<Rightarrow> int \<Rightarrow> 'w redis_state \<Rightarrow> redis_Guard option \<times> 'w redis_state" where
  "redis_grow R now s =
     (if int (length (entries (fst s))) < maxSize (fst s)
      then case redis_connect R s of (c, p, w) \<Rightarrow>
        (let alive = (c \<noteq> None);
             entry = \<lparr>e_conn = c, inUse = alive, healthy = alive, failures = 0, lastUsed = now\<rparr>;
             p = p\<lparr>entries := entries p @ [entry]\<rparr>; index = length (entries p) - 1
         in (if healthy (entries p ! index) then Some (Guard_new index (e_conn (entries p ! index))) else None, p, w))
      else (None, s))"

text \<open>As in \<open>Conn_Pool.acquire\<close>, \<open>wakeups\<close> is what the other threads do during each wait; after the last it times out.\<close>

fun redis_acquire ::
  "'w redis_plus_plus \<Rightarrow> int \<Rightarrow> ('w redis_state \<Rightarrow> 'w redis_state) list \<Rightarrow> 'w redis_state \<Rightarrow> redis_Guard \<times> 'w redis_state" where
  "redis_acquire R now wakeups s =
     (if \<not> p_running (fst s) then (Guard_empty, s)
      else case redis_scan R [0..<length (entries (fst s))] s of
        (Some g, s) \<Rightarrow> (g, s)
      | (None, s) \<Rightarrow>
          (case redis_grow R now s of
             (Some g, s) \<Rightarrow> (g, s)
           | (None, s) \<Rightarrow>
               (case wakeups of
                  [] \<Rightarrow> (Guard_empty, p_bump (\<lambda>m. m\<lparr>pool_timeouts := pool_timeouts m + 1\<rparr>) (fst s), snd s)
                | f # fs \<Rightarrow> redis_acquire R now fs (f s))))"

declare redis_acquire.simps [simp del]

section \<open>The health loop\<close>

definition redis_check_entry :: "'w redis_plus_plus \<Rightarrow> int \<Rightarrow> Entry \<Rightarrow> 'w redis_state \<Rightarrow> Entry \<times> 'w redis_state" where
  "redis_check_entry R now entry s =
     (if inUse entry then (entry, s)
      else case e_conn entry of
        None \<Rightarrow> (case redis_renew R entry s of (entry, s) \<Rightarrow> (entry\<lparr>lastUsed := now\<rparr>, s))
      | Some c \<Rightarrow>
          (case rc_ping R c (snd s) of
             (True, w) \<Rightarrow> (entry\<lparr>healthy := True\<rparr>, fst s, w)
           | (False, w) \<Rightarrow> (case redis_closeEntry R entry w of (entry, w) \<Rightarrow> (entry, redis_error (fst s), w))))"

fun count_open :: "Entry list \<Rightarrow> int" where
  "count_open [] = 0"
| "count_open (entry # es) = (if e_conn entry \<noteq> None then count_open es + 1 else count_open es)"

fun redis_close_idle :: "'w redis_plus_plus \<Rightarrow> int \<Rightarrow> int \<Rightarrow> int \<Rightarrow> Entry list \<Rightarrow> int \<Rightarrow> 'w \<Rightarrow> Entry list \<times> 'w" where
  "redis_close_idle R now mn ttl [] openConnections w = ([], w)"
| "redis_close_idle R now mn ttl (entry # es) openConnections w =
     (if openConnections \<le> mn then (entry # es, w)
      else if \<not> inUse entry \<and> e_conn entry \<noteq> None \<and> ttl * 1000000000 < now - lastUsed entry
      then case redis_closeEntry R entry w of (entry, w) \<Rightarrow>
             (case redis_close_idle R now mn ttl es (openConnections - 1) w of (es, w) \<Rightarrow> (entry # es, w))
      else case redis_close_idle R now mn ttl es openConnections w of (es, w) \<Rightarrow> (entry # es, w))"

text \<open>One round after the sleep.\<close>

definition redis_healthLoop :: "'w redis_plus_plus \<Rightarrow> int \<Rightarrow> 'w redis_state \<Rightarrow> 'w redis_state loop_step" where
  "redis_healthLoop R now s =
     (if \<not> p_running (fst s) then Exit s
      else case each_entry (redis_check_entry R now) (entries (fst s)) s of (es, p, w) \<Rightarrow>
        (case redis_close_idle R now (minSize p) (idleTtl p) es (count_open es) w of (es, w) \<Rightarrow>
           Again (p\<lparr>entries := es\<rparr>, w)))"

section \<open>The class and the common pool\<close>

text \<open>The client the common pool is given.\<close>

definition redis_client_of :: "'w redis_plus_plus \<Rightarrow> (string, 'w) client" where
  "redis_client_of R =
     \<lparr>cl_connect = (\<lambda>uri w. case rc_Redis R uri w of
          (None, w) \<Rightarrow> (ConnectFailed, w)
        | (Some c, w) \<Rightarrow> (case rc_ping R c w of (True, w) \<Rightarrow> (Connected c, w) | (False, w) \<Rightarrow> (ConnectFailed, rc_destroy R c w))),
      cl_ping = rc_ping R, cl_errno = (\<lambda>_ _. False), cl_close = rc_destroy R\<rparr>"

abbreviation the_backend :: "'w redis_plus_plus \<Rightarrow> (string, 'w) backend" where
  "the_backend R \<equiv> redis_backend (redis_client_of R)"

lemma the_backend_simps [simp]:
  "b_ping (the_backend R) = rc_ping R" "b_close (the_backend R) = rc_destroy R" "b_errno (the_backend R) c w = False"
  "p_bump (b_error (the_backend R)) p = redis_error p"
  by (simp_all add: redis_backend_def redis_client_of_def redis_error_def)

lemma redis_error_simps [simp]:
  "entries (redis_error p) = entries p" "redis_error (p\<lparr>entries := es\<rparr>) = (redis_error p)\<lparr>entries := es\<rparr>"
  "minSize (redis_error p) = minSize p" "maxSize (redis_error p) = maxSize p" "idleTtl (redis_error p) = idleTtl p"
  by (simp_all add: redis_error_def p_bump_def)

lemma redis_connect_eq: "redis_connect R s = connect (the_backend R) s"
  by (auto simp: redis_connect_def connect_def redis_backend_def redis_client_of_def redis_error_def
      split: prod.split option.split bool.split)

text \<open>Connecting looks at the settings only.\<close>

lemma connect_local:
  "connect (the_backend R) (p\<lparr>entries := es\<rparr>, w) = (case connect (the_backend R) (p, w) of (c, p', w') \<Rightarrow> (c, p'\<lparr>entries := es\<rparr>, w'))"
  by (auto simp: connect_def redis_backend_def redis_uri_of_def p_bump_def split: prod.split connect_result.split)

lemma connect_entries: "connect (the_backend R) s = (c, p', w') \<Longrightarrow> entries p' = entries (fst s)"
  by (auto simp: connect_def split: prod.splits connect_result.splits)

lemma redis_fill_eq: "redis_fill R now n s = (add_idle (the_backend R) now ^^ n) s"
  by (induction n arbitrary: s)
    (auto simp: redis_connect_eq add_idle_def new_entry_def funpow_swap1 Let_def split: prod.split)

lemma redis_start_eq: "redis_start R now s = (True, pool_start (the_backend R) now s)"
  by (simp add: redis_start_def pool_start_def redis_fill_eq)

text \<open>A loop over the indices whose body touches its own entry only is the loop over the entries.\<close>

lemma upt_next: "[length xs..<length xs + length (y # ys)] = length xs # [length (xs @ [e])..<length (xs @ [e]) + length ys]"
  by (simp add: upt_conv_Cons del: upt_Suc)

lemma fold_each:
  assumes "\<And>i es p w. i < length es \<Longrightarrow>
      f i (p\<lparr>entries := es\<rparr>, w) = (case g (es ! i) (p, w) of (e, p', w') \<Rightarrow> (p'\<lparr>entries := es[i := e]\<rparr>, w'))"
  shows "fold f [length xs..<length xs + length ys] (p\<lparr>entries := xs @ ys\<rparr>, w)
    = (case each_entry g ys (p, w) of (ys', p', w') \<Rightarrow> (p'\<lparr>entries := xs @ ys'\<rparr>, w'))"
proof (induction ys arbitrary: xs p w)
  case (Cons y ys)
  obtain e p' w' where g: "g y (p, w) = (e, p', w')" by (metis prod_cases3)
  have "f (length xs) (p\<lparr>entries := xs @ y # ys\<rparr>, w) = (p'\<lparr>entries := (xs @ [e]) @ ys\<rparr>, w')"
    using assms [of "length xs" "xs @ y # ys" p w] g by simp
  then show ?case using Cons [of "xs @ [e]" p' w'] g unfolding upt_next [of xs y ys e] by (simp split: prod.split)
qed simp

lemma closeEntry_local:
  "i < length es \<Longrightarrow> closeEntry (the_backend R) i (p\<lparr>entries := es\<rparr>, w)
    = (case redis_closeEntry R (es ! i) w of (e, w') \<Rightarrow> (p\<lparr>entries := es[i := e]\<rparr>, w'))"
  by (auto simp: closeEntry_def redis_closeEntry_def assign_conn_def unique_drop_def set_entry_def Let_def split: option.split)

lemma renew_local:
  assumes "i < length es" "e_conn (es ! i) = None"
  shows "reconnect (the_backend R) i (p\<lparr>entries := es\<rparr>, w)
    = (case redis_renew R (es ! i) (p, w) of (e, p', w') \<Rightarrow> (p'\<lparr>entries := es[i := e]\<rparr>, w'))"
  using assms by (auto simp: reconnect_def redis_renew_def redis_connect_eq connect_local assign_conn_def unique_drop_def set_entry_def
      split: prod.split)

lemma renew_shape: "redis_renew R e s = (e', p', w') \<Longrightarrow> entries p' = entries (fst s) \<and> (healthy e' \<longleftrightarrow> e_conn e' \<noteq> None)"
  by (auto simp: redis_renew_def redis_connect_eq assign_conn_def dest: connect_entries split: prod.splits)

lemma check_local:
  "i < length es \<Longrightarrow> redis_check (the_backend R) now i (p\<lparr>entries := es\<rparr>, w)
    = (case redis_check_entry R now (es ! i) (p, w) of (e, p', w') \<Rightarrow> (p'\<lparr>entries := es[i := e]\<rparr>, w'))"
  by (auto simp: redis_check_def redis_check_entry_def Let_def renew_local closeEntry_local set_entry_def
      split: option.split prod.split bool.split)

lemma redis_stop_world:
  "fold (closeEntry (the_backend R)) [length xs..<length xs + length ys] (p\<lparr>entries := xs @ ys\<rparr>, w)
     = (p\<lparr>entries := xs @ map (\<lambda>e. e\<lparr>e_conn := None, healthy := False, inUse := False\<rparr>) ys\<rparr>,
        fold (\<lambda>e. unique_drop R (e_conn e)) ys w)"
proof (induction ys arbitrary: xs w)
  case (Cons y ys)
  have "closeEntry (the_backend R) (length xs) (p\<lparr>entries := xs @ y # ys\<rparr>, w)
      = (p\<lparr>entries := (xs @ [y\<lparr>e_conn := None, healthy := False, inUse := False\<rparr>]) @ ys\<rparr>, unique_drop R (e_conn y) w)"
    by (simp add: closeEntry_local redis_closeEntry_def assign_conn_def)
  then show ?case
    using Cons [of "xs @ [y\<lparr>e_conn := None, healthy := False, inUse := False\<rparr>]" "unique_drop R (e_conn y) w"]
    unfolding upt_next [of xs y ys "y\<lparr>e_conn := None, healthy := False, inUse := False\<rparr>"] by simp
qed simp

lemma redis_stop_eq: "redis_stop R s = pool_stop (the_backend R) s"
proof (cases s)
  case (Pair p w)
  have "fold (closeEntry (the_backend R)) [0..<length (entries p)] (p\<lparr>p_running := False\<rparr>, w)
      = ((p\<lparr>p_running := False\<rparr>)\<lparr>entries := map (\<lambda>e. e\<lparr>e_conn := None, healthy := False, inUse := False\<rparr>) (entries p)\<rparr>,
         fold (\<lambda>e. unique_drop R (e_conn e)) (entries p) w)"
    using redis_stop_world [of R "[]" "entries p" "p\<lparr>p_running := False\<rparr>" w] by simp
  then show ?thesis by (simp add: Pair redis_stop_def pool_stop_def Let_def)
qed

lemma redis_release_eq: "(redis_release now i alive p, w) = pool_release (the_backend R) now i alive (p, w)"
  by (auto simp: redis_release_def pool_release_def Let_def split: option.split)

lemma redis_available_eq: "redis_availableCount p = availableCount p"
proof -
  have "redis_available es = length (filter (\<lambda>e. \<not> inUse e \<and> healthy e \<and> e_conn e \<noteq> None) es)" for es
    by (induction es) auto
  then show ?thesis by (simp add: redis_availableCount_def availableCount_def)
qed

lemma count_open_eq: "count_open es = int (length (filter (\<lambda>e. e_conn e \<noteq> None) es))"
  by (induction es) auto

lemma close_idle_local:
  "close_idle (the_backend R) now [length xs..<length xs + length ys] n (p\<lparr>entries := xs @ ys\<rparr>, w)
    = (case redis_close_idle R now (minSize p) (idleTtl p) ys n w of (ys', w') \<Rightarrow> (p\<lparr>entries := xs @ ys'\<rparr>, w'))"
proof (induction ys arbitrary: xs n w)
  case (Cons y ys)
  obtain e w' where c: "redis_closeEntry R y w = (e, w')" by fastforce
  have "closeEntry (the_backend R) (length xs) (p\<lparr>entries := xs @ y # ys\<rparr>, w) = (p\<lparr>entries := (xs @ [e]) @ ys\<rparr>, w')"
    by (simp add: closeEntry_local c)
  then show ?case using Cons [of "xs @ [e]" "n - 1" w'] Cons [of "xs @ [y]" n w] c
    unfolding upt_next [of xs y ys y] by (auto simp: Let_def simp del: upt_Suc split: prod.split)
qed simp

lemma redis_healthLoop_eq: "redis_healthLoop R now s = healthLoop redis_check (the_backend R) now s"
proof (cases s)
  case (Pair p w)
  obtain es p' w' where e: "each_entry (redis_check_entry R now) (entries p) (p, w) = (es, p', w')" by (metis prod_cases3)
  have l: "length es = length (entries p)"
  proof -
    have "length (fst (each_entry g xs s)) = length xs" for g :: "Entry \<Rightarrow> 'a redis_state \<Rightarrow> _" and xs s
      by (induction g xs s rule: each_entry.induct) (auto split: prod.split)
    then show ?thesis using e by (metis fst_conv)
  qed
  have "fold (redis_check (the_backend R) now) [0..<length (entries p)] (p, w) = (p'\<lparr>entries := es\<rparr>, w')"
    using fold_each [where f = "redis_check (the_backend R) now" and g = "redis_check_entry R now", OF check_local, of "[]" "entries p" p w] e
    by simp
  moreover note close_idle_local [of R now "[]" es "count_open es" p' w']
  ultimately show ?thesis using e l
    by (auto simp: Pair redis_healthLoop_def healthLoop_def Let_def open_count_def count_open_eq split: prod.split)
qed

subsection \<open>Taking a connection\<close>

text \<open>
  A healthy entry has a connection. Without it the class would hand out a guard without a
  connection and never give the entry back; no operation of the class leaves such an entry.
\<close>

definition conn_backed :: "'w redis_state \<Rightarrow> bool" where
  "conn_backed s \<longleftrightarrow> (\<forall>e \<in> set (entries (fst s)). healthy e \<longrightarrow> e_conn e \<noteq> None)"

definition guard_of :: "Guard \<Rightarrow> redis_Guard" where
  "guard_of g = \<lparr>rg_pool = True, rg_index = g_index g, rg_conn = Some (g_conn g), rg_healthy = g_healthy g\<rparr>"

lemma conn_backed_set:
  "conn_backed (p, w) \<Longrightarrow> (healthy e \<longrightarrow> e_conn e \<noteq> None) \<Longrightarrow> conn_backed (p\<lparr>entries := (entries p)[i := e]\<rparr>, w')"
  by (auto simp: conn_backed_def dest!: set_update_subset_insert [THEN subsetD])

lemma redis_ensureHealthy_eq:
  assumes "i < length (entries (fst s))"
  shows "redis_ensureHealthy R i s = ensureHealthy (the_backend R) i s"
proof -
  obtain p w where s: "s = (p, w)" by (cases s)
  let ?e = "entries p ! i"
  have i: "i < length (entries p)" using assms s by simp
  show ?thesis
  proof (cases "e_conn ?e")
    case None
    obtain e p' w' where r: "redis_renew R ?e (p, w) = (e, p', w')" by (metis prod_cases3)
    then have "entries p' = entries p" by (auto dest: renew_shape)
    then show ?thesis using renew_local [OF i None, of R p w] r None i
      by (simp add: redis_ensureHealthy_def ensureHealthy_def s set_entry_def Let_def)
  next
    case (Some c)
    show ?thesis
    proof (cases "fst (rc_ping R c w)")
      case True
      then show ?thesis using Some by (auto simp: redis_ensureHealthy_def ensureHealthy_def s Let_def split: prod.split bool.split)
    next
      case False
      obtain w1 where pg: "rc_ping R c w = (False, w1)" using False by (cases "rc_ping R c w") auto
      obtain e1 w2 where cl: "redis_closeEntry R ?e w1 = (e1, w2)" by fastforce
      then have e1: "e_conn e1 = None" by (auto simp: redis_closeEntry_def assign_conn_def)
      let ?p1 = "redis_error p" and ?es = "(entries p)[i := e1]"
      obtain e p' w' where r: "redis_renew R e1 (?p1, w2) = (e, p', w')" by (metis prod_cases3)
      then have en: "entries p' = entries p" by (auto dest: renew_shape)
      have same: "?p1\<lparr>entries := entries p\<rparr> = ?p1" by (cases p) (simp add: redis_error_def p_bump_def)
      have "closeEntry (the_backend R) i (?p1, w1) = (?p1\<lparr>entries := ?es\<rparr>, w2)"
        using closeEntry_local [of i "entries p" R ?p1 w1] i cl same by simp
      moreover have "reconnect (the_backend R) i (?p1\<lparr>entries := ?es\<rparr>, w2) = (p'\<lparr>entries := (entries p)[i := e]\<rparr>, w')"
        using renew_local [of i ?es R ?p1 w2] i e1 r by simp
      ultimately show ?thesis using pg cl r Some i en
        by (simp add: redis_ensureHealthy_def ensureHealthy_def s set_entry_def Let_def)
    qed
  qed
qed

lemma ensureHealthy_backed:
  assumes "conn_backed s" "i < length (entries (fst s))" "redis_ensureHealthy R i s = (b, s')"
  shows "conn_backed s' \<and> length (entries (fst s')) = length (entries (fst s)) \<and> (b \<longrightarrow> e_conn (entries (fst s') ! i) \<noteq> None)"
proof -
  have "\<exists>e. entries (fst s') = (entries (fst s))[i := e] \<and> (healthy e \<longrightarrow> e_conn e \<noteq> None) \<and> (b \<longrightarrow> e_conn e \<noteq> None)"
    using assms(3)
    by (auto simp: redis_ensureHealthy_def set_entry_def Let_def dest!: renew_shape split: option.splits prod.splits bool.splits)
  then show ?thesis using assms(1,2) by (auto simp: conn_backed_def dest!: set_update_subset_insert [THEN subsetD])
qed

lemma redis_scan_eq:
  assumes "conn_backed s" "\<forall>i \<in> set is. i < length (entries (fst s))"
  shows "redis_scan R is s = map_prod (map_option guard_of) id (scan (the_backend R) is s)
     \<and> conn_backed (snd (scan (the_backend R) is s))"
  using assms
proof (induction "is" arbitrary: s)
  case (Cons i "is")
  have i: "i < length (entries (fst s))" using Cons.prems by simp
  let ?e = "entries (fst s) ! i"
  have taken: "(Some (Guard_new i (e_conn (entries (fst t) ! i))), set_entry i ((entries (fst t) ! i)\<lparr>inUse := True\<rparr>) (fst t), snd t)
        = map_prod (map_option guard_of) id (lend i t) \<and> conn_backed (snd (lend i t))"
    if "conn_backed t" "e_conn (entries (fst t) ! i) \<noteq> None" for t
    using that conn_backed_set [of "fst t" "snd t" "(entries (fst t) ! i)\<lparr>inUse := True\<rparr>" i "snd t"]
    by (auto simp: lend_def Guard_new_def guard_of_def set_entry_def Let_def)
  obtain b t where t: "redis_ensureHealthy R i s = (b, t)" by (cases "redis_ensureHealthy R i s")
  note bk = ensureHealthy_backed [OF Cons.prems(1) i t] and eq = redis_ensureHealthy_eq [OF i, of R, unfolded t]
  have "healthy ?e \<Longrightarrow> e_conn ?e \<noteq> None" using Cons.prems(1) i by (auto simp: conn_backed_def)
  then consider "inUse ?e" | "\<not> inUse ?e" "healthy ?e" "e_conn ?e \<noteq> None" | "\<not> inUse ?e" "\<not> healthy ?e" by blast
  then show ?case
  proof cases
    case 1
    then show ?thesis using Cons.IH [of s] Cons.prems by simp
  next
    case 2
    then show ?thesis using taken [OF Cons.prems(1) 2(3)] by (simp add: Let_def id_def)
  next
    case 3
    show ?thesis
    proof (cases b)
      case True
      then show ?thesis using 3 t eq [symmetric] taken [of t] bk by (simp add: Let_def id_def)
    next
      case False
      then show ?thesis using 3 t eq [symmetric] Cons.IH [of t] bk Cons.prems(2) by simp
    qed
  qed
qed simp

lemma redis_grow_eq:
  "redis_grow R now s = map_prod (map_option guard_of) id (grow (the_backend R) now s)
     \<and> (conn_backed s \<longrightarrow> conn_backed (snd (grow (the_backend R) now s)))"
proof (cases "connect (the_backend R) s")
  case (fields c p w)
  have "entries p = entries (fst s)" by (rule connect_entries [OF fields])
  then show ?thesis
    by (cases c) (auto simp: redis_grow_def grow_def redis_connect_eq fields new_entry_def Guard_new_def guard_of_def conn_backed_def
        nth_append Let_def)
qed

definition guard_given :: "Guard option \<Rightarrow> redis_Guard" where
  "guard_given g = (case g of None \<Rightarrow> Guard_empty | Some g \<Rightarrow> guard_of g)"

lemma guard_given_simps [simp]: "guard_given None = Guard_empty" "guard_given (Some g) = guard_of g"
  by (simp_all add: guard_given_def)

text \<open>The body of the loop up to the wait.\<close>

lemma redis_attempt_eq:
  assumes "conn_backed s" "attempt (the_backend R) now s = (g, t)"
  shows "conn_backed t"
    and "redis_acquire R now wakeups s =
      (if \<not> p_running (fst s) then (Guard_empty, s)
       else case g of Some g \<Rightarrow> (guard_of g, t)
         | None \<Rightarrow> (case wakeups of
              [] \<Rightarrow> (Guard_empty, p_bump (\<lambda>m. m\<lparr>pool_timeouts := pool_timeouts m + 1\<rparr>) (fst t), snd t)
            | f # fs \<Rightarrow> redis_acquire R now fs (f t)))"
proof -
  obtain g1 u where u: "scan (the_backend R) [0..<length (entries (fst s))] s = (g1, u)"
    by (cases "scan (the_backend R) [0..<length (entries (fst s))] s")
  have sc: "redis_scan R [0..<length (entries (fst s))] s = (map_option guard_of g1, u)" "conn_backed u"
    using redis_scan_eq [OF assms(1), of "[0..<length (entries (fst s))]" R] u by simp_all
  obtain g2 v where v: "grow (the_backend R) now u = (g2, v)" by (cases "grow (the_backend R) now u")
  have gr: "redis_grow R now u = (map_option guard_of g2, v)" "conn_backed v"
    using redis_grow_eq [of R now u] sc(2) v by simp_all
  show "conn_backed t" using assms(2) u v sc(2) gr(2) by (auto simp: attempt_def split: option.splits)
  show "redis_acquire R now wakeups s =
      (if \<not> p_running (fst s) then (Guard_empty, s)
       else case g of Some g \<Rightarrow> (guard_of g, t)
         | None \<Rightarrow> (case wakeups of
              [] \<Rightarrow> (Guard_empty, p_bump (\<lambda>m. m\<lparr>pool_timeouts := pool_timeouts m + 1\<rparr>) (fst t), snd t)
            | f # fs \<Rightarrow> redis_acquire R now fs (f t)))"
    using assms(2) u v sc(1) gr(1)
    by (auto simp: redis_acquire.simps [of R now wakeups s] attempt_def split: option.splits)
qed

lemma redis_acquire_eq:
  assumes "conn_backed s" "\<forall>f \<in> set wakeups. \<forall>t. conn_backed t \<longrightarrow> conn_backed (f t)"
  shows "redis_acquire R now wakeups s = map_prod guard_given id (acquire (the_backend R) now wakeups s)"
  using assms
proof (induction wakeups arbitrary: s)
  case Nil
  obtain g t where t: "attempt (the_backend R) now s = (g, t)" by (cases "attempt (the_backend R) now s")
  show ?case using redis_attempt_eq(2) [OF Nil.prems(1) t, of "[]"]
    by (cases g) (simp_all add: acquire.simps [of _ now "[]" s] t)
next
  case (Cons f fs)
  obtain g t where t: "attempt (the_backend R) now s = (g, t)" by (cases "attempt (the_backend R) now s")
  note eq = redis_attempt_eq [OF Cons.prems(1) t]
  then have "redis_acquire R now fs (f t) = map_prod guard_given id (acquire (the_backend R) now fs (f t))"
    using Cons.IH [of "f t"] Cons.prems(2) by (simp add: id_def)
  then show ?case using eq(2) [of "f # fs"]
    by (cases g) (simp_all add: acquire.simps [of _ now "f # fs" s] t id_def)
qed

lemma guard_destroy_eq: "(Guard_destroy now (guard_of g) p, w) = guard_release (the_backend R) now g (p, w)"
  by (simp add: Guard_destroy_def Guard_release_def guard_of_def guard_release_def redis_release_eq [symmetric])

text \<open>Moving a guard moves its claim.\<close>

lemma guard_moves:
  "case Guard_move g of (moved, left) \<Rightarrow> Guard_destroy now moved (Guard_destroy now left p) = Guard_destroy now g p"
  "case Guard_assign now g other p of ((this, left), p') \<Rightarrow>
     Guard_destroy now this (Guard_destroy now left p') = Guard_destroy now other (Guard_destroy now g p)"
  by (auto simp: Guard_move_def Guard_assign_def Guard_destroy_def Guard_release_def)

subsection \<open>The life of the class\<close>

text \<open>
  The operations of the class in any order, with any guards: those acquired, marked or not, and
  any others, at any time and any number of times.
\<close>

inductive redis_life :: "'w redis_plus_plus \<Rightarrow> 'w redis_state \<Rightarrow> 'w redis_state \<Rightarrow> bool" for R s0 where
  new: "redis_life R s0 s0"
| start: "redis_life R s0 s \<Longrightarrow> redis_life R s0 (snd (redis_start R now s))"
| take: "redis_life R s0 s \<Longrightarrow> redis_life R s0 (snd (redis_acquire R now [] s))"
| give: "redis_life R s0 s \<Longrightarrow> redis_life R s0 (Guard_destroy now g (fst s), snd s)"
| health: "redis_life R s0 s \<Longrightarrow> redis_healthLoop R now s = Again s' \<Longrightarrow> redis_life R s0 s'"
| stop: "redis_life R s0 s \<Longrightarrow> redis_life R s0 (redis_stop R s)"

lemma pool_ok_backed: "pool_ok opn s \<Longrightarrow> conn_backed s"
  by (auto simp: pool_ok_def entries_ok_def conn_backed_def in_set_conv_nth)

lemma guard_destroy_step:
  "pool_life redis_check (the_backend R) s0 s \<Longrightarrow> pool_life redis_check (the_backend R) s0 (Guard_destroy now g (fst s), snd s)"
proof (cases "rg_pool g \<and> rg_conn g \<noteq> None")
  case True
  then obtain c where "g = guard_of \<lparr>g_index = rg_index g, g_conn = c, g_healthy = rg_healthy g\<rparr>"
    by (cases g) (auto simp: guard_of_def)
  moreover assume "pool_life redis_check (the_backend R) s0 s"
  ultimately show ?thesis using pool_life.give guard_destroy_eq by (metis prod.collapse)
next
  case False
  moreover assume "pool_life redis_check (the_backend R) s0 s"
  ultimately show ?thesis by (auto simp: Guard_destroy_def Guard_release_def)
qed

text \<open>Every life of the class is one of the common pool.\<close>

lemma redis_life_simulates:
  assumes "redis_client (redis_client_of R) opn" "opn w = {}" "redis_life R (pool_new uri mn mx ct rt hc ttl m, w) s"
  shows "pool_life redis_check (the_backend R) (pool_new uri mn mx ct rt hc ttl m, w) s"
  using assms(3)
proof induction
  case (take s now)
  have "conn_backed s" using redis_client.redis_life [OF assms(1,2) take.IH] pool_ok_backed by blast
  then have "snd (redis_acquire R now [] s) = snd (acquire (the_backend R) now [] s)" using redis_acquire_eq [of s "[]" R now] by simp
  with take.IH show ?case by (metis pool_life.take prod.collapse)
next
  case (give s now g)
  show ?case by (rule guard_destroy_step [OF give.IH])
qed (auto simp: redis_start_eq redis_stop_eq redis_healthLoop_eq intro: pool_life.intros)

section \<open>Properties\<close>

text \<open>The simulated server of \<open>Conn_Pool\<close> behind the interface of the class.\<close>

definition sim_redis :: "(nat \<times> conn set \<times> bool) redis_plus_plus" where
  "sim_redis =
     \<lparr>rc_Redis = (\<lambda>uri (n, hs, up). if up then (Some n, (Suc n, insert n hs, up)) else (None, (n, hs, up))),
      rc_ping = (\<lambda>c (n, hs, up). (up \<and> c \<in> hs, (n, hs, up))), rc_destroy = (\<lambda>c (n, hs, up). (n, hs - {c}, up))\<rparr>"

interpretation sim_rc: redis_client "redis_client_of sim_redis" sim_open
  by unfold_locales (auto simp: redis_client_of_def sim_redis_def sim_open_def split: prod.splits if_splits)

text \<open>
  C17: The Redis class is the common pool at the Redis back end: starting, stopping, giving a
  connection back, counting and a round of the health loop do the same to the pool, the
  world and the counters, and \<open>acquire\<close> hands out the same connections, whatever the other
  threads do while it waits, as long as every healthy entry has a connection.
\<close>

theorem redis_class_equivalent:
  assumes "conn_backed s" "\<forall>f \<in> set wakeups. \<forall>t. conn_backed t \<longrightarrow> conn_backed (f t)"
  shows "redis_start R now s = (True, pool_start (the_backend R) now s)
    \<and> redis_stop R s = pool_stop (the_backend R) s
    \<and> redis_acquire R now wakeups s = map_prod guard_given id (acquire (the_backend R) now wakeups s)
    \<and> (Guard_destroy now (guard_of g) (fst s), snd s) = guard_release (the_backend R) now g s
    \<and> redis_healthLoop R now s = healthLoop redis_check (the_backend R) now s
    \<and> redis_availableCount (fst s) = availableCount (fst s)"
  using redis_acquire_eq [OF assms] guard_destroy_eq [of now g "fst s" "snd s" R]
  by (simp add: redis_start_eq redis_stop_eq redis_healthLoop_eq redis_available_eq)

theorem redis_class_equivalent_witness:
  "redis_acquire sim_redis 1 [] (pool_start (the_backend sim_redis) 0 demo_redis)
     = map_prod guard_given id (acquire (the_backend sim_redis) 1 [] (pool_start (the_backend sim_redis) 0 demo_redis))"
proof -
  have "conn_backed (pool_start (the_backend sim_redis) 0 demo_redis)"
    by (auto simp: conn_backed_def demo_redis_def pool_new_def pool_start_def add_idle_def new_entry_def
        split: prod.split dest!: connect_entries)
  from redis_class_equivalent [OF this, of "[]" sim_redis 1] show ?thesis by simp
qed



end
