(* ===== verification/Worker_Cpu.thy ===== *)
theory Worker_Cpu
  imports Kmod_Collectors Messages Text_Numbers "HOL-Library.Monad_Syntax"
begin

text \<open>
  The worker's monitors that read the kernel modules' memory (\<open>CpuStatMonitor\<close>,
  \<open>CpuSoftirqMonitor\<close>, \<open>CpuLoadMonitor\<close>). The memory mapped from a device is the list of
  entries of \<open>Kmod_Collectors\<close>, \<open>None\<close> when the device cannot be opened or mapped; the clock is
  an argument. The properties follow the figures from two updates of the module to the
  report, and bound them.
\<close>

section \<open>CPU usage\<close>

record CpuTotals =
  ct_user :: u64
  ct_nice :: u64
  ct_system :: u64
  ct_idle :: u64
  ct_iowait :: u64
  ct_irq :: u64
  ct_softirq :: u64
  ct_steal :: u64

definition zero_totals :: CpuTotals where
  "zero_totals = \<lparr>ct_user = 0, ct_nice = 0, ct_system = 0, ct_idle = 0, ct_iowait = 0, ct_irq = 0, ct_softirq = 0, ct_steal = 0\<rparr>"

text \<open>
  \<open>addKernelTotals\<close> and \<open>addCachedTotals\<close>: the cached entry has the fields of the kernel's,
  under other names.
\<close>

definition add_totals :: "CpuTotals \<Rightarrow> cpu_stat \<Rightarrow> CpuTotals" where
  "add_totals t e =
     \<lparr>ct_user = ct_user t + user e, ct_nice = ct_nice t + nice e, ct_system = ct_system t + system e,
      ct_idle = ct_idle t + idle e, ct_iowait = ct_iowait t + iowait e, ct_irq = ct_irq t + irq e,
      ct_softirq = ct_softirq t + softirq e, ct_steal = ct_steal t + steal e\<rparr>"

definition totalTime :: "CpuTotals \<Rightarrow> u64" where
  "totalTime t = ct_user t + ct_nice t + ct_system t + ct_idle t + ct_iowait t + ct_irq t + ct_softirq t + ct_steal t"

definition busyTime :: "CpuTotals \<Rightarrow> u64" where
  "busyTime t = ct_user t + ct_nice t + ct_system t + ct_irq t + ct_softirq t + ct_steal t"

text \<open>\<open>static_cast<float> ((double (cur) - double (old)) / totalDelta * 100.0)\<close>.\<close>

definition share :: "fp \<Rightarrow> u64 \<Rightarrow> u64 \<Rightarrow> fp" where
  "share totalDelta cur prev =
     to_f32 (fmul f64 (fdiv f64 (fsub f64 (f64_of_u64 cur) (f64_of_u64 prev)) totalDelta) (Fin 100))"

definition setCpuStatPercentages :: "CpuStat \<Rightarrow> CpuTotals \<Rightarrow> CpuTotals \<Rightarrow> CpuStat option" where
  "setCpuStatPercentages msg cur prev =
     (let totalDelta = fsub f64 (f64_of_u64 (totalTime cur)) (f64_of_u64 (totalTime prev))
      in if fle totalDelta (Fin 0) then None
         else Some (msg\<lparr>cs_cpu_percent := share totalDelta (busyTime cur) (busyTime prev),
                         cs_usr_percent := share totalDelta (ct_user cur) (ct_user prev),
                         cs_system_percent := share totalDelta (ct_system cur) (ct_system prev),
                         cs_nice_percent := share totalDelta (ct_nice cur) (ct_nice prev),
                         cs_idle_percent := share totalDelta (ct_idle cur) (ct_idle prev),
                         cs_io_wait_percent := share totalDelta (ct_iowait cur) (ct_iowait prev),
                         cs_irq_percent := share totalDelta (ct_irq cur) (ct_irq prev),
                         cs_soft_irq_percent := share totalDelta (ct_softirq cur) (ct_softirq prev)\<rparr>))"

text \<open>A message added under a name, and removed again when there are no percentages.\<close>

definition cpu_message :: "string \<Rightarrow> CpuTotals \<Rightarrow> CpuTotals \<Rightarrow> CpuStat list" where
  "cpu_message name cur prev =
     (case setCpuStatPercentages (default_CpuStat\<lparr>cs_cpu_name := name\<rparr>) cur prev of None \<Rightarrow> [] | Some msg \<Rightarrow> [msg])"

text \<open>The monitor is its map of the last samples; a pass over the entries carries the sums for \<open>all\<close>.\<close>

type_synonym CpuStatMonitor = "string \<rightharpoonup> cpu_stat"

record cpu_scan =
  cn_map :: CpuStatMonitor
  cn_out :: "CpuStat list"
  cn_allCurr :: CpuTotals
  cn_allOld :: CpuTotals
  cn_hasAggregateBase :: bool

definition cpu_step :: "cpu_stat \<Rightarrow> cpu_scan \<Rightarrow> cpu_scan" where
  "cpu_step e r =
     (let r = (case cn_map r (cpu_name e) of None \<Rightarrow> r
                | Some old \<Rightarrow>
                    r\<lparr>cn_out := cn_out r @ cpu_message (cpu_name e) (add_totals zero_totals e) (add_totals zero_totals old),
                      cn_allCurr := add_totals (cn_allCurr r) e, cn_allOld := add_totals (cn_allOld r) old,
                      cn_hasAggregateBase := True\<rparr>)
      in r\<lparr>cn_map := (cn_map r)(cpu_name e \<mapsto> e)\<rparr>)"

definition CpuStatMonitor_updateOnce :: "cpu_stat list option \<Rightarrow> MonitorInfo \<Rightarrow> CpuStatMonitor \<Rightarrow> MonitorInfo \<times> CpuStatMonitor" where
  "CpuStatMonitor_updateOnce addr info s =
     (case addr of None \<Rightarrow> (info, s)
      | Some stats \<Rightarrow>
          (let r = fold cpu_step (takeWhile (\<lambda>e. cpu_name e \<noteq> []) (take 128 stats))
                     \<lparr>cn_map = s, cn_out = [], cn_allCurr = zero_totals, cn_allOld = zero_totals, cn_hasAggregateBase = False\<rparr>;
               all = (if cn_hasAggregateBase r then cpu_message ''all'' (cn_allCurr r) (cn_allOld r) else [])
           in (info\<lparr>m_cpu_stat := m_cpu_stat info @ cn_out r @ all\<rparr>, cn_map r)))"

section \<open>Soft interrupts\<close>

record SoftIrqCache =
  sc_stat :: softirq_stat
  sc_timepoint :: int

type_synonym CpuSoftIrqMonitor = "string \<rightharpoonup> SoftIrqCache"

text \<open>
  A counter as a rate: the difference of the counters (modulo \<open>2 ^ 64\<close>, the cached one having
  been through \<open>int64_t\<close>) over the seconds, truncated; undefined when it does not fit.
\<close>

definition irq_rate :: "fp \<Rightarrow> u64 \<Rightarrow> u64 \<Rightarrow> fp option" where
  "irq_rate seconds cur prev = map_option f32_of_int (trunc_i64 (fdiv f64 (f64_of_u64 (cur - prev)) seconds))"

definition raw_irq :: "softirq_stat \<Rightarrow> SoftIrq" where
  "raw_irq e =
     \<lparr>si_cpu = sq_cpu_name e, si_hi = f32_of_u64 (sq_hi e), si_timer = f32_of_u64 (sq_timer e),
      si_net_tx = f32_of_u64 (sq_net_tx e), si_net_rx = f32_of_u64 (sq_net_rx e), si_block = f32_of_u64 (sq_block e),
      si_irq_poll = f32_of_u64 (sq_irq_poll e), si_tasklet = f32_of_u64 (sq_tasklet e), si_sched = f32_of_u64 (sq_sched e),
      si_hrtimer = f32_of_u64 (sq_hrtimer e), si_rcu = f32_of_u64 (sq_rcu e)\<rparr>"

definition irq_message :: "int \<Rightarrow> SoftIrqCache option \<Rightarrow> softirq_stat \<Rightarrow> SoftIrq option" where
  "irq_message now cached e =
     (case cached of None \<Rightarrow> Some (raw_irq e)
      | Some c \<Rightarrow>
          (let seconds = fdiv f64 (f64_of_int (cdiv (now - sc_timepoint c) 1000000)) (Fin 1000); p = sc_stat c
           in if flt (Fin 0) seconds
              then do {
                x_hi \<leftarrow> irq_rate seconds (sq_hi e) (sq_hi p);
                x_timer \<leftarrow> irq_rate seconds (sq_timer e) (sq_timer p);
                x_net_tx \<leftarrow> irq_rate seconds (sq_net_tx e) (sq_net_tx p);
                x_net_rx \<leftarrow> irq_rate seconds (sq_net_rx e) (sq_net_rx p);
                x_block \<leftarrow> irq_rate seconds (sq_block e) (sq_block p);
                x_irq_poll \<leftarrow> irq_rate seconds (sq_irq_poll e) (sq_irq_poll p);
                x_tasklet \<leftarrow> irq_rate seconds (sq_tasklet e) (sq_tasklet p);
                x_sched \<leftarrow> irq_rate seconds (sq_sched e) (sq_sched p);
                x_hrtimer \<leftarrow> irq_rate seconds (sq_hrtimer e) (sq_hrtimer p);
                x_rcu \<leftarrow> irq_rate seconds (sq_rcu e) (sq_rcu p);
                Some \<lparr>si_cpu = sq_cpu_name e, si_hi = x_hi, si_timer = x_timer, si_net_tx = x_net_tx, si_net_rx = x_net_rx,
                  si_block = x_block, si_irq_poll = x_irq_poll, si_tasklet = x_tasklet, si_sched = x_sched,
                  si_hrtimer = x_hrtimer, si_rcu = x_rcu\<rparr> }
              else Some (raw_irq e)))"

fun irq_loop :: "int \<Rightarrow> softirq_stat list \<Rightarrow> SoftIrq list \<times> CpuSoftIrqMonitor \<Rightarrow> (SoftIrq list \<times> CpuSoftIrqMonitor) option" where
  "irq_loop now [] r = Some r"
| "irq_loop now (e # es) (out, s) =
     (case irq_message now (s (sq_cpu_name e)) e of None \<Rightarrow> None
      | Some msg \<Rightarrow> irq_loop now es (out @ [msg], s(sq_cpu_name e \<mapsto> \<lparr>sc_stat = e, sc_timepoint = now\<rparr>)))"

text \<open>The result is \<open>None\<close> when a conversion is undefined.\<close>

definition CpuSoftIrqMonitor_updateOnce ::
  "softirq_stat list option \<Rightarrow> int \<Rightarrow> MonitorInfo \<Rightarrow> CpuSoftIrqMonitor \<Rightarrow> (MonitorInfo \<times> CpuSoftIrqMonitor) option" where
  "CpuSoftIrqMonitor_updateOnce addr now info s =
     (case addr of None \<Rightarrow> Some (info, s)
      | Some stats \<Rightarrow>
          map_option (\<lambda>(out, s). (info\<lparr>m_soft_irq := m_soft_irq info @ out\<rparr>, s))
            (irq_loop now (takeWhile (\<lambda>e. sq_cpu_name e \<noteq> []) (take 256 stats)) ([], s)))"

section \<open>Load average\<close>

text \<open>
  The monitor maps a \<open>struct cpu_load\<close>, three floats, from the device of the CPU statistics;
  there the first bytes are the name of the first entry, padded with zeros.
\<close>

definition f32_of_bits :: "nat \<Rightarrow> fp" where
  "f32_of_bits b =
     (let m = b mod 2 ^ 23; e = b div 2 ^ 23 mod 256; neg = 2 ^ 31 \<le> b mod 2 ^ 32;
          v = (if e = 0 then Fin (of_nat m / 2 ^ 149)
               else if e = 255 then (if m = 0 then PInf else NaN)
               else Fin ((of_nat (2 ^ 23 + m)) * 2 powi (int e - 150)))
      in if neg then fneg v else v)"

definition bytes_le :: "nat list \<Rightarrow> nat" where
  "bytes_le bs = foldr (\<lambda>b n. b + 256 * n) bs 0"

definition first_bytes :: "cpu_stat list \<Rightarrow> nat list" where
  "first_bytes stats = take 12 (map of_char (case stats of [] \<Rightarrow> [] | e # _ \<Rightarrow> cpu_name e) @ replicate 12 0)"

definition scan_float :: "string \<Rightarrow> (fp \<times> string) option" where
  "scan_float s =
     (case strtod s of None \<Rightarrow> None
      | Some (neg, n, rest) \<Rightarrow>
          Some (case n of Exact q \<Rightarrow> f32 (if neg then - q else q) | Infinite \<Rightarrow> (if neg then NInf else PInf) | NotANumber \<Rightarrow> NaN, rest))"

definition readLoadFromProc :: "string option \<Rightarrow> (fp \<times> fp \<times> fp) option" where
  "readLoadFromProc file =
     (case file of None \<Rightarrow> None
      | Some s0 \<Rightarrow> (case scan_float s0 of None \<Rightarrow> None
      | Some (load1, s1) \<Rightarrow> (case scan_float s1 of None \<Rightarrow> None
      | Some (load3, s2) \<Rightarrow> (case scan_float s2 of None \<Rightarrow> None
      | Some (load15, s3) \<Rightarrow> Some (load1, load3, load15)))))"

definition CpuLoadMonitor_updateOnce :: "cpu_stat list option \<Rightarrow> string option \<Rightarrow> MonitorInfo \<Rightarrow> MonitorInfo" where
  "CpuLoadMonitor_updateOnce addr file info =
     (case addr of
        Some stats \<Rightarrow>
          (let b = first_bytes stats; word = (\<lambda>i. f32_of_bits (bytes_le (take 4 (drop (4 * i) b))))
           in info\<lparr>m_cpu_load := Some \<lparr>cl_load_avg_1 = word 0, cl_load_avg_3 = word 1, cl_load_avg_15 = word 2\<rparr>\<rparr>)
      | None \<Rightarrow>
          (case readLoadFromProc file of None \<Rightarrow> info
           | Some (load1, load3, load15) \<Rightarrow>
               info\<lparr>m_cpu_load := Some \<lparr>cl_load_avg_1 = load1, cl_load_avg_3 = load3, cl_load_avg_15 = load15\<rparr>\<rparr>))"

section \<open>Shares stay between 0 and 100\<close>

text \<open>
  Two samples of counters that have only grown, small enough for a double to hold their sum
  exactly.
\<close>

definition total_nat :: "CpuTotals \<Rightarrow> nat" where
  "total_nat t = unat (ct_user t) + unat (ct_nice t) + unat (ct_system t) + unat (ct_idle t) + unat (ct_iowait t)
     + unat (ct_irq t) + unat (ct_softirq t) + unat (ct_steal t)"

definition grown :: "CpuTotals \<Rightarrow> CpuTotals \<Rightarrow> bool" where
  "grown prev cur \<longleftrightarrow> ct_user prev \<le> ct_user cur \<and> ct_nice prev \<le> ct_nice cur \<and> ct_system prev \<le> ct_system cur
     \<and> ct_idle prev \<le> ct_idle cur \<and> ct_iowait prev \<le> ct_iowait cur \<and> ct_irq prev \<le> ct_irq cur
     \<and> ct_softirq prev \<le> ct_softirq cur \<and> ct_steal prev \<le> ct_steal cur \<and> total_nat cur < 2 ^ 53"

lemma unat_add_small: "unat a + unat b < 2 ^ 53 \<Longrightarrow> unat (a + b) = unat a + unat (b :: u64)"
  by (subst unat_add_lem [THEN iffD1]) simp_all

lemma unat_totalTime: "total_nat t < 2 ^ 53 \<Longrightarrow> unat (totalTime t) = total_nat t"
  by (simp add: totalTime_def total_nat_def unat_add_small)

lemma unat_busyTime:
  "total_nat t < 2 ^ 53 \<Longrightarrow> unat (busyTime t) = unat (ct_user t) + unat (ct_nice t) + unat (ct_system t)
     + unat (ct_irq t) + unat (ct_softirq t) + unat (ct_steal t)"
  by (simp add: busyTime_def total_nat_def unat_add_small)

lemma share_bounds:
  assumes "unat prev \<le> unat cur" "unat cur < 2 ^ 53" "unat cur - unat prev \<le> d" "0 < d" "d < 2 ^ 53"
  shows "fle (Fin 0) (share (Fin (of_nat d)) cur prev) \<and> fle (share (Fin (of_nat d)) cur prev) (Fin 100)"
proof -
  have "unat cur - unat prev < 2 ^ 53" using assms(2) by simp
  then have "int (unat cur - unat prev) < int (2 ^ 53)" by (simp only: of_nat_less_iff)
  then have "\<bar>int (unat cur - unat prev)\<bar> < 2 ^ 53" by (simp only: abs_of_nat of_nat_power of_nat_numeral)
  from f64_exact [OF this] have "f64 (of_nat (unat cur) - of_nat (unat prev)) = Fin (of_nat (unat cur - unat prev))"
    using assms(1) by (simp only: of_int_of_nat_eq of_nat_diff of_int_diff)
  then have "fsub f64 (f64_of_u64 cur) (f64_of_u64 prev) = Fin (of_nat (unat cur - unat prev))"
    using assms by (simp add: fsub_def f64_of_u64_exact del: of_nat_unat)
  then show ?thesis
    using percent_bounds [of "of_nat (unat cur - unat prev)" "of_nat d"] assms(3,4)
    unfolding share_def by (intro to_f32_bounds) (simp_all del: of_nat_unat of_nat_diff)
qed

definition cpu_shares :: "CpuStat \<Rightarrow> fp list" where
  "cpu_shares c = [cs_cpu_percent c, cs_usr_percent c, cs_system_percent c, cs_nice_percent c, cs_idle_percent c,
     cs_io_wait_percent c, cs_irq_percent c, cs_soft_irq_percent c]"

lemma total_delta:
  assumes "grown prev cur"
  shows "fsub f64 (f64_of_u64 (totalTime cur)) (f64_of_u64 (totalTime prev)) = Fin (of_nat (total_nat cur - total_nat prev))"
    and "total_nat prev \<le> total_nat cur" "total_nat cur < 2 ^ 53"
proof -
  show le: "total_nat prev \<le> total_nat cur" and c: "total_nat cur < 2 ^ 53"
    using assms by (auto simp: grown_def total_nat_def word_le_nat_alt)
  then have p: "total_nat prev < 2 ^ 53" by simp
  have "total_nat cur - total_nat prev < 2 ^ 53" using c by simp
  then have "int (total_nat cur - total_nat prev) < int (2 ^ 53)" by (simp only: of_nat_less_iff)
  then have "\<bar>int (total_nat cur - total_nat prev)\<bar> < 2 ^ 53" by (simp only: abs_of_nat of_nat_power of_nat_numeral)
  from f64_exact [OF this] have "f64 (of_nat (total_nat cur) - of_nat (total_nat prev)) = Fin (of_nat (total_nat cur - total_nat prev))"
    using le by (simp only: of_int_of_nat_eq of_nat_diff of_int_diff)
  then show "fsub f64 (f64_of_u64 (totalTime cur)) (f64_of_u64 (totalTime prev)) = Fin (of_nat (total_nat cur - total_nat prev))"
    using unat_totalTime [OF c] unat_totalTime [OF p] c p by (simp add: fsub_def f64_of_u64_exact del: of_nat_unat)
qed

lemma grown_unat:
  assumes "grown prev cur"
  shows "unat (ct_user prev) \<le> unat (ct_user cur)" "unat (ct_nice prev) \<le> unat (ct_nice cur)"
    "unat (ct_system prev) \<le> unat (ct_system cur)" "unat (ct_idle prev) \<le> unat (ct_idle cur)"
    "unat (ct_iowait prev) \<le> unat (ct_iowait cur)" "unat (ct_irq prev) \<le> unat (ct_irq cur)"
    "unat (ct_softirq prev) \<le> unat (ct_softirq cur)" "unat (ct_steal prev) \<le> unat (ct_steal cur)"
  using assms by (simp_all add: grown_def word_le_nat_alt)

lemma field_shares:
  assumes "grown prev cur" "total_nat prev < total_nat cur"
    and "f \<in> {busyTime, ct_user, ct_system, ct_nice, ct_idle, ct_iowait, ct_irq, ct_softirq}"
  defines "sh \<equiv> share (Fin (of_nat (total_nat cur - total_nat prev))) (f cur) (f prev)"
  shows "fle (Fin 0) sh \<and> fle sh (Fin 100)"
proof -
  note d = total_delta [OF assms(1)]
  have "total_nat prev < 2 ^ 53" using d(2,3) by simp
  then show ?thesis
    unfolding sh_def
    using assms(2,3) grown_unat [OF assms(1)] d(3) unat_busyTime [OF d(3)] unat_busyTime [of prev]
    by (intro share_bounds) (auto simp: total_nat_def)
qed

text \<open>
  C32: CPU shares are percentages. Between two samples whose counters have only grown (and
  whose sum is below \<open>2 ^ 53\<close>) a message is produced exactly when some counter has moved, and
  every share in it, with all the rounding, lies between 0 and 100.
\<close>

lemma cpu_shares_bounded:
  assumes "grown prev cur"
  shows "(cpu_message name cur prev = [] \<longleftrightarrow> total_nat cur = total_nat prev)
    \<and> (\<forall>m \<in> set (cpu_message name cur prev). cs_cpu_name m = name
         \<and> (\<forall>p \<in> set (cpu_shares m). fle (Fin 0) p \<and> fle p (Fin 100)))"
proof (cases "total_nat cur = total_nat prev")
  case True
  then show ?thesis
    using total_delta [OF assms] by (simp add: cpu_message_def setCpuStatPercentages_def)
next
  case False
  then have lt: "total_nat prev < total_nat cur" using total_delta(2) [OF assms] by simp
  then have "\<not> fle (Fin (of_nat (total_nat cur - total_nat prev))) (Fin 0)" by (simp del: of_nat_diff)
  then show ?thesis
    using total_delta(1) [OF assms] field_shares [OF assms lt] False
    by (simp add: cpu_message_def setCpuStatPercentages_def Let_def cpu_shares_def del: of_nat_diff fle_Fin_iff)
qed

section \<open>From the module to the report\<close>

definition cpu_part :: "CpuStatMonitor \<Rightarrow> cpu_stat \<Rightarrow> CpuStat list" where
  "cpu_part s e = (case s (cpu_name e) of None \<Rightarrow> []
     | Some old \<Rightarrow> cpu_message (cpu_name e) (add_totals zero_totals e) (add_totals zero_totals old))"

lemma cpu_step_simps:
  "cn_map (cpu_step e r) = (cn_map r)(cpu_name e \<mapsto> e)"
  "cn_out (cpu_step e r) = cn_out r @ cpu_part (cn_map r) e"
  "cn_allCurr (cpu_step e r) = (if cn_map r (cpu_name e) = None then cn_allCurr r else add_totals (cn_allCurr r) e)"
  "cn_allOld (cpu_step e r) = (case cn_map r (cpu_name e) of None \<Rightarrow> cn_allOld r | Some old \<Rightarrow> add_totals (cn_allOld r) old)"
  "cn_hasAggregateBase (cpu_step e r) \<longleftrightarrow> cn_hasAggregateBase r \<or> cn_map r (cpu_name e) \<noteq> None"
  by (auto simp: cpu_step_def Let_def cpu_part_def split: option.split)

text \<open>The entries that have an earlier sample, and those samples.\<close>

definition known :: "CpuStatMonitor \<Rightarrow> cpu_stat list \<Rightarrow> (cpu_stat \<times> cpu_stat) list" where
  "known s es = concat (map (\<lambda>e. case s (cpu_name e) of None \<Rightarrow> [] | Some old \<Rightarrow> [(e, old)]) es)"

lemma cpu_scan_result:
  "distinct (map cpu_name es) \<Longrightarrow> cn_out (fold cpu_step es r) = cn_out r @ concat (map (cpu_part (cn_map r)) es)
    \<and> cn_allCurr (fold cpu_step es r) = foldl add_totals (cn_allCurr r) (map fst (known (cn_map r) es))
    \<and> cn_allOld (fold cpu_step es r) = foldl add_totals (cn_allOld r) (map snd (known (cn_map r) es))
    \<and> (cn_hasAggregateBase (fold cpu_step es r) \<longleftrightarrow> cn_hasAggregateBase r \<or> known (cn_map r) es \<noteq> [])
    \<and> cn_map (fold cpu_step es r) n = (case find (\<lambda>e. cpu_name e = n) es of None \<Rightarrow> cn_map r n | Some e \<Rightarrow> Some e)"
proof (induction es arbitrary: r)
  case (Cons e es)
  have "cpu_name e \<notin> cpu_name ` set es" using Cons.prems by simp
  then have ne: "cpu_name x \<noteq> cpu_name e" if "x \<in> set es" for x using that by (metis imageI)
  then have "known (cn_map (cpu_step e r)) es = known (cn_map r) es"
    "concat (map (cpu_part (cn_map (cpu_step e r))) es) = concat (map (cpu_part (cn_map r)) es)"
    by (auto simp: known_def cpu_part_def cpu_step_simps intro!: arg_cong [of _ _ concat] map_cong)
  moreover have "find (\<lambda>x. cpu_name x = cpu_name e) es = None" using ne by (simp add: find_None_iff)
  moreover have "known (cn_map r) (e # es) = (case cn_map r (cpu_name e) of None \<Rightarrow> [] | Some old \<Rightarrow> [(e, old)]) @ known (cn_map r) es"
    by (simp add: known_def)
  moreover have "cn_map (cpu_step e r) n = (if n = cpu_name e then Some e else cn_map r n)" by (simp add: cpu_step_simps)
  ultimately show ?case
    using Cons.IH [of "cpu_step e r"] Cons.prems
    by (cases "cn_map r (cpu_name e)"; cases "n = cpu_name e") (simp_all add: cpu_step_simps(2-5) split: option.split)
qed (simp add: known_def)

text \<open>What one update reports: a message for each CPU with an earlier sample, in order, and one for all.\<close>

lemma cpu_update:
  assumes "distinct (map cpu_name es)" "es = takeWhile (\<lambda>e. cpu_name e \<noteq> []) (take 128 stats)"
    and "CpuStatMonitor_updateOnce (Some stats) info s = (info', s')"
  shows "m_cpu_stat info' = m_cpu_stat info @ concat (map (cpu_part s) es)
      @ (if known s es = [] then [] else cpu_message ''all'' (foldl add_totals zero_totals (map fst (known s es)))
           (foldl add_totals zero_totals (map snd (known s es))))"
    and "s' n = (case find (\<lambda>e. cpu_name e = n) es of None \<Rightarrow> s n | Some e \<Rightarrow> Some e)"
  using assms(3) cpu_scan_result [OF assms(1), of "\<lparr>cn_map = s, cn_out = [], cn_allCurr = zero_totals, cn_allOld = zero_totals,
      cn_hasAggregateBase = False\<rparr>"]
  unfolding CpuStatMonitor_updateOnce_def option.case assms(2) [symmetric] Let_def by (auto split: option.split)

lemma takeWhile_take: "takeWhile P (take n xs) = take n (takeWhile P xs)"
  by (induction xs arbitrary: n) (auto simp: take_Cons split: nat.split)

text \<open>The samples the monitor takes from a module that has just published the kernel's counters.\<close>

definition cpus_seen :: "kernel \<Rightarrow> nat list" where
  "cpus_seen K = take 128 (possible_cpus K)"

lemma published_entries:
  assumes "length mem = MAX_CPUS" "update_cpu_stats K mem = Some mem'"
  shows "takeWhile (\<lambda>e. cpu_name e \<noteq> []) (take 128 mem') = map (cpu_entry K) (cpus_seen K)" "length mem' = MAX_CPUS"
  using update_cpu_stats_spec [OF assms(1), of K] assms(2)
  by (auto simp: takeWhile_take cpus_seen_def take_map [symmetric] min_def)

lemma find_label:
  assumes "distinct (map cpu_label cs)" "c \<in> set cs"
  shows "find (\<lambda>e. cpu_name e = cpu_label c) (map (cpu_entry K) cs) = Some (cpu_entry K c)"
  using assms
proof (induction cs)
  case (Cons a cs)
  then show ?case by (cases "cpu_label a = cpu_label c") (auto simp: cpu_entry_def dest: imageI [of _ _ cpu_label])
qed simp

text \<open>
  C21: from the kernel's counters to the report. When the module has published the counters
  twice and the monitor has read them each time, the second report has, for each of the
  first 128 possible CPUs in the kernel's order, the message of that CPU's counters between
  the two moments, and then one for all of them together: whatever the monitor and the
  shared memory held before.
\<close>

lemma cpu_kernel_to_report:
  assumes "length mem = MAX_CPUS" "possible_cpus K2 = possible_cpus K1" "distinct (map cpu_label (cpus_seen K1))" "cpus_seen K1 \<noteq> []"
    and "update_cpu_stats K1 mem = Some mem1" "CpuStatMonitor_updateOnce (Some mem1) info1 s = (info1', s1)"
    and "update_cpu_stats K2 mem1 = Some mem2" "CpuStatMonitor_updateOnce (Some mem2) info2 s1 = (info2', s2)"
  defines "sample \<equiv> \<lambda>K c. add_totals zero_totals (cpu_entry K c)"
    and "sum_of \<equiv> \<lambda>K. foldl add_totals zero_totals (map (cpu_entry K) (cpus_seen K1))"
  shows "m_cpu_stat info2' = m_cpu_stat info2
    @ concat (map (\<lambda>c. cpu_message (cpu_label c) (sample K2 c) (sample K1 c)) (cpus_seen K1))
    @ cpu_message ''all'' (sum_of K2) (sum_of K1)"
proof -
  let ?cs = "cpus_seen K1"
  have seen: "cpus_seen K2 = ?cs" using assms(2) by (simp add: cpus_seen_def)
  note m1 = published_entries [OF assms(1,5)]
  note m2 = published_entries [OF m1(2) assms(7), unfolded seen]
  have d: "distinct (map cpu_name (map (cpu_entry K) ?cs))" for K using assms(3) by (simp add: cpu_entry_def comp_def)
  have name: "cpu_name (cpu_entry K c) = cpu_label c" for K c by (simp add: cpu_entry_def)
  have s1: "s1 (cpu_label c) = Some (cpu_entry K1 c)" if "c \<in> set ?cs" for c
    using cpu_update(2) [OF d m1(1) [symmetric] assms(6), of "cpu_label c"] find_label [OF assms(3) that] by simp
  have "map (\<lambda>e. case s1 (cpu_name e) of None \<Rightarrow> [] | Some old \<Rightarrow> [(e, old)]) (map (cpu_entry K2) ?cs)
      = map (\<lambda>c. [(cpu_entry K2 c, cpu_entry K1 c)]) ?cs" using s1 by (simp add: name)
  then have k: "known s1 (map (cpu_entry K2) ?cs) = map (\<lambda>c. (cpu_entry K2 c, cpu_entry K1 c)) ?cs"
    unfolding known_def by (simp only: concat_map_singleton)
  have p: "map (cpu_part s1) (map (cpu_entry K2) ?cs) = map (\<lambda>c. cpu_message (cpu_label c) (sample K2 c) (sample K1 c)) ?cs"
    using s1 by (simp add: cpu_part_def name sample_def)
  show ?thesis
    using cpu_update(1) [OF d m2(1) [symmetric] assms(8)] assms(4) unfolding k p sum_of_def by (simp add: comp_def)
qed


section \<open>Witnesses\<close>

lemma cpu_shares_bounded_witness:
  "\<exists>m. cpu_message ''cpu0'' (zero_totals\<lparr>ct_user := 3, ct_idle := 5\<rparr>) zero_totals = [m]
     \<and> fle (Fin 0) (cs_cpu_percent m) \<and> fle (cs_cpu_percent m) (Fin 100)"
proof -
  have g: "grown zero_totals (zero_totals\<lparr>ct_user := 3, ct_idle := 5\<rparr>)"
    by (simp add: grown_def zero_totals_def total_nat_def)
  have "length (cpu_message ''cpu0'' (zero_totals\<lparr>ct_user := 3, ct_idle := 5\<rparr>) zero_totals) \<le> 1"
    by (simp add: cpu_message_def split: option.split)
  moreover have "cpu_message ''cpu0'' (zero_totals\<lparr>ct_user := 3, ct_idle := 5\<rparr>) zero_totals \<noteq> []"
    using cpu_shares_bounded [OF g, of "''cpu0''"] by (simp add: total_nat_def zero_totals_def)
  ultimately obtain m where "cpu_message ''cpu0'' (zero_totals\<lparr>ct_user := 3, ct_idle := 5\<rparr>) zero_totals = [m]"
    by (cases "cpu_message ''cpu0'' (zero_totals\<lparr>ct_user := 3, ct_idle := 5\<rparr>) zero_totals") simp_all
  then show ?thesis using cpu_shares_bounded [OF g, of "''cpu0''"] by (simp add: cpu_shares_def)
qed

lemma cpu_kernel_to_report_witness:
  "\<exists>mem1 mem2 info1' s1 info2' s2.
     update_cpu_stats kernel_4k (replicate MAX_CPUS zero_cpu_stat) = Some mem1
     \<and> CpuStatMonitor_updateOnce (Some mem1) default_MonitorInfo Map.empty = (info1', s1)
     \<and> update_cpu_stats kernel_4k mem1 = Some mem2
     \<and> CpuStatMonitor_updateOnce (Some mem2) default_MonitorInfo s1 = (info2', s2)
     \<and> m_cpu_stat info2' = concat (map (\<lambda>c. cpu_message (cpu_label c) (add_totals zero_totals (cpu_entry kernel_4k c))
           (add_totals zero_totals (cpu_entry kernel_4k c))) [0, 1])
         @ cpu_message ''all'' (foldl add_totals zero_totals (map (cpu_entry kernel_4k) [0, 1]))
             (foldl add_totals zero_totals (map (cpu_entry kernel_4k) [0, 1]))"
proof -
  have l: "length (replicate MAX_CPUS zero_cpu_stat) = MAX_CPUS" by simp
  obtain mem1 where m1: "update_cpu_stats kernel_4k (replicate MAX_CPUS zero_cpu_stat) = Some mem1" "length mem1 = MAX_CPUS"
    using update_cpu_stats_spec [OF l] by blast
  obtain mem2 where m2: "update_cpu_stats kernel_4k mem1 = Some mem2" using update_cpu_stats_spec [OF m1(2)] by blast
  obtain info1' s1 where u1: "CpuStatMonitor_updateOnce (Some mem1) default_MonitorInfo Map.empty = (info1', s1)" by fastforce
  obtain info2' s2 where u2: "CpuStatMonitor_updateOnce (Some mem2) default_MonitorInfo s1 = (info2', s2)" by fastforce
  have c: "cpus_seen kernel_4k = [0, 1]" by (simp add: cpus_seen_def kernel_4k_def)
  have "distinct (map cpu_label (cpus_seen kernel_4k))" "cpus_seen kernel_4k \<noteq> []"
    by (simp_all add: c cpu_label_def show_nat.simps digit_simps)
  from cpu_kernel_to_report [OF l refl this m1(1) u1 m2 u2] show ?thesis
    using m1 m2 u1 u2 by (auto simp: c default_MonitorInfo_def)
qed

end
