(* ===== verification/Worker_Proc.thy ===== *)
theory Worker_Proc
  imports Messages Text_Numbers
begin

text \<open>
  The worker's monitors that read text (\<open>ReadFile\<close>, \<open>MemMonitor\<close>, \<open>NetMonitor\<close>, \<open>DiskMonitor\<close>,
  \<open>UserMonitor\<close>) and the one that asks for the host's name and address (\<open>HostInfoMonitor\<close>).
  A file is its text, \<open>None\<close> when it cannot be opened; the clock is an argument. Memory the
  code leaves uninitialised is an argument too.
\<close>

section \<open>Lines and words\<close>

definition newline :: char where
  "newline = CHR 0x0A"

text \<open>The pieces of \<open>while (std::getline (input, piece, delimiter))\<close>; the lines of a file.\<close>

fun split_text :: "char \<Rightarrow> string \<Rightarrow> string list" where
  "split_text delimiter s =
     (if s = [] then []
      else takeWhile (\<lambda>c. c \<noteq> delimiter) s
        # split_text delimiter (drop (Suc (length (takeWhile (\<lambda>c. c \<noteq> delimiter) s))) s))"

declare split_text.simps [simp del]

abbreviation get_lines :: "string \<Rightarrow> string list" where
  "get_lines \<equiv> split_text newline"

text \<open>
  The words of a line as \<open>ReadLine\<close> collects them: white space at the end of the line gives an
  empty last word. \<open>ReadLine\<close> says no more at an empty line and at a line that ends the file
  without a newline.
\<close>

function line_words :: "string \<Rightarrow> string list" where
  "line_words s =
     (let u = dropWhile isspace s; w = takeWhile (\<lambda>c. \<not> isspace c) u
      in if u = [] then [[]]
         else if length u \<le> length w then [w] else w # line_words (drop (length w) u))"
  by pat_completeness auto

lemma word_nonempty: "dropWhile isspace s \<noteq> [] \<Longrightarrow> takeWhile (\<lambda>c. \<not> isspace c) (dropWhile isspace s) \<noteq> []"
  by (metis (mono_tags, lifting) hd_dropWhile list.exhaust_sel takeWhile.simps(2) list.distinct(1))

lemma word_shortens:
  assumes "dropWhile isspace s \<noteq> []"
  shows "length (drop (length (takeWhile (\<lambda>c. \<not> isspace c) (dropWhile isspace s))) (dropWhile isspace s)) < length s"
proof -
  have "0 < length (takeWhile (\<lambda>c. \<not> isspace c) (dropWhile isspace s))" using word_nonempty [OF assms] by simp
  moreover have "0 < length (dropWhile isspace s)" using assms by simp
  moreover have "length (dropWhile isspace s) \<le> length s" by (rule length_dropWhile_le)
  ultimately show ?thesis by (simp del: length_greater_0_conv)
qed

termination line_words
  by (relation "measure length") (use word_shortens in auto)

declare line_words.simps [simp del]

fun ReadLine_all :: "string \<Rightarrow> string list list" where
  "ReadLine_all s =
     (let line = takeWhile (\<lambda>c. c \<noteq> newline) s
      in if length s \<le> length line \<or> line = [] then []
         else line_words line # ReadLine_all (drop (Suc (length line)) s))"

declare ReadLine_all.simps [simp del]

text \<open>
  Extraction from a string stream into a variable: the text left, whether the stream is
  still good, and the value. Nothing is stored once the stream has failed or has no more
  text; a bad number stores 0, one too large the greatest.
\<close>

definition get_u64 :: "u64 \<Rightarrow> string \<times> bool \<Rightarrow> u64 \<times> string \<times> bool" where
  "get_u64 before st =
     (case st of (s, good) \<Rightarrow>
        let u = dropWhile isspace s
        in if \<not> good \<or> u = [] then (before, u, False)
           else case scan_number u of None \<Rightarrow> (0, u, False)
              | Some (neg, v, r) \<Rightarrow>
                  if 2 ^ 64 \<le> v then (- 1, r, False) else (if neg then - of_nat v else of_nat v, r, True))"

definition get_int :: "int \<Rightarrow> string \<times> bool \<Rightarrow> int \<times> string \<times> bool" where
  "get_int before st =
     (case st of (s, good) \<Rightarrow>
        let u = dropWhile isspace s
        in if \<not> good \<or> u = [] then (before, u, False)
           else case scan_number u of None \<Rightarrow> (0, u, False)
              | Some (neg, v, r) \<Rightarrow>
                  (let i = (if neg then - int v else int v)
                   in if i < - (2 ^ 31) then (- (2 ^ 31), r, False) else if 2 ^ 31 \<le> i then (2 ^ 31 - 1, r, False) else (i, r, True)))"

definition get_word :: "string \<times> bool \<Rightarrow> string \<times> string \<times> bool" where
  "get_word st =
     (case st of (s, good) \<Rightarrow>
        let u = dropWhile isspace s
        in if \<not> good \<or> u = [] then ([], u, False)
           else (takeWhile (\<lambda>c. \<not> isspace c) u, dropWhile (\<lambda>c. \<not> isspace c) u, True))"

text \<open>A row of variables read one after the other.\<close>

fun get_all :: "u64 list \<Rightarrow> string \<times> bool \<Rightarrow> u64 list \<times> bool" where
  "get_all [] st = ([], snd st)"
| "get_all (x # xs) st =
     (case get_u64 x st of (v, st) \<Rightarrow> (case get_all xs st of (vs, good) \<Rightarrow> (v # vs, good)))"

section \<open>Memory\<close>

record MenInfo =
  me_total :: int
  me_free :: int
  me_avail :: int
  me_buffers :: int
  me_cached :: int
  me_swap_cached :: int
  me_active :: int
  me_in_active :: int
  me_active_anon :: int
  me_inactive_anon :: int
  me_active_file :: int
  me_inactive_file :: int
  me_dirty :: int
  me_writeback :: int
  me_anon_pages :: int
  me_mapped :: int
  me_kReclaimable :: int
  me_sReclaimable :: int
  me_sUnreclaim :: int

text \<open>The field a line of \<open>/proc/meminfo\<close> sets.\<close>

definition mem_field :: "string \<Rightarrow> (int \<Rightarrow> MenInfo \<Rightarrow> MenInfo) option" where
  "mem_field key =
     (if key = ''MemTotal:'' then Some (\<lambda>v m. m\<lparr>me_total := v\<rparr>)
      else if key = ''MemFree:'' then Some (\<lambda>v m. m\<lparr>me_free := v\<rparr>)
      else if key = ''MemAvailable:'' then Some (\<lambda>v m. m\<lparr>me_avail := v\<rparr>)
      else if key = ''Buffers:'' then Some (\<lambda>v m. m\<lparr>me_buffers := v\<rparr>)
      else if key = ''Cached:'' then Some (\<lambda>v m. m\<lparr>me_cached := v\<rparr>)
      else if key = ''SwapCached:'' then Some (\<lambda>v m. m\<lparr>me_swap_cached := v\<rparr>)
      else if key = ''Active:'' then Some (\<lambda>v m. m\<lparr>me_active := v\<rparr>)
      else if key = ''Inactive:'' then Some (\<lambda>v m. m\<lparr>me_in_active := v\<rparr>)
      else if key = ''Active(anon):'' then Some (\<lambda>v m. m\<lparr>me_active_anon := v\<rparr>)
      else if key = ''Inactive(anon):'' then Some (\<lambda>v m. m\<lparr>me_inactive_anon := v\<rparr>)
      else if key = ''Active(file):'' then Some (\<lambda>v m. m\<lparr>me_active_file := v\<rparr>)
      else if key = ''Inactive(file):'' then Some (\<lambda>v m. m\<lparr>me_inactive_file := v\<rparr>)
      else if key = ''Dirty:'' then Some (\<lambda>v m. m\<lparr>me_dirty := v\<rparr>)
      else if key = ''Writeback:'' then Some (\<lambda>v m. m\<lparr>me_writeback := v\<rparr>)
      else if key = ''AnonPages:'' then Some (\<lambda>v m. m\<lparr>me_anon_pages := v\<rparr>)
      else if key = ''Mapped:'' then Some (\<lambda>v m. m\<lparr>me_mapped := v\<rparr>)
      else if key = ''KReclaimable:'' then Some (\<lambda>v m. m\<lparr>me_kReclaimable := v\<rparr>)
      else if key = ''SReclaimable:'' then Some (\<lambda>v m. m\<lparr>me_sReclaimable := v\<rparr>)
      else if key = ''SUnreclaim:'' then Some (\<lambda>v m. m\<lparr>me_sUnreclaim := v\<rparr>)
      else None)"

definition mem_line :: "string list \<Rightarrow> MenInfo \<Rightarrow> MenInfo run" where
  "mem_line memDatas m =
     (case mem_field (hd memDatas) of None \<Rightarrow> Returns m
      | Some f \<Rightarrow>
          if length memDatas < 2 then Undefined
          else (case stoll (memDatas ! 1) of Inl _ \<Rightarrow> Throws | Inr v \<Rightarrow> Returns (f v m)))"

fun mem_lines :: "string list list \<Rightarrow> MenInfo \<Rightarrow> MenInfo run" where
  "mem_lines [] m = Returns m"
| "mem_lines (l # ls) m = (case mem_line l m of Returns m \<Rightarrow> mem_lines ls m | Throws \<Rightarrow> Throws | Undefined \<Rightarrow> Undefined)"

text \<open>\<open>int64_t / float\<close>, and the share in use, computed in \<open>double\<close>.\<close>

definition kb_to_gb :: "int \<Rightarrow> fp" where
  "kb_to_gb v = fdiv f32 (f32_of_int v) (Fin 1000000)"

definition mem_used_percent :: "MenInfo \<Rightarrow> fp" where
  "mem_used_percent m =
     to_f32 (fmul f64 (fdiv f64 (f64_of_int (me_total m - me_avail m)) (f64_of_int (me_total m))) (Fin 100))"

definition mem_reading :: "MenInfo \<Rightarrow> MemInfo" where
  "mem_reading m =
     \<lparr>mi_total = kb_to_gb (me_total m), mi_free = kb_to_gb (me_free m), mi_avail = kb_to_gb (me_avail m),
      mi_buffers = kb_to_gb (me_buffers m), mi_cached = kb_to_gb (me_cached m),
      mi_swap_cached = kb_to_gb (me_swap_cached m), mi_active = kb_to_gb (me_active m),
      mi_inactive = kb_to_gb (me_in_active m), mi_active_anon = kb_to_gb (me_active_anon m),
      mi_inactive_anon = kb_to_gb (me_inactive_anon m), mi_active_file = kb_to_gb (me_active_file m),
      mi_inactive_file = kb_to_gb (me_inactive_file m), mi_dirty = kb_to_gb (me_dirty m),
      mi_writeback = kb_to_gb (me_writeback m), mi_anon_pages = kb_to_gb (me_anon_pages m),
      mi_mapped = kb_to_gb (me_mapped m), mi_kReclaimable = kb_to_gb (me_kReclaimable m),
      mi_sReclaimable = kb_to_gb (me_sReclaimable m), mi_sUnreclaim = kb_to_gb (me_sUnreclaim m),
      mi_used_percent = mem_used_percent m\<rparr>"

definition MemMonitor_updateOnce :: "MenInfo \<Rightarrow> string option \<Rightarrow> MonitorInfo \<Rightarrow> MonitorInfo run" where
  "MemMonitor_updateOnce uninit file info =
     (case mem_lines (case file of None \<Rightarrow> [] | Some s \<Rightarrow> ReadLine_all s) uninit of
        Throws \<Rightarrow> Throws | Undefined \<Rightarrow> Undefined
      | Returns m \<Rightarrow>
          if - (2 ^ 63) \<le> me_total m - me_avail m \<and> me_total m - me_avail m < 2 ^ 63
          then Returns (info\<lparr>m_mem_info := Some (mem_reading m)\<rparr>) else Undefined)"

section \<open>Network\<close>

record NetStat =
  nt_name :: string
  nt_rcv_bytes :: u64
  nt_rcv_packets :: u64
  nt_snd_bytes :: u64
  nt_snd_packets :: u64
  nt_err_in :: u64
  nt_err_out :: u64
  nt_drop_in :: u64
  nt_drop_out :: u64

text \<open>A line of \<open>/proc/net/dev\<close>: the numbers in the order of the file; \<open>junk\<close> is what the struct held.\<close>

definition net_line :: "u64 \<Rightarrow> NetStat \<Rightarrow> string \<Rightarrow> NetStat option" where
  "net_line dummy junk line =
     (case get_word (line, True) of (iface, st) \<Rightarrow>
        if iface = [] then None
        else
          let iface = (if last iface = CHR '':'' then butlast iface else iface)
          in if iface = ''lo'' then None
             else case get_all [nt_rcv_bytes junk, nt_rcv_packets junk, nt_err_in junk, nt_drop_in junk, dummy, dummy, dummy, dummy,
                      nt_snd_bytes junk, nt_snd_packets junk, nt_err_out junk, nt_drop_out junk] st of (v, good) \<Rightarrow>
                 Some \<lparr>nt_name = iface, nt_rcv_bytes = v ! 0, nt_rcv_packets = v ! 1, nt_snd_bytes = v ! 8, nt_snd_packets = v ! 9,
                       nt_err_in = v ! 2, nt_err_out = v ! 10, nt_drop_in = v ! 3, nt_drop_out = v ! 11\<rparr>)"

definition GetNetStatsFromProc :: "u64 \<Rightarrow> (string \<Rightarrow> NetStat) \<Rightarrow> string option \<Rightarrow> NetStat list" where
  "GetNetStatsFromProc dummy junk file =
     (case file of None \<Rightarrow> [] | Some s \<Rightarrow> List.map_filter (\<lambda>l. net_line dummy (junk l) l) (drop 2 (get_lines s)))"

record NetCache =
  nc_stat :: NetStat
  nc_timepoint :: int

type_synonym NetMonitor = "string \<rightharpoonup> NetCache"

definition seconds_of :: "int \<Rightarrow> fp" where
  "seconds_of ns = fdiv f64 (f64_of_int ns) (Fin 1000000000)"

definition net_rates :: "int \<Rightarrow> NetCache option \<Rightarrow> NetStat \<Rightarrow> fp \<times> fp \<times> fp \<times> fp" where
  "net_rates now cached st =
     (case cached of None \<Rightarrow> (Fin 0, Fin 0, Fin 0, Fin 0)
      | Some c \<Rightarrow>
          (let p = nc_stat c; dt = seconds_of (now - nc_timepoint c);
               kb = (\<lambda>a b. fdiv f64 (fdiv f64 (f64_of_u64 (a - b)) (Fin 1024)) dt);
               per = (\<lambda>a b. fdiv f64 (f64_of_u64 (a - b)) dt)
           in if flt (Fin 0) dt
              then (kb (nt_rcv_bytes st) (nt_rcv_bytes p), per (nt_rcv_packets st) (nt_rcv_packets p),
                    kb (nt_snd_bytes st) (nt_snd_bytes p), per (nt_snd_packets st) (nt_snd_packets p))
              else (Fin 0, Fin 0, Fin 0, Fin 0)))"

definition net_reading :: "int \<Rightarrow> NetCache option \<Rightarrow> NetStat \<Rightarrow> NetInfo" where
  "net_reading now cached st =
     (case net_rates now cached st of (rcv_rate, rcv_packets_rate, send_rate, send_packets_rate) \<Rightarrow>
        \<lparr>ni_name = nt_name st, ni_send_rate = to_f32 send_rate, ni_rcv_rate = to_f32 rcv_rate,
         ni_send_packets_rate = to_f32 send_packets_rate, ni_rcv_packets_rate = to_f32 rcv_packets_rate,
         ni_err_in = nt_err_in st, ni_err_out = nt_err_out st, ni_drop_in = nt_drop_in st, ni_drop_out = nt_drop_out st\<rparr>)"

definition net_step :: "int \<Rightarrow> NetStat \<Rightarrow> NetInfo list \<times> NetMonitor \<Rightarrow> NetInfo list \<times> NetMonitor" where
  "net_step now st r =
     (case r of (out, s) \<Rightarrow>
        (out @ [net_reading now (s (nt_name st)) st], s(nt_name st \<mapsto> \<lparr>nc_stat = st, nc_timepoint = now\<rparr>)))"

definition NetMonitor_updateOnce :: "u64 \<Rightarrow> (string \<Rightarrow> NetStat) \<Rightarrow> string option \<Rightarrow> int \<Rightarrow> MonitorInfo \<Rightarrow> NetMonitor \<Rightarrow> MonitorInfo \<times> NetMonitor" where
  "NetMonitor_updateOnce dummy junk file now info s =
     (case fold (net_step now) (GetNetStatsFromProc dummy junk file) ([], s) of (out, s) \<Rightarrow>
        (info\<lparr>m_net_info := m_net_info info @ out\<rparr>, s))"

section \<open>Disks\<close>

record DiskSample =
  ds_reads :: u64
  ds_writes :: u64
  ds_sectors_read :: u64
  ds_sectors_written :: u64
  ds_read_time_ms :: u64
  ds_write_time_ms :: u64
  ds_io_in_progress :: u64
  ds_io_time_ms :: u64
  ds_weighted_io_time_ms :: u64

definition disk_counter_delta :: "u64 \<Rightarrow> u64 \<Rightarrow> fp" where
  "disk_counter_delta current previous = (if previous \<le> current then f64_of_u64 (current - previous) else Fin 0)"

text \<open>A line of \<open>/proc/diskstats\<close>; \<open>None\<close> when it cannot be read in full or names a virtual disk.\<close>

definition disk_line :: "string \<Rightarrow> (string \<times> DiskSample) option" where
  "disk_line line =
     (case get_int 0 (line, True) of (major, st) \<Rightarrow> (case get_int 0 st of (minor, st) \<Rightarrow> (case get_word st of (name, st) \<Rightarrow>
        (case get_all (replicate 11 0) st of (v, good) \<Rightarrow>
           if \<not> good then None
           else if is_prefix ''loop'' name \<or> is_prefix ''ram'' name then None
           else Some (name, \<lparr>ds_reads = v ! 0, ds_writes = v ! 4, ds_sectors_read = v ! 2, ds_sectors_written = v ! 6,
                  ds_read_time_ms = v ! 3, ds_write_time_ms = v ! 7, ds_io_in_progress = v ! 8, ds_io_time_ms = v ! 9,
                  ds_weighted_io_time_ms = v ! 10\<rparr>)))))"

text \<open>The static maps \<open>lastSamples\<close> and \<open>lastTime\<close>; a missing time reads as 0.\<close>

record DiskState =
  lastSamples :: "string \<rightharpoonup> DiskSample"
  lastTime :: "string \<rightharpoonup> fp"

definition disk_reading :: "fp \<Rightarrow> DiskState \<Rightarrow> string \<Rightarrow> DiskSample \<Rightarrow> DiskInfo" where
  "disk_reading now s name cur =
     (let base = default_DiskInfo\<lparr>di_name := name, di_reads := ds_reads cur, di_writes := ds_writes cur,
            di_sectors_read := ds_sectors_read cur, di_sectors_written := ds_sectors_written cur,
            di_read_time_ms := ds_read_time_ms cur, di_write_time_ms := ds_write_time_ms cur,
            di_io_in_progress := ds_io_in_progress cur, di_io_time_ms := ds_io_time_ms cur,
            di_weighted_io_time_ms := ds_weighted_io_time_ms cur\<rparr>;
          dt = fsub f64 now (case lastTime s name of None \<Rightarrow> Fin 0 | Some t \<Rightarrow> t)
      in case lastSamples s name of None \<Rightarrow> base
         | Some p \<Rightarrow>
             if \<not> flt (Fin 0) dt then base
             else let delta = (\<lambda>f. disk_counter_delta (f cur) (f p)); read_ios = delta ds_reads; write_ios = delta ds_writes
                  in base\<lparr>di_read_bytes_per_sec := fdiv f64 (fmul f64 (delta ds_sectors_read) (Fin 512)) dt,
                          di_write_bytes_per_sec := fdiv f64 (fmul f64 (delta ds_sectors_written) (Fin 512)) dt,
                          di_read_iops := fdiv f64 read_ios dt, di_write_iops := fdiv f64 write_ios dt,
                          di_avg_read_latency_ms := (if flt (Fin 0) read_ios then fdiv f64 (delta ds_read_time_ms) read_ios else Fin 0),
                          di_avg_write_latency_ms := (if flt (Fin 0) write_ios then fdiv f64 (delta ds_write_time_ms) write_ios else Fin 0),
                          di_util_percent := fdiv f64 (delta ds_io_time_ms) (fmul f64 dt (Fin 10))\<rparr>)"

definition disk_step :: "fp \<Rightarrow> string \<Rightarrow> DiskInfo list \<times> DiskState \<Rightarrow> DiskInfo list \<times> DiskState" where
  "disk_step now line r =
     (case disk_line line of None \<Rightarrow> r
      | Some (name, cur) \<Rightarrow>
          (case r of (out, s) \<Rightarrow>
             (out @ [disk_reading now s name cur],
              s\<lparr>lastSamples := (lastSamples s)(name \<mapsto> cur), lastTime := (lastTime s)(name \<mapsto> now)\<rparr>)))"

definition DiskMonitor_updateOnce :: "string option \<Rightarrow> int \<Rightarrow> MonitorInfo \<Rightarrow> DiskState \<Rightarrow> MonitorInfo \<times> DiskState" where
  "DiskMonitor_updateOnce file now info s =
     (case fold (disk_step (f64_of_int now)) (case file of None \<Rightarrow> [] | Some t \<Rightarrow> get_lines t) ([], s) of (out, s) \<Rightarrow>
        (info\<lparr>m_disk_info := m_disk_info info @ out\<rparr>, s))"

section \<open>User and host\<close>

text \<open>\<open>std::getline (iss, field, ':')\<close>: the field and the text after it, nothing when there is no more.\<close>

definition get_field :: "string \<Rightarrow> (string \<times> string) option" where
  "get_field s =
     (if s = [] then None
      else Some (takeWhile (\<lambda>c. c \<noteq> CHR '':'') s, drop 1 (dropWhile (\<lambda>c. c \<noteq> CHR '':'') s)))"

definition passwd_line :: "string \<Rightarrow> (string \<times> u32) option" where
  "passwd_line line =
     (case get_field line of None \<Rightarrow> None
      | Some (username, r) \<Rightarrow> (case get_field r of None \<Rightarrow> None
      | Some (password, r) \<Rightarrow> (case get_field r of None \<Rightarrow> None
      | Some (uidStr, r) \<Rightarrow> (case stoull uidStr of Inl _ \<Rightarrow> None | Inr v \<Rightarrow> Some (username, ucast v)))))"

definition getUsernameByUid :: "string option \<Rightarrow> u32 \<Rightarrow> string" where
  "getUsernameByUid file uid =
     (case file of None \<Rightarrow> []
      | Some s \<Rightarrow> (case find (\<lambda>p. snd p = uid) (List.map_filter passwd_line (get_lines s)) of None \<Rightarrow> [] | Some p \<Rightarrow> fst p))"

definition UserMonitor_updateOnce :: "string option \<Rightarrow> u32 \<Rightarrow> MonitorInfo option \<Rightarrow> MonitorInfo option" where
  "UserMonitor_updateOnce file uid info =
     (case info of None \<Rightarrow> None
      | Some i \<Rightarrow>
          (let username = getUsernameByUid file uid in Some (if username \<noteq> [] then i\<lparr>m_name := username\<rparr> else i)))"

text \<open>\<open>gethostname\<close> and \<open>getifaddrs\<close>: an interface has a name and, for an IPv4 address, its text if it has one.\<close>

record ifaddr =
  ifa_name :: string
  ifa_inet :: "string option option"

definition getHostname :: "string option \<Rightarrow> string" where
  "getHostname gethostname = (case gethostname of None \<Rightarrow> ''unknown'' | Some h \<Rightarrow> h)"

definition usable_if :: "ifaddr \<Rightarrow> bool" where
  "usable_if i \<longleftrightarrow> ifa_inet i \<noteq> None \<and> ifa_name i \<noteq> ''lo'' \<and> \<not> is_prefix ''docker'' (ifa_name i) \<and> \<not> is_prefix ''veth'' (ifa_name i)
     \<and> \<not> is_prefix ''br-'' (ifa_name i) \<and> \<not> is_prefix ''virbr'' (ifa_name i)"

definition getPrimaryIpAddress :: "ifaddr list option \<Rightarrow> string" where
  "getPrimaryIpAddress getifaddrs =
     (case getifaddrs of None \<Rightarrow> []
      | Some ifs \<Rightarrow>
          (case List.map_filter (\<lambda>i. if usable_if i then (case ifa_inet i of None \<Rightarrow> None | Some t \<Rightarrow> t) else None) ifs of
             [] \<Rightarrow> [] | ip # _ \<Rightarrow> ip))"

text \<open>Asked once and kept.\<close>

type_synonym HostInfoMonitor = "(string \<times> string) option"

definition HostInfoMonitor_updateOnce ::
  "string option \<Rightarrow> ifaddr list option \<Rightarrow> MonitorInfo option \<Rightarrow> HostInfoMonitor \<Rightarrow> MonitorInfo option \<times> HostInfoMonitor" where
  "HostInfoMonitor_updateOnce gethostname getifaddrs info s =
     (case info of None \<Rightarrow> (None, s)
      | Some i \<Rightarrow>
          (let (h, ip) = (case s of None \<Rightarrow> (getHostname gethostname, getPrimaryIpAddress getifaddrs) | Some c \<Rightarrow> c)
           in (Some (i\<lparr>m_host_info := Some \<lparr>hi_hostname = h, hi_ip_address = ip\<rparr>\<rparr>), Some (h, ip))))"


section \<open>Reading back what the kernel prints\<close>

lemma space_not_newline: "\<not> isspace c \<Longrightarrow> c \<noteq> newline"
  by (auto simp: isspace_def newline_def)

lemma isspace_blank [simp]: "isspace CHR '' ''"
  by (simp add: isspace_def)

lemma digits_not_space: "c \<in> set (show_nat v) \<Longrightarrow> \<not> isspace c"
  using isdigit_not_space show_nat_digits by blast

lemma line_words_word:
  assumes "w \<noteq> []" "\<forall>c \<in> set w. \<not> isspace c" "isspace c"
  shows "line_words (w @ c # r) = w # line_words (c # r)"
proof -
  have d: "dropWhile isspace (w @ c # r) = w @ c # r" using assms(1,2) by (cases w) auto
  have t: "takeWhile (\<lambda>c. \<not> isspace c) (w @ c # r) = w" using assms(2,3) by (simp add: takeWhile_append2)
  show ?thesis by (subst line_words.simps) (simp add: d t Let_def)
qed

lemma line_words_last: "w \<noteq> [] \<Longrightarrow> \<forall>c \<in> set w. \<not> isspace c \<Longrightarrow> line_words w = [w]"
  by (subst line_words.simps) (cases w; simp add: Let_def takeWhile_eq_all_conv [THEN iffD2])

lemma line_words_space: "isspace c \<Longrightarrow> line_words (c # r) = line_words r"
  by (subst line_words.simps, subst (2) line_words.simps) simp

lemma line_words_blanks: "line_words (replicate n CHR '' '' @ r) = line_words r"
  by (induction n) (simp_all add: line_words_space)

lemma ReadLine_all_line:
  assumes "l \<noteq> []" "\<forall>c \<in> set l. c \<noteq> newline"
  shows "ReadLine_all (l @ newline # r) = line_words l # ReadLine_all r"
proof -
  have "takeWhile (\<lambda>c. c \<noteq> newline) (l @ newline # r) = l" using assms(2) by (simp add: takeWhile_append2)
  then show ?thesis using assms(1) by (subst ReadLine_all.simps) (simp add: Let_def)
qed

lemma stoll_show_nat: "v < 2 ^ 63 \<Longrightarrow> stoll (show_nat v) = Inr (int v)"
  by (simp add: stoll_def scan_number_show_nat)

text \<open>A file of the kernel: a key, the blanks that align the numbers, the number and its unit.\<close>

definition meminfo_line :: "(string \<Rightarrow> nat) \<Rightarrow> string \<times> nat \<Rightarrow> string" where
  "meminfo_line gap e = fst e @ replicate (Suc (gap (fst e))) CHR '' '' @ show_nat (snd e) @ '' kB''"

definition meminfo_text :: "(string \<Rightarrow> nat) \<Rightarrow> (string \<times> nat) list \<Rightarrow> string" where
  "meminfo_text gap es = concat (map (\<lambda>e. meminfo_line gap e @ [newline]) es)"

definition mem_entry :: "string \<times> nat \<Rightarrow> bool" where
  "mem_entry e \<longleftrightarrow> fst e \<noteq> [] \<and> (\<forall>c \<in> set (fst e). \<not> isspace c) \<and> snd e < 2 ^ 63"

definition mem_set :: "string \<times> nat \<Rightarrow> MenInfo \<Rightarrow> MenInfo" where
  "mem_set e m = (case mem_field (fst e) of None \<Rightarrow> m | Some f \<Rightarrow> f (int (snd e)) m)"

lemma line_words_meminfo:
  assumes "mem_entry e"
  shows "line_words (meminfo_line gap e) = [fst e, show_nat (snd e), ''kB'']"
proof -
  have kb: "line_words ''kB'' = [''kB'']" by (rule line_words_last) (simp_all add: isspace_def)
  have v: "line_words (show_nat (snd e) @ CHR '' '' # ''kB'') = [show_nat (snd e), ''kB'']"
    using digits_not_space kb by (subst line_words_word) (auto simp: show_nat_nonempty line_words_space)
  have "line_words (meminfo_line gap e) = fst e # line_words (replicate (Suc (gap (fst e))) CHR '' '' @ show_nat (snd e) @ '' kB'')"
    using assms by (simp add: meminfo_line_def mem_entry_def line_words_word)
  then show ?thesis using v by (simp add: line_words_space line_words_blanks)
qed

lemma ReadLine_all_meminfo:
  assumes "\<forall>e \<in> set es. mem_entry e"
  shows "ReadLine_all (meminfo_text gap es) = map (\<lambda>e. [fst e, show_nat (snd e), ''kB'']) es"
  using assms
proof (induction es)
  case Nil
  show ?case by (simp add: meminfo_text_def ReadLine_all.simps [of "[]"])
next
  case (Cons e es)
  have nl: "\<forall>c \<in> set (meminfo_line gap e). c \<noteq> newline"
    using Cons.prems digits_not_space space_not_newline
    by (auto simp: meminfo_line_def mem_entry_def newline_def)
  have "meminfo_text gap (e # es) = meminfo_line gap e @ newline # meminfo_text gap es" by (simp add: meminfo_text_def)
  then have "ReadLine_all (meminfo_text gap (e # es)) = line_words (meminfo_line gap e) # ReadLine_all (meminfo_text gap es)"
    using ReadLine_all_line [OF _ nl] by (simp add: meminfo_line_def)
  then show ?case using Cons by (simp add: line_words_meminfo)
qed

lemma mem_lines_entries:
  "\<forall>e \<in> set es. mem_entry e \<Longrightarrow> mem_lines (map (\<lambda>e. [fst e, show_nat (snd e), ''kB'']) es) m = Returns (fold mem_set es m)"
  by (induction es arbitrary: m)
    (auto simp: mem_line_def mem_set_def mem_entry_def stoll_show_nat split: option.split)

text \<open>A field keeps the value of the one line that names it.\<close>

lemma mem_set_other:
  "k \<noteq> ''MemTotal:'' \<Longrightarrow> me_total (mem_set (k, v) m) = me_total m"
  "k \<noteq> ''MemAvailable:'' \<Longrightarrow> me_avail (mem_set (k, v) m) = me_avail m"
  by (auto simp: mem_set_def mem_field_def)

lemma mem_set_same:
  "me_total (mem_set (''MemTotal:'', v) m) = int v" "me_avail (mem_set (''MemAvailable:'', v) m) = int v"
  by (simp_all add: mem_set_def mem_field_def)

lemma fold_mem_set:
  "distinct (map fst es) \<Longrightarrow>
     me_total (fold mem_set es m) = (case map_of es ''MemTotal:'' of None \<Rightarrow> me_total m | Some v \<Rightarrow> int v) \<and>
     me_avail (fold mem_set es m) = (case map_of es ''MemAvailable:'' of None \<Rightarrow> me_avail m | Some v \<Rightarrow> int v)"
proof (induction es arbitrary: m)
  case (Cons e es)
  obtain k v where e: "e = (k, v)" by (cases e)
  have "k \<notin> set (map fst es)" "distinct (map fst es)" using Cons.prems e by auto
  then show ?case using Cons.IH [of "mem_set (k, v) m"] mem_set_other [of k v m] mem_set_same [of v m]
    by (auto simp: e split: option.split dest: map_of_SomeD intro: rev_image_eqI)
qed simp


definition sample_meminfo :: "(string \<times> nat) list" where
  "sample_meminfo = [(''MemTotal:'', 16000000), (''MemFree:'', 4000000), (''MemAvailable:'', 12000000), (''HugePages:'', 7), (''Dirty:'', 12)]"


section \<open>Rates\<close>

definition rate_ok :: "fp \<Rightarrow> bool" where
  "rate_ok r \<longleftrightarrow> (\<exists>q. r = Fin q \<and> 0 \<le> q)"

lemma rnd_power_two:
  assumes "1 \<le> prec f" "qmin f \<le> 0" "int n < emax f"
  shows "rnd f (2 ^ n) = Fin (2 ^ n)"
proof -
  have "(2 :: rat) ^ n < 2 powi (int n + 1)" by (simp add: power_int_add)
  then have "ilog2 (2 ^ n) < int n + 1" by (intro ilog2_less) simp_all
  then have fin: "rnd_fin f (2 ^ n) = 2 ^ n"
    using assms by (intro rnd_fin_exact [of _ 1 "int n"]) (simp_all add: qexp_def)
  have top: "(2 :: rat) powi int n < 2 powi emax f" using assms(3) by (intro power_int_strict_increasing) auto
  have "- (2 powi emax f) < (2 :: rat) ^ n" by (rule less_trans [of _ 0]) simp_all
  then show ?thesis using fin top by (simp add: rnd_def Let_def not_le)
qed

lemma f64_power_two: "n < 1024 \<Longrightarrow> f64 (2 ^ n) = Fin (2 ^ n)"
  by (rule rnd_power_two) (simp_all add: binary64_def)

lemma f64_bounded:
  assumes "0 \<le> x" "x \<le> 2 ^ n" "n < 1024"
  shows "\<exists>q. f64 x = Fin q \<and> 0 \<le> q \<and> q \<le> 2 ^ n"
  using f64.rn_mono [OF assms(1)] f64.rn_mono [OF assms(2)] fle_between_Fin [of 0 "f64 x" "2 ^ n"]
  by (simp add: f64_power_two [OF assms(3)])

lemma f64_of_u64_bounded: "\<exists>q. f64_of_u64 x = Fin q \<and> 0 \<le> q \<and> q \<le> 2 ^ 64"
proof -
  have "unat x \<le> 2 ^ 64" using unsigned_less [of x, where 'a = nat] by simp
  then have "of_nat (unat x) \<le> (2 ^ 64 :: rat)" by (metis of_nat_le_iff of_nat_numeral of_nat_power)
  then show ?thesis unfolding f64_of_u64_def by (intro f64_bounded of_nat_0_le_iff) simp_all
qed

lemma counter_delta_bounded: "\<exists>q. disk_counter_delta c p = Fin q \<and> 0 \<le> q \<and> q \<le> 2 ^ 64"
  using f64_of_u64_bounded [of "c - p"] by (auto simp: disk_counter_delta_def)

lemma f64_at_least_one:
  assumes "1 \<le> x" "x \<le> 2 ^ n" "n < 1024"
  shows "\<exists>q. f64 x = Fin q \<and> 1 \<le> q \<and> q \<le> 2 ^ n"
  using f64.rn_mono [OF assms(1)] f64.rn_mono [OF assms(2)] fle_between_Fin [of 1 "f64 x" "2 ^ n"]
  by (simp add: f64_power_two [OF assms(3)])

lemma f64_of_u64_positive:
  assumes "x \<noteq> 0"
  shows "\<exists>q. f64_of_u64 x = Fin q \<and> 1 \<le> q"
proof -
  have "unat x \<noteq> 0" using assms by (simp only: unsigned_eq_0_iff not_False_eq_True)
  then have "(1 :: rat) \<le> of_nat (unat x)" by (simp del: of_nat_unat)
  moreover have "unat x \<le> 2 ^ 64" using unsigned_less [of x, where 'a = nat] by simp
  then have "of_nat (unat x) \<le> (2 ^ 64 :: rat)" by (metis of_nat_le_iff of_nat_numeral of_nat_power)
  ultimately show ?thesis using f64_at_least_one [of "of_nat (unat x)" 64] by (auto simp: f64_of_u64_def)
qed

lemma counter_delta_positive:
  assumes "flt (Fin 0) (disk_counter_delta c p)"
  shows "\<exists>q. disk_counter_delta c p = Fin q \<and> 1 \<le> q"
proof -
  have le: "p \<le> c" and pos: "flt (Fin 0) (f64_of_u64 (c - p))" using assms by (auto simp: disk_counter_delta_def split: if_splits)
  have "c - p \<noteq> 0"
  proof
    assume "c - p = 0"
    then have "f64_of_u64 (c - p) = Fin 0" by (simp only:) (simp add: f64_of_u64_def)
    then show False using pos by simp
  qed
  then show ?thesis using f64_of_u64_positive le by (simp add: disk_counter_delta_def)
qed

text \<open>A bounded amount by a divisor of at least one is a finite rate.\<close>

lemma fdiv_rate:
  assumes "0 \<le> q" "q \<le> 2 ^ 80" "1 \<le> d"
  shows "rate_ok (fdiv f64 (Fin q) (Fin d))"
proof -
  have "q / d \<le> q / 1" using assms by (intro divide_left_mono) auto
  then have "0 \<le> q / d" "q / d \<le> 2 ^ 80" using assms by auto
  then show ?thesis using f64_bounded [of "q / d" 80] assms(3) by (auto simp: rate_ok_def)
qed

lemma fmul_bounded:
  assumes "0 \<le> q" "q \<le> 2 ^ 64"
  shows "\<exists>r. fmul f64 (Fin q) (Fin 512) = Fin r \<and> 0 \<le> r \<and> r \<le> 2 ^ 80"
proof -
  have "q * 512 \<le> 2 ^ 64 * 512" using assms by simp
  then have "q * 512 \<le> 2 ^ 80" by simp
  then show ?thesis using f64_bounded [of "q * 512" 80] assms(1) by simp
qed

text \<open>The clock in seconds: a time that has been kept is a whole number.\<close>

definition disk_inv :: "DiskState \<Rightarrow> bool" where
  "disk_inv s \<longleftrightarrow> (\<forall>name t. lastTime s name = Some t \<longrightarrow> (\<exists>i. t = Fin (of_int i) \<and> 0 \<le> i \<and> i < 2 ^ 53))"

definition disk_rates_ok :: "DiskInfo \<Rightarrow> bool" where
  "disk_rates_ok d \<longleftrightarrow> rate_ok (di_read_bytes_per_sec d) \<and> rate_ok (di_write_bytes_per_sec d) \<and> rate_ok (di_read_iops d)
     \<and> rate_ok (di_write_iops d) \<and> rate_ok (di_avg_read_latency_ms d) \<and> rate_ok (di_avg_write_latency_ms d) \<and> rate_ok (di_util_percent d)"

lemma rate_ok_0 [simp]: "rate_ok (Fin 0)"
  by (simp add: rate_ok_def)

lemma elapsed_whole:
  assumes "0 \<le> i" "i < 2 ^ 53" "0 \<le> j" "j < 2 ^ 53" "flt (Fin 0) (fsub f64 (Fin (of_int i)) (Fin (of_int j)))"
  shows "\<exists>k. fsub f64 (Fin (of_int i)) (Fin (of_int j)) = Fin (of_int k) \<and> 1 \<le> k \<and> k < 2 ^ 53"
proof -
  have "fsub f64 (Fin (of_int i)) (Fin (of_int j)) = Fin (of_int (i - j))"
    using f64_exact [of "i - j"] assms(1-4) by (simp add: fsub_def)
  moreover have "1 \<le> i - j" using calculation assms(5) by simp
  ultimately show ?thesis using assms(2,3) by (intro exI [of _ "i - j"]) simp
qed

text \<open>The three shapes of rate over a whole number of seconds, and a latency.\<close>

lemma disk_rates_over:
  assumes "1 \<le> k" "k < 2 ^ 53"
  shows "rate_ok (fdiv f64 (disk_counter_delta c p) (Fin (of_int k)))"
    and "rate_ok (fdiv f64 (fmul f64 (disk_counter_delta c p) (Fin 512)) (Fin (of_int k)))"
    and "rate_ok (fdiv f64 (disk_counter_delta c p) (fmul f64 (Fin (of_int k)) (Fin 10)))"
proof -
  obtain q where q: "disk_counter_delta c p = Fin q" "0 \<le> q" "q \<le> 2 ^ 64" using counter_delta_bounded by blast
  then have q80: "q \<le> 2 ^ 80" by simp
  have d1: "(1 :: rat) \<le> of_int k" using assms(1) by (metis of_int_1 of_int_le_iff)
  show "rate_ok (fdiv f64 (disk_counter_delta c p) (Fin (of_int k)))" unfolding q(1) by (rule fdiv_rate [OF q(2) q80 d1])
  show "rate_ok (fdiv f64 (fmul f64 (disk_counter_delta c p) (Fin 512)) (Fin (of_int k)))"
    using fmul_bounded [OF q(2,3)] fdiv_rate [OF _ _ d1] unfolding q(1) by metis
  have "k * 10 \<le> 2 ^ 80" using assms(2) by simp
  then have "(of_int k :: rat) * 10 \<le> 2 ^ 80" by (metis of_int_le_iff of_int_mult of_int_numeral of_int_power)
  then obtain ten where ten: "fmul f64 (Fin (of_int k)) (Fin 10) = Fin ten" "1 \<le> ten"
    using f64_at_least_one [of "of_int k * 10" 80] d1 by auto
  show "rate_ok (fdiv f64 (disk_counter_delta c p) (fmul f64 (Fin (of_int k)) (Fin 10)))"
    unfolding q(1) ten(1) by (rule fdiv_rate [OF q(2) q80 ten(2)])
qed

lemma disk_latency:
  assumes "flt (Fin 0) (disk_counter_delta n m)"
  shows "rate_ok (fdiv f64 (disk_counter_delta c p) (disk_counter_delta n m))"
proof -
  obtain d where d: "disk_counter_delta n m = Fin d" "1 \<le> d" using assms counter_delta_positive by blast
  obtain q where q: "disk_counter_delta c p = Fin q" "0 \<le> q" "q \<le> 2 ^ 64" using counter_delta_bounded by blast
  show ?thesis unfolding d(1) q(1) using d(2) q(2,3) by (intro fdiv_rate) auto
qed

lemma disk_reading_rates:
  assumes "disk_inv s" "0 \<le> now" "now < 2 ^ 53"
  shows "disk_rates_ok (disk_reading (Fin (of_int now)) s name cur)"
proof -
  define t where "t = (case lastTime s name of None \<Rightarrow> Fin 0 | Some t \<Rightarrow> t)"
  define dt where "dt = fsub f64 (Fin (of_int now)) t"
  show ?thesis
  proof (cases "lastSamples s name = None \<or> \<not> flt (Fin 0) dt")
    case True
    then show ?thesis
      by (auto simp: disk_reading_def disk_rates_ok_def default_DiskInfo_def dt_def t_def Let_def split: option.split)
  next
    case False
    then obtain p where p: "lastSamples s name = Some p" and dt: "flt (Fin 0) dt" by auto
    have "\<exists>j. t = Fin (of_int j) \<and> 0 \<le> j \<and> j < 2 ^ 53"
      using assms(1) by (cases "lastTime s name") (auto simp: disk_inv_def t_def intro: exI [of _ 0])
    then obtain k where k: "dt = Fin (of_int k)" "1 \<le> k" "k < 2 ^ 53"
      using elapsed_whole [OF assms(2,3)] dt by (auto simp: dt_def)
    show ?thesis
      unfolding disk_reading_def p Let_def t_def [symmetric] dt_def [symmetric]
      using dt by (simp add: disk_rates_ok_def k disk_rates_over [OF k(2,3)] disk_latency del: fmul.simps)
  qed
qed

text \<open>A counter that is lower than the one remembered was started again and counts as no activity.\<close>

definition resets_quiet :: "DiskSample \<Rightarrow> DiskSample \<Rightarrow> DiskInfo \<Rightarrow> bool" where
  "resets_quiet p cur d \<longleftrightarrow>
     (ds_reads cur < ds_reads p \<longrightarrow> di_read_iops d = Fin 0 \<and> di_avg_read_latency_ms d = Fin 0)
     \<and> (ds_writes cur < ds_writes p \<longrightarrow> di_write_iops d = Fin 0 \<and> di_avg_write_latency_ms d = Fin 0)
     \<and> (ds_sectors_read cur < ds_sectors_read p \<longrightarrow> di_read_bytes_per_sec d = Fin 0)
     \<and> (ds_sectors_written cur < ds_sectors_written p \<longrightarrow> di_write_bytes_per_sec d = Fin 0)
     \<and> (ds_io_time_ms cur < ds_io_time_ms p \<longrightarrow> di_util_percent d = Fin 0)"

lemma disk_reset_quiet:
  assumes "disk_inv s" "0 \<le> now" "now < 2 ^ 53" "lastSamples s name = Some p"
  shows "resets_quiet p cur (disk_reading (Fin (of_int now)) s name cur)"
proof -
  define t where "t = (case lastTime s name of None \<Rightarrow> Fin 0 | Some t \<Rightarrow> t)"
  define dt where "dt = fsub f64 (Fin (of_int now)) t"
  have less: "disk_counter_delta c q = Fin 0" if "c < q" for c q :: u64 using that by (auto simp: disk_counter_delta_def)
  show ?thesis
  proof (cases "flt (Fin 0) dt")
    case False
    then show ?thesis
      unfolding disk_reading_def assms(4) Let_def t_def [symmetric] dt_def [symmetric]
      by (simp add: resets_quiet_def default_DiskInfo_def)
  next
    case True
    have "\<exists>j. t = Fin (of_int j) \<and> 0 \<le> j \<and> j < 2 ^ 53"
      using assms(1) by (cases "lastTime s name") (auto simp: disk_inv_def t_def intro: exI [of _ 0])
    then obtain k where k: "dt = Fin (of_int k)" "1 \<le> k" "k < 2 ^ 53"
      using elapsed_whole [OF assms(2,3)] True by (auto simp: dt_def)
    have "k * 10 \<le> 2 ^ 80" using k(3) by simp
    then have "(of_int k :: rat) * 10 \<le> 2 ^ 80" by (metis of_int_le_iff of_int_mult of_int_numeral of_int_power)
    moreover have "(1 :: rat) \<le> of_int k" using k(2) by (metis of_int_1 of_int_le_iff)
    ultimately obtain ten where ten: "fmul f64 (Fin (of_int k)) (Fin 10) = Fin ten" "1 \<le> ten"
      using f64_at_least_one [of "of_int k * 10" 80] by auto
    then show ?thesis
      unfolding disk_reading_def assms(4) Let_def t_def [symmetric] dt_def [symmetric]
      using True k by (simp add: resets_quiet_def less k(1))
  qed
qed

lemma disk_step_inv:
  assumes "disk_inv s" "0 \<le> now" "now < 2 ^ 53" "\<forall>d \<in> set out. disk_rates_ok d"
    and "disk_step (Fin (of_int now)) line (out, s) = (out', s')"
  shows "disk_inv s' \<and> (\<forall>d \<in> set out'. disk_rates_ok d)"
  using assms disk_reading_rates [OF assms(1-3)]
  by (auto simp: disk_step_def disk_inv_def split: option.splits prod.splits if_splits)

lemma disk_fold_inv:
  "disk_inv s \<Longrightarrow> \<forall>d \<in> set out. disk_rates_ok d \<Longrightarrow> 0 \<le> now \<Longrightarrow> now < 2 ^ 53 \<Longrightarrow>
     fold (disk_step (Fin (of_int now))) ls (out, s) = (out', s') \<Longrightarrow> disk_inv s' \<and> (\<forall>d \<in> set out'. disk_rates_ok d)"
proof (induction ls arbitrary: out s)
  case (Cons l ls)
  obtain o1 s1 where l: "disk_step (Fin (of_int now)) l (out, s) = (o1, s1)" by (cases "disk_step (Fin (of_int now)) l (out, s)")
  have "disk_inv s1 \<and> (\<forall>d \<in> set o1. disk_rates_ok d)" by (rule disk_step_inv [OF Cons.prems(1,3,4,2) l])
  then show ?case using Cons.IH [of s1 o1] Cons.prems l by simp
qed auto

text \<open>Rounds of the monitor, each with its file and its clock, into an empty message each.\<close>

definition disk_start :: DiskState where
  "disk_start = \<lparr>lastSamples = Map.empty, lastTime = Map.empty\<rparr>"

fun disk_rounds :: "(string option \<times> int) list \<Rightarrow> DiskState \<Rightarrow> DiskInfo list" where
  "disk_rounds [] s = []"
| "disk_rounds (r # rs) s =
     (case DiskMonitor_updateOnce (fst r) (snd r) default_MonitorInfo s of (info, s) \<Rightarrow> m_disk_info info @ disk_rounds rs s)"

lemma disk_rounds_inv:
  "disk_inv s \<Longrightarrow> \<forall>r \<in> set rs. 0 \<le> snd r \<and> snd r < 2 ^ 53 \<Longrightarrow> \<forall>d \<in> set (disk_rounds rs s). disk_rates_ok d"
proof (induction rs arbitrary: s)
  case (Cons r rs)
  let ?ls = "case fst r of None \<Rightarrow> [] | Some t \<Rightarrow> get_lines t"
  obtain out s1 where f: "fold (disk_step (f64_of_int (snd r))) ?ls ([], s) = (out, s1)" by (cases "fold (disk_step (f64_of_int (snd r))) ?ls ([], s)")
  have now: "0 \<le> snd r" "snd r < 2 ^ 53" using Cons.prems(2) by simp_all
  have "f64_of_int (snd r) = Fin (of_int (snd r))" using now by (intro f64_of_int_exact) simp
  then have "disk_inv s1 \<and> (\<forall>d \<in> set out. disk_rates_ok d)"
    using f by (intro disk_fold_inv [OF Cons.prems(1) _ now]) simp_all
  then show ?case using Cons.IH [of s1] Cons.prems(2) f
    by (auto simp: DiskMonitor_updateOnce_def default_MonitorInfo_def)
qed simp

text \<open>
  C29: Whatever \<open>/proc/diskstats\<close> holds, round after round (counters that were reset, disks
  that come and go, lines that cannot be read), and whatever the wall clock does, jumps back
  included, as long as it counts seconds a double holds exactly: every rate that the disk
  monitor reports is a finite number and not negative, and a counter that has gone down
  since the last round is reported as no activity.
\<close>

theorem disk_rates_sound:
  assumes "\<forall>r \<in> set rs. 0 \<le> snd r \<and> snd r < 2 ^ 53"
  shows "list_all disk_rates_ok (disk_rounds rs disk_start)
    \<and> (\<forall>s now name p cur. disk_inv s \<longrightarrow> 0 \<le> now \<longrightarrow> now < 2 ^ 53 \<longrightarrow> lastSamples s name = Some p \<longrightarrow>
         resets_quiet p cur (disk_reading (Fin (of_int now)) s name cur))"
  using disk_reset_quiet disk_rounds_inv [of disk_start rs] assms unfolding list_all_iff
  by (simp add: disk_inv_def disk_start_def)

definition sample_disk :: "nat \<Rightarrow> string" where
  "sample_disk n = ''8 0 sda '' @ show_nat n @ '' 0 2048 7 4 0 64 9 0 12 30'' @ [newline]"

theorem disk_rates_sound_witness:
  "list_all disk_rates_ok
     (disk_rounds [(Some (sample_disk 90), 1000), (None, 1001), (Some (sample_disk 95), 1010), (Some (sample_disk 3), 900)] disk_start)"
  using disk_rates_sound [of "[(Some (sample_disk 90), 1000), (None, 1001), (Some (sample_disk 95), 1010), (Some (sample_disk 3), 900)]"]
  by simp

section \<open>A counter that starts again\<close>

lemma wrapped_difference:
  fixes a b :: u64
  assumes "a < b" "unat (b - a) \<le> 2 ^ 63"
  shows "(2 ^ 63 :: rat) \<le> of_nat (unat (a - b))"
proof -
  have "unat a < unat b" using assms(1) by (simp add: word_less_nat_alt)
  then have "unat (a - b) = 2 ^ 64 - unat (b - a)"
    using unat_sub_if' [of a b] unat_sub_if' [of b a] unsigned_less [of b, where 'a = nat] by simp
  then have "2 ^ 63 \<le> unat (a - b)" using assms(2) by simp
  then show ?thesis by (metis of_nat_le_iff of_nat_numeral of_nat_power)
qed

lemma one_second: "seconds_of 1000000000 = Fin 1"
  using f64_of_int_exact [of 1000000000] by (simp add: seconds_of_def)

text \<open>
  C34: The network monitor subtracts the counters as they are, so when an interface has started
  to count again from a lower value, the difference wraps around: one second later the report
  is of at least \<open>2 ^ 53\<close> kilobytes per second, whatever was transferred.
\<close>

theorem net_reset_wraps:
  assumes "nt_rcv_bytes st < nt_rcv_bytes p" "unat (nt_rcv_bytes p - nt_rcv_bytes st) \<le> 2 ^ 63"
  shows "fle (Fin (2 ^ 53)) (ni_rcv_rate (net_reading (t + 1000000000) (Some \<lparr>nc_stat = p, nc_timepoint = t\<rparr>) st))"
proof -
  let ?d = "f64_of_u64 (nt_rcv_bytes st - nt_rcv_bytes p)"
  have "fle (Fin (2 ^ 63)) ?d"
    using f64.rn_mono [OF wrapped_difference [OF assms]] f64_power_two [of 63] by (simp add: f64_of_u64_def del: of_nat_unat)
  then have "fle (fdiv f64 (Fin (2 ^ 63)) (Fin 1024)) (fdiv f64 ?d (Fin 1024))" by (intro f64.fdiv_mono) simp_all
  then have "fle (fdiv f64 (fdiv f64 (Fin (2 ^ 63)) (Fin 1024)) (Fin 1)) (fdiv f64 (fdiv f64 ?d (Fin 1024)) (Fin 1))"
    by (rule f64.fdiv_mono [rotated]) simp
  then have r: "fle (Fin (2 ^ 53)) (fdiv f64 (fdiv f64 ?d (Fin 1024)) (Fin 1))"
    using f64_power_two [of 53] by simp
  have "fle (Fin (2 ^ 53)) (to_f32 x)" if "fle (Fin (2 ^ 53)) x" for x
    using that f32.rn_mono [of "2 ^ 53"] rnd_power_two [of binary32 53] by (cases x) (simp_all add: binary32_def)
  from this [OF r] show ?thesis by (simp add: net_reading_def net_rates_def one_second Let_def)
qed

definition sample_net :: "u64 \<Rightarrow> NetStat" where
  "sample_net rcv = \<lparr>nt_name = ''eth0'', nt_rcv_bytes = rcv, nt_rcv_packets = 9, nt_snd_bytes = 700, nt_snd_packets = 5,
     nt_err_in = 0, nt_err_out = 0, nt_drop_in = 0, nt_drop_out = 0\<rparr>"

theorem net_reset_wraps_witness:
  "fle (Fin (2 ^ 53)) (ni_rcv_rate (net_reading (0 + 1000000000) (Some \<lparr>nc_stat = sample_net 5000, nc_timepoint = 0\<rparr>) (sample_net 40)))"
  by (rule net_reset_wraps) (simp_all add: sample_net_def)

end
