(* ===== verification/Worker_Db.thy ===== *)
theory Worker_Db
  imports Worker_Proc
begin

text \<open>
  The worker's monitors of MySQL and Redis instances (\<open>MysqlMonitor\<close>, \<open>RedisMonitor\<close>): their
  configuration from the environment, and one round over the configured instances. The client
  libraries are parameters: what a connection attempt gives, and what a connected server
  answers. The lemmas show that a list of targets written in the documented form reads back
  and that every round reports every target, with percentages between 0 and 100.
\<close>

section \<open>Helpers both monitors have\<close>

definition getEnv :: "(string \<rightharpoonup> string) \<Rightarrow> string \<Rightarrow> string \<Rightarrow> string" where
  "getEnv env name fallback = (case env name of None \<Rightarrow> fallback | Some value \<Rightarrow> value)"

definition isTruthy :: "string \<Rightarrow> bool" where
  "isTruthy value = (map tolower value \<in> {''1'', ''true'', ''yes'', ''on''})"

definition isOn :: "string \<Rightarrow> bool" where
  "isOn value = (map tolower value \<in> {''on'', ''1'', ''true'', ''yes''})"

definition parsePort :: "string \<Rightarrow> u32 \<Rightarrow> u32" where
  "parsePort value fallback =
     (if value = [] then fallback
      else case stoi value of Inl _ \<Rightarrow> fallback | Inr parsed \<Rightarrow> if 0 < parsed then word_of_int parsed else fallback)"

definition parseTimeout :: "string \<Rightarrow> u32 \<Rightarrow> u32" where
  "parseTimeout value fallback =
     (if value = [] then fallback
      else case stoi value of Inl _ \<Rightarrow> fallback | Inr parsed \<Rightarrow> if 0 < parsed then word_of_int parsed else fallback)"

definition toUInt64 :: "string \<Rightarrow> u64" where
  "toUInt64 value = (if value = [] then 0 else case stoull value of Inl _ \<Rightarrow> 0 | Inr v \<Rightarrow> v)"

definition toDouble :: "string \<Rightarrow> fp" where
  "toDouble value = (if value = [] then Fin 0 else case stod value of Inl _ \<Rightarrow> Fin 0 | Inr v \<Rightarrow> v)"

section \<open>MySQL\<close>

record MysqlTarget =
  mt_instance :: string
  mt_host :: string
  mt_port :: u32
  mt_user :: string
  mt_password :: string
  mt_role_hint :: string

definition default_MysqlTarget :: MysqlTarget where
  "default_MysqlTarget = \<lparr>mt_instance = [], mt_host = ''127.0.0.1'', mt_port = 3306, mt_user = [], mt_password = [], mt_role_hint = ''unknown''\<rparr>"

record MysqlMonitor =
  mm_enabled :: bool
  mm_timeoutSeconds :: u32
  mm_targets :: "MysqlTarget list"

definition host_port :: "string \<Rightarrow> u32 \<Rightarrow> string" where
  "host_port host port = host @ '':'' @ show_nat (unat port)"

text \<open>An entry \<open>instance|host|port|user|password|role\<close>; what is missing keeps its default.\<close>

definition mysql_target :: "string \<Rightarrow> MysqlTarget" where
  "mysql_target entry =
     (let parts = split_text (CHR ''|'') entry; n = length parts; t = default_MysqlTarget;
          t = (if 0 < n then t\<lparr>mt_instance := parts ! 0\<rparr> else t);
          t = (if 1 < n \<and> parts ! 1 \<noteq> [] then t\<lparr>mt_host := parts ! 1\<rparr> else t);
          t = (if 2 < n then t\<lparr>mt_port := parsePort (parts ! 2) (mt_port t)\<rparr> else t);
          t = (if 3 < n then t\<lparr>mt_user := parts ! 3\<rparr> else t);
          t = (if 4 < n then t\<lparr>mt_password := parts ! 4\<rparr> else t);
          t = (if 5 < n \<and> parts ! 5 \<noteq> [] then t\<lparr>mt_role_hint := parts ! 5\<rparr> else t)
      in if mt_instance t = [] then t\<lparr>mt_instance := host_port (mt_host t) (mt_port t)\<rparr> else t)"

definition mysql_env_target :: "(string \<rightharpoonup> string) \<Rightarrow> MysqlTarget" where
  "mysql_env_target env =
     (let t = default_MysqlTarget; host = getEnv env ''MYSQL_MONITOR_HOST'' (mt_host t);
          port = parsePort (getEnv env ''MYSQL_MONITOR_PORT'' []) (mt_port t)
      in \<lparr>mt_instance = getEnv env ''MYSQL_MONITOR_INSTANCE'' (host_port host port), mt_host = host, mt_port = port,
          mt_user = getEnv env ''MYSQL_MONITOR_USER'' [], mt_password = getEnv env ''MYSQL_MONITOR_PASSWORD'' [],
          mt_role_hint = getEnv env ''MYSQL_MONITOR_ROLE'' (mt_role_hint t)\<rparr>)"

definition MysqlMonitor_new :: "(string \<rightharpoonup> string) \<Rightarrow> MysqlMonitor" where
  "MysqlMonitor_new env =
     (let targetConfig = getEnv env ''MYSQL_MONITOR_TARGETS'' [];
          enabled = (isTruthy (getEnv env ''MYSQL_MONITOR_ENABLED'' []) \<or> targetConfig \<noteq> [])
      in \<lparr>mm_enabled = enabled, mm_timeoutSeconds = parseTimeout (getEnv env ''MYSQL_MONITOR_TIMEOUT_SECONDS'' []) 3,
          mm_targets =
            (if targetConfig \<noteq> [] then map mysql_target (filter (\<lambda>entry. entry \<noteq> []) (split_text (CHR '';'') targetConfig))
             else if enabled then [mysql_env_target env] else [])\<rparr>)"

text \<open>
  A connected server: its version, and what it answers to a statement, \<open>None\<close> when the
  statement fails or has no result: the names of the columns and the rows, NULL cells being
  \<open>None\<close>. No statement is sent twice on a connection.
\<close>

record mysql_result =
  mr_fields :: "string option list"
  mr_rows :: "string option list list"

record mysql_server =
  ms_version :: "string option"
  ms_query :: "string \<Rightarrow> mysql_result option"

definition name_value :: "string option list \<Rightarrow> (string \<rightharpoonup> string) \<Rightarrow> (string \<rightharpoonup> string)" where
  "name_value row values = (case row of Some k # Some v # _ \<Rightarrow> values(k \<mapsto> v) | _ \<Rightarrow> values)"

definition queryNameValue :: "mysql_server \<Rightarrow> string \<Rightarrow> (string \<rightharpoonup> string)" where
  "queryNameValue conn sql =
     (case ms_query conn sql of None \<Rightarrow> Map.empty | Some result \<Rightarrow> fold name_value (mr_rows result) Map.empty)"

record ReplicationStatus =
  rs_configured :: bool
  rs_running :: bool
  rs_lagSeconds :: fp

definition no_replication :: ReplicationStatus where
  "no_replication = \<lparr>rs_configured = False, rs_running = False, rs_lagSeconds = Fin 0\<rparr>"

definition field_values :: "string option list \<Rightarrow> string option list \<Rightarrow> (string \<rightharpoonup> string)" where
  "field_values cols row =
     fold (\<lambda>(f, c) values. case (f, c) of (Some k, Some v) \<Rightarrow> values(k \<mapsto> v) | _ \<Rightarrow> values) (zip cols row) Map.empty"

definition parseResult :: "mysql_result \<Rightarrow> ReplicationStatus" where
  "parseResult result =
     (case mr_rows result of [] \<Rightarrow> no_replication
      | row # _ \<Rightarrow>
          (let values = field_values (mr_fields result) row;
               val = (\<lambda>k. case values k of None \<Rightarrow> [] | Some v \<Rightarrow> v);
               either = (\<lambda>a b. if values a \<noteq> None then val a else val b)
           in \<lparr>rs_configured = True,
               rs_running = (either ''Replica_IO_Running'' ''Slave_IO_Running'' = ''Yes''
                 \<and> either ''Replica_SQL_Running'' ''Slave_SQL_Running'' = ''Yes''),
               rs_lagSeconds =
                 (if values ''Seconds_Behind_Source'' \<noteq> None then toDouble (val ''Seconds_Behind_Source'')
                  else if values ''Seconds_Behind_Master'' \<noteq> None then toDouble (val ''Seconds_Behind_Master'') else Fin 0)\<rparr>))"

definition queryReplicationStatus :: "mysql_server \<Rightarrow> ReplicationStatus" where
  "queryReplicationStatus conn =
     (case ms_query conn ''SHOW REPLICA STATUS'' of Some result \<Rightarrow> parseResult result
      | None \<Rightarrow> (case ms_query conn ''SHOW SLAVE STATUS'' of Some result \<Rightarrow> parseResult result | None \<Rightarrow> no_replication))"

definition inferRole :: "(string \<rightharpoonup> string) \<Rightarrow> string \<Rightarrow> string" where
  "inferRole variables roleHint =
     (if roleHint \<noteq> [] \<and> roleHint \<noteq> ''unknown'' then roleHint
      else if (case variables ''read_only'' of None \<Rightarrow> False | Some v \<Rightarrow> isOn v)
        \<or> (case variables ''super_read_only'' of None \<Rightarrow> False | Some v \<Rightarrow> isOn v) then ''replica''
      else ''primary'')"

text \<open>The two statements: a list of names in quotes.\<close>

definition in_names :: "string list \<Rightarrow> string" where
  "in_names names = ''('' @ concat (map (\<lambda>(i, n). (if i = 0 then [] else '','') @ [CHR 0x27] @ n @ [CHR 0x27]) (enumerate 0 names)) @ '')''"

definition variables_sql :: string where
  "variables_sql = ''SHOW GLOBAL VARIABLES WHERE Variable_name IN '' @ in_names [''max_connections'', ''read_only'', ''super_read_only'']"

definition status_sql :: string where
  "status_sql = ''SHOW GLOBAL STATUS WHERE Variable_name IN '' @ in_names
     [''Threads_connected'', ''Threads_running'', ''Aborted_connects'', ''Questions'', ''Com_select'', ''Com_insert'', ''Com_update'',
      ''Com_delete'', ''Com_commit'', ''Com_rollback'', ''Slow_queries'', ''Innodb_buffer_pool_read_requests'', ''Innodb_buffer_pool_reads'',
      ''Innodb_row_lock_waits'', ''Innodb_row_lock_time_avg'']"

definition u64_at :: "(string \<rightharpoonup> string) \<Rightarrow> string \<Rightarrow> u64" where
  "u64_at values key = (case values key of None \<Rightarrow> 0 | Some v \<Rightarrow> toUInt64 v)"

definition double_at :: "(string \<rightharpoonup> string) \<Rightarrow> string \<Rightarrow> fp" where
  "double_at values key = (case values key of None \<Rightarrow> Fin 0 | Some v \<Rightarrow> toDouble v)"

definition hit_percent :: "u64 \<Rightarrow> u64 \<Rightarrow> fp" where
  "hit_percent requests reads =
     (if 0 < requests
      then let hitPercent = fmul f64 (fsub f64 (Fin 1) (fdiv f64 (f64_of_u64 reads) (f64_of_u64 requests))) (Fin 100)
           in if flt hitPercent (Fin 0) then Fin 0 else hitPercent
      else Fin 0)"

definition mysql_unreached :: "MysqlTarget \<Rightarrow> MysqlInfo" where
  "mysql_unreached target = default_MysqlInfo\<lparr>my_instance := mt_instance target, my_host := mt_host target, my_port := mt_port target,
     my_role := (if mt_role_hint target = [] then ''unknown'' else mt_role_hint target)\<rparr>"

definition mysql_reached :: "MysqlTarget \<Rightarrow> mysql_server \<Rightarrow> MysqlInfo" where
  "mysql_reached target conn =
     (let variables = queryNameValue conn variables_sql; status = queryNameValue conn status_sql;
          requests = u64_at status ''Innodb_buffer_pool_read_requests''; reads = u64_at status ''Innodb_buffer_pool_reads'';
          replication = queryReplicationStatus conn
      in (mysql_unreached target)\<lparr>my_up := True, my_version := (case ms_version conn of None \<Rightarrow> [] | Some v \<Rightarrow> v),
           my_role := inferRole variables (mt_role_hint target), my_max_connections := u64_at variables ''max_connections'',
           my_threads_connected := u64_at status ''Threads_connected'', my_threads_running := u64_at status ''Threads_running'',
           my_aborted_connects := u64_at status ''Aborted_connects'', my_questions := u64_at status ''Questions'',
           my_com_select := u64_at status ''Com_select'', my_com_insert := u64_at status ''Com_insert'',
           my_com_update := u64_at status ''Com_update'', my_com_delete := u64_at status ''Com_delete'',
           my_com_commit := u64_at status ''Com_commit'', my_com_rollback := u64_at status ''Com_rollback'',
           my_slow_queries := u64_at status ''Slow_queries'',
           my_innodb_buffer_pool_read_requests := requests, my_innodb_buffer_pool_reads := reads,
           my_innodb_row_lock_waits := u64_at status ''Innodb_row_lock_waits'',
           my_innodb_row_lock_time_avg_ms := double_at status ''Innodb_row_lock_time_avg'',
           my_innodb_buffer_pool_hit_percent := hit_percent requests reads,
           my_replication_configured := rs_configured replication, my_replication_running := rs_running replication,
           my_replication_lag_seconds := rs_lagSeconds replication\<rparr>)"

text \<open>\<open>connect\<close> gives no server when \<open>mysql_init\<close> or \<open>mysql_real_connect\<close> fails.\<close>

definition mysql_report :: "(MysqlTarget \<Rightarrow> mysql_server option) \<Rightarrow> MysqlTarget \<Rightarrow> MysqlInfo" where
  "mysql_report connect target = (case connect target of None \<Rightarrow> mysql_unreached target | Some conn \<Rightarrow> mysql_reached target conn)"

definition MysqlMonitor_updateOnce ::
  "(u32 \<Rightarrow> MysqlTarget \<Rightarrow> mysql_server option) \<Rightarrow> MysqlMonitor \<Rightarrow> MonitorInfo option \<Rightarrow> MonitorInfo option" where
  "MysqlMonitor_updateOnce connect s info =
     (case info of None \<Rightarrow> None
      | Some i \<Rightarrow>
          Some (if \<not> mm_enabled s then i
                else i\<lparr>m_mysql_info := m_mysql_info i @ map (mysql_report (connect (mm_timeoutSeconds s))) (mm_targets s)\<rparr>))"

section \<open>Redis\<close>

record RedisTarget =
  rt_instance :: string
  rt_host :: string
  rt_port :: u32
  rt_password :: string

definition default_RedisTarget :: RedisTarget where
  "default_RedisTarget = \<lparr>rt_instance = [], rt_host = ''127.0.0.1'', rt_port = 6379, rt_password = []\<rparr>"

record RedisMonitor =
  rm_enabled :: bool
  rm_timeoutSeconds :: u32
  rm_targets :: "RedisTarget list"

definition redis_target :: "string \<Rightarrow> RedisTarget" where
  "redis_target entry =
     (let parts = split_text (CHR ''|'') entry; n = length parts; t = default_RedisTarget;
          t = (if 0 < n then t\<lparr>rt_instance := parts ! 0\<rparr> else t);
          t = (if 1 < n \<and> parts ! 1 \<noteq> [] then t\<lparr>rt_host := parts ! 1\<rparr> else t);
          t = (if 2 < n then t\<lparr>rt_port := parsePort (parts ! 2) (rt_port t)\<rparr> else t);
          t = (if 3 < n then t\<lparr>rt_password := parts ! 3\<rparr> else t)
      in if rt_instance t = [] then t\<lparr>rt_instance := host_port (rt_host t) (rt_port t)\<rparr> else t)"

definition redis_env_target :: "(string \<rightharpoonup> string) \<Rightarrow> RedisTarget" where
  "redis_env_target env =
     (let t = default_RedisTarget; host = getEnv env ''REDIS_MONITOR_HOST'' (rt_host t);
          port = parsePort (getEnv env ''REDIS_MONITOR_PORT'' []) (rt_port t)
      in \<lparr>rt_instance = getEnv env ''REDIS_MONITOR_INSTANCE'' (host_port host port), rt_host = host, rt_port = port,
          rt_password = getEnv env ''REDIS_MONITOR_PASSWORD'' []\<rparr>)"

definition RedisMonitor_new :: "(string \<rightharpoonup> string) \<Rightarrow> RedisMonitor" where
  "RedisMonitor_new env =
     (let targetConfig = getEnv env ''REDIS_MONITOR_TARGETS'' [];
          enabled = (isTruthy (getEnv env ''REDIS_MONITOR_ENABLED'' []) \<or> targetConfig \<noteq> [])
      in \<lparr>rm_enabled = enabled, rm_timeoutSeconds = parseTimeout (getEnv env ''REDIS_MONITOR_TIMEOUT_SECONDS'' []) 3,
          rm_targets =
            (if targetConfig \<noteq> [] then map redis_target (filter (\<lambda>entry. entry \<noteq> []) (split_text (CHR '';'') targetConfig))
             else if enabled then [redis_env_target env] else [])\<rparr>)"

text \<open>The text of \<open>INFO\<close>: lines \<open>key:value\<close>, with carriage returns, comments and empty lines.\<close>

definition info_line :: "string \<Rightarrow> (string \<rightharpoonup> string) \<Rightarrow> (string \<rightharpoonup> string)" where
  "info_line line values =
     (let line = (if line \<noteq> [] \<and> last line = CHR 0x0D then butlast line else line)
      in if line = [] \<or> hd line = CHR ''#'' then values
         else if CHR '':'' \<notin> set line then values
         else values(takeWhile (\<lambda>c. c \<noteq> CHR '':'') line \<mapsto> tl (dropWhile (\<lambda>c. c \<noteq> CHR '':'') line)))"

definition parseInfo :: "string \<Rightarrow> (string \<rightharpoonup> string)" where
  "parseInfo text = fold info_line (get_lines text) Map.empty"

definition infoUInt64 :: "(string \<rightharpoonup> string) \<Rightarrow> string \<Rightarrow> u64" where
  "infoUInt64 values key = (case values key of None \<Rightarrow> 0 | Some v \<Rightarrow> toUInt64 v)"

definition infoDouble :: "(string \<rightharpoonup> string) \<Rightarrow> string \<Rightarrow> fp" where
  "infoDouble values key = (case values key of None \<Rightarrow> Fin 0 | Some v \<Rightarrow> toDouble v)"

definition infoString :: "(string \<rightharpoonup> string) \<Rightarrow> string \<Rightarrow> string \<Rightarrow> string" where
  "infoString values key fallback = (case values key of None \<Rightarrow> fallback | Some v \<Rightarrow> v)"

text \<open>A percentage of two counters, 0 when there is nothing to take it of.\<close>

definition u64_percent :: "u64 \<Rightarrow> u64 \<Rightarrow> fp" where
  "u64_percent part whole =
     (if 0 < whole then fmul f64 (fdiv f64 (f64_of_u64 part) (f64_of_u64 whole)) (Fin 100) else Fin 0)"

definition redis_unreached :: "RedisTarget \<Rightarrow> RedisInfo" where
  "redis_unreached target =
     default_RedisInfo\<lparr>rd_instance := rt_instance target, rd_host := rt_host target, rd_port := rt_port target, rd_role := ''unknown''\<rparr>"

text \<open>\<open>SLOWLOG LEN\<close> is \<open>None\<close> when the command throws.\<close>

definition redis_reached :: "RedisTarget \<Rightarrow> string \<Rightarrow> int option \<Rightarrow> RedisInfo" where
  "redis_reached target infoText slowlog =
     (let values = parseInfo infoText; n = infoUInt64 values; d = infoDouble values;
          hits = n ''keyspace_hits''; misses = n ''keyspace_misses''; used = n ''used_memory''; most = n ''maxmemory'';
          role = infoString values ''role'' ''unknown''
      in (redis_unreached target)\<lparr>rd_up := True, rd_version := infoString values ''redis_version'' [], rd_role := role,
           rd_uptime_in_seconds := n ''uptime_in_seconds'', rd_connected_clients := n ''connected_clients'',
           rd_blocked_clients := n ''blocked_clients'', rd_maxclients := n ''maxclients'',
           rd_used_memory := used, rd_maxmemory := most, rd_mem_fragmentation_ratio := d ''mem_fragmentation_ratio'',
           rd_total_commands_processed := n ''total_commands_processed'',
           rd_instantaneous_ops_per_sec := d ''instantaneous_ops_per_sec'',
           rd_keyspace_hits := hits, rd_keyspace_misses := misses,
           rd_expired_keys := n ''expired_keys'', rd_evicted_keys := n ''evicted_keys'',
           rd_rejected_connections := n ''rejected_connections'', rd_total_error_replies := n ''total_error_replies'',
           rd_total_net_input_bytes := n ''total_net_input_bytes'', rd_total_net_output_bytes := n ''total_net_output_bytes'',
           rd_connected_slaves := n ''connected_slaves'', rd_master_last_io_seconds_ago := d ''master_last_io_seconds_ago'',
           rd_memory_used_percent := u64_percent used most, rd_keyspace_hit_percent := u64_percent hits (hits + misses),
           rd_replication_configured := (role = ''master'' \<or> role = ''slave''),
           rd_master_link_up := (role = ''master'' \<or> infoString values ''master_link_status'' [] = ''up''),
           rd_slowlog_len := (case slowlog of None \<Rightarrow> 0 | Some k \<Rightarrow> word_of_int k)\<rparr>)"

text \<open>\<open>connect\<close> gives nothing when the connection or \<open>INFO\<close> throws; its timeout is in milliseconds.\<close>

definition redis_report :: "(RedisTarget \<Rightarrow> (string \<times> int option) option) \<Rightarrow> RedisTarget \<Rightarrow> RedisInfo" where
  "redis_report connect target =
     (case connect target of None \<Rightarrow> redis_unreached target | Some (infoText, slowlog) \<Rightarrow> redis_reached target infoText slowlog)"

definition RedisMonitor_updateOnce ::
  "(u32 \<Rightarrow> RedisTarget \<Rightarrow> (string \<times> int option) option) \<Rightarrow> RedisMonitor \<Rightarrow> MonitorInfo option \<Rightarrow> MonitorInfo option" where
  "RedisMonitor_updateOnce connect s info =
     (case info of None \<Rightarrow> None
      | Some i \<Rightarrow>
          Some (if \<not> rm_enabled s then i
                else i\<lparr>m_redis_info := m_redis_info i @ map (redis_report (connect (rm_timeoutSeconds s * 1000))) (rm_targets s)\<rparr>))"

section \<open>A list of targets reads back\<close>

lemma split_text_piece:
  assumes "d \<notin> set w"
  shows "split_text d (w @ d # r) = w # split_text d r"
proof -
  have "takeWhile (\<lambda>c. c \<noteq> d) (w @ d # r) = w" using assms by (induction w) auto
  then show ?thesis by (subst split_text.simps) simp
qed

lemma split_text_Nil [simp]: "split_text d [] = []"
  by (subst split_text.simps) simp

lemma split_text_last: "d \<notin> set w \<Longrightarrow> w \<noteq> [] \<Longrightarrow> split_text d w = [w]"
proof -
  assume "d \<notin> set w" "w \<noteq> []"
  then have tw: "takeWhile (\<lambda>c. c \<noteq> d) w = w" by (auto simp: takeWhile_eq_all_conv)
  show ?thesis using \<open>w \<noteq> []\<close> by (subst split_text.simps) (simp add: tw)
qed

fun join :: "char \<Rightarrow> string list \<Rightarrow> string" where
  "join d [] = []"
| "join d [w] = w"
| "join d (w # v # ws) = w @ d # join d (v # ws)"

lemma split_join:
  "ws \<noteq> [] \<Longrightarrow> last ws \<noteq> [] \<Longrightarrow> \<forall>w \<in> set ws. d \<notin> set w \<Longrightarrow> split_text d (join d ws) = ws"
  by (induction d ws rule: join.induct) (auto simp: split_text_piece split_text_last)

lemma join_nonempty: "ws \<noteq> [] \<Longrightarrow> last ws \<noteq> [] \<Longrightarrow> join d ws \<noteq> []"
  by (induction d ws rule: join.induct) auto

lemma join_without: "c \<noteq> d \<Longrightarrow> \<forall>w \<in> set ws. c \<notin> set w \<Longrightarrow> c \<notin> set (join d ws)"
  by (induction d ws rule: join.induct) auto

lemma stoi_show_nat: "n < 2 ^ 31 \<Longrightarrow> stoi (show_nat n) = Inr (int n)"
  by (simp add: stoi_def scan_number_show_nat)

lemma parsePort_show_nat:
  assumes "0 < unat p" "unat p < 2 ^ 31"
  shows "parsePort (show_nat (unat p)) d = p"
proof -
  have "(word_of_int (int (unat p)) :: u32) = p" by simp
  then show ?thesis using assms by (simp add: parsePort_def stoi_show_nat show_nat_nonempty del: of_nat_unat)
qed

lemma show_nat_without: "\<not> isdigit c \<Longrightarrow> c \<notin> set (show_nat n)"
  using show_nat_digits by blast

definition plain :: "string \<Rightarrow> bool" where
  "plain w \<longleftrightarrow> CHR ''|'' \<notin> set w \<and> CHR '';'' \<notin> set w"

definition mysql_entry :: "MysqlTarget \<Rightarrow> string" where
  "mysql_entry t = join (CHR ''|'') [mt_instance t, mt_host t, show_nat (unat (mt_port t)), mt_user t, mt_password t, mt_role_hint t]"

definition writable :: "MysqlTarget \<Rightarrow> bool" where
  "writable t \<longleftrightarrow> mt_instance t \<noteq> [] \<and> mt_host t \<noteq> [] \<and> mt_role_hint t \<noteq> [] \<and> 0 < unat (mt_port t) \<and> unat (mt_port t) < 2 ^ 31
     \<and> plain (mt_instance t) \<and> plain (mt_host t) \<and> plain (mt_user t) \<and> plain (mt_password t) \<and> plain (mt_role_hint t)"

lemma mysql_target_entry:
  assumes "writable t"
  shows "mysql_target (mysql_entry t) = t"
proof -
  have "CHR ''|'' \<notin> set (show_nat (unat (mt_port t)))" by (rule show_nat_without) (simp add: isdigit_def)
  then have "split_text (CHR ''|'') (mysql_entry t)
      = [mt_instance t, mt_host t, show_nat (unat (mt_port t)), mt_user t, mt_password t, mt_role_hint t]"
    using assms unfolding mysql_entry_def by (intro split_join) (auto simp: writable_def plain_def)
  then show ?thesis using assms
    by (simp add: mysql_target_def default_MysqlTarget_def writable_def parsePort_show_nat Let_def)
qed

lemma mysql_entry_plain: "writable t \<Longrightarrow> CHR '';'' \<notin> set (mysql_entry t) \<and> mysql_entry t \<noteq> []"
  using show_nat_without [of "CHR '';''"] unfolding mysql_entry_def
  by (intro conjI join_without join_nonempty) (auto simp: writable_def plain_def isdigit_def)

text \<open>
  C30: A list of targets written as \<open>instance|host|port|user|password|role\<close>, separated by
  semicolons, is what the monitor then watches: every target in its place, every field as it
  was written, however empty the user and the password; and the monitor is switched on.
\<close>

theorem mysql_targets_read_back:
  assumes "ts \<noteq> []" "\<forall>t \<in> set ts. writable t" "env ''MYSQL_MONITOR_TARGETS'' = Some (join (CHR '';'') (map mysql_entry ts))"
  shows "mm_targets (MysqlMonitor_new env) = ts \<and> mm_enabled (MysqlMonitor_new env)"
proof -
  have last: "last (map mysql_entry ts) \<noteq> []" using assms(1,2) mysql_entry_plain by (simp add: last_map)
  have ne: "join (CHR '';'') (map mysql_entry ts) \<noteq> []" using assms(1) last by (intro join_nonempty) simp_all
  have "split_text (CHR '';'') (join (CHR '';'') (map mysql_entry ts)) = map mysql_entry ts"
    using assms(1,2) last mysql_entry_plain by (intro split_join) auto
  moreover have "filter (\<lambda>e. e \<noteq> []) (map mysql_entry ts) = map mysql_entry ts"
    using assms(2) mysql_entry_plain by (intro filter_True) auto
  moreover have "map (mysql_target \<circ> mysql_entry) ts = ts"
    using assms(2) mysql_target_entry by (intro map_idI) auto
  ultimately show ?thesis using assms(3) ne by (simp add: MysqlMonitor_new_def getEnv_def Let_def)
qed

definition sample_targets :: "MysqlTarget list" where
  "sample_targets =
    [\<lparr>mt_instance = ''orders'', mt_host = ''10.0.0.5'', mt_port = 3307, mt_user = ''ro'', mt_password = [], mt_role_hint = ''primary''\<rparr>,
     \<lparr>mt_instance = ''copy'', mt_host = ''db2'', mt_port = 3306, mt_user = [], mt_password = ''s:/'', mt_role_hint = ''replica''\<rparr>]"

theorem mysql_targets_read_back_witness:
  "mm_targets (MysqlMonitor_new [''MYSQL_MONITOR_TARGETS'' \<mapsto> join (CHR '';'') (map mysql_entry sample_targets)]) = sample_targets
     \<and> mm_enabled (MysqlMonitor_new [''MYSQL_MONITOR_TARGETS'' \<mapsto> join (CHR '';'') (map mysql_entry sample_targets)])"
  by (rule mysql_targets_read_back) (simp_all add: sample_targets_def writable_def plain_def)

section \<open>Every target is reported\<close>

text \<open>What both monitors promise of a round: the report of a target has its name and says whether it was reached.\<close>

locale target_monitor =
  fixes report :: "'t \<Rightarrow> 'i" and target_name :: "'t \<Rightarrow> string" and reached :: "'t \<Rightarrow> bool"
    and info_name :: "'i \<Rightarrow> string" and info_up :: "'i \<Rightarrow> bool"
  assumes name_kept: "info_name (report t) = target_name t" and up_iff: "info_up (report t) \<longleftrightarrow> reached t"
begin

lemma round_names: "map info_name (map report ts) = map target_name ts"
  by (simp add: name_kept)

lemma round_up: "map info_up (map report ts) = map reached ts"
  by (simp add: up_iff)

lemma down_targets: "map info_name (filter (\<lambda>i. \<not> info_up i) (map report ts)) = map target_name (filter (\<lambda>t. \<not> reached t) ts)"
  by (induction ts) (simp_all add: name_kept up_iff)

end

interpretation my_targets: target_monitor "mysql_report connect" mt_instance "\<lambda>t. connect t \<noteq> None" my_instance my_up
  for connect
  by unfold_locales
    (auto simp: mysql_report_def mysql_unreached_def mysql_reached_def default_MysqlInfo_def Let_def split: option.splits)

interpretation rd_targets: target_monitor "redis_report connect" rt_instance "\<lambda>t. connect t \<noteq> None" rd_instance rd_up
  for connect
  by unfold_locales
    (auto simp: redis_report_def redis_unreached_def redis_reached_def default_RedisInfo_def Let_def split: option.splits prod.splits)

lemma hit_percent_bounds: "fle (Fin 0) (hit_percent requests reads) \<and> fle (hit_percent requests reads) (Fin 100)"
proof (cases "0 < requests")
  case True
  obtain d where d: "f64_of_u64 requests = Fin d" "1 \<le> d" using f64_of_u64_positive [of requests] True by auto
  obtain a where a: "f64_of_u64 reads = Fin a" "0 \<le> a" using f64_of_u64_bounded by blast
  let ?q = "fdiv f64 (Fin a) (Fin d)"
  let ?h = "fmul f64 (fsub f64 (Fin 1) ?q) (Fin 100)"
  have "fle (Fin 0) ?q" using a(2) d(2) f64.rn_nonneg [of "a / d"] by simp
  then have "fle (fsub f64 (Fin 1) ?q) (fsub f64 (Fin 1) (Fin 0))" by (rule f64.fsub_antimono)
  then have le1: "fle (fsub f64 (Fin 1) ?q) (Fin 1)" by (simp add: fsub_def)
  have "fle (fmul f64 (Fin 100) (fsub f64 (Fin 1) ?q)) (fmul f64 (Fin 100) (Fin 1))" using le1 by (intro f64.fmul_mono) simp_all
  moreover have "fmul f64 (Fin 100) x = fmul f64 x (Fin 100)" for x by (cases x) (simp_all add: mult.commute)
  ultimately have top: "fle ?h (Fin 100)" by (simp add: f64.rn_numeral)
  then have "fle (Fin 0) ?h \<or> flt ?h (Fin 0)" by (auto simp: flt_def dest: fle_number)
  then show ?thesis using True top by (auto simp: hit_percent_def d(1) a(1) Let_def)
qed (simp add: hit_percent_def)

text \<open>
  Whatever the servers do, refuse the connection, fail a statement or answer with any text
  at all, a round reports every target once, in the order of the configuration and under its
  own name, up exactly if it was reached, and with a buffer pool hit rate from 0 to 100.
\<close>

theorem mysql_round_reports:
  assumes "mm_enabled s"
  shows "\<exists>out. MysqlMonitor_updateOnce connect s (Some i) = Some (i\<lparr>m_mysql_info := m_mysql_info i @ out\<rparr>)
    \<and> map my_instance out = map mt_instance (mm_targets s)
    \<and> map my_up out = map (\<lambda>t. connect (mm_timeoutSeconds s) t \<noteq> None) (mm_targets s)
    \<and> list_all (\<lambda>r. fle (Fin 0) (my_innodb_buffer_pool_hit_percent r) \<and> fle (my_innodb_buffer_pool_hit_percent r) (Fin 100)) out"
proof -
  let ?c = "connect (mm_timeoutSeconds s)"
  have "fle (Fin 0) (my_innodb_buffer_pool_hit_percent (mysql_report ?c t)) \<and> fle (my_innodb_buffer_pool_hit_percent (mysql_report ?c t)) (Fin 100)" for t
    using hit_percent_bounds
    by (cases "?c t") (simp_all add: mysql_report_def mysql_unreached_def mysql_reached_def default_MysqlInfo_def Let_def)
  then show ?thesis using assms my_targets.round_names [of ?c] my_targets.round_up [of ?c]
    by (intro exI [of _ "map (mysql_report ?c) (mm_targets s)"]) (simp add: MysqlMonitor_updateOnce_def list_all_iff)
qed

definition sample_mysql :: MysqlMonitor where
  "sample_mysql = \<lparr>mm_enabled = True, mm_timeoutSeconds = 3, mm_targets = sample_targets\<rparr>"

definition sample_server :: "u32 \<Rightarrow> MysqlTarget \<Rightarrow> mysql_server option" where
  "sample_server t m = (if mt_port m = 3306 then None else Some \<lparr>ms_version = Some ''8.4'', ms_query = (\<lambda>_. None)\<rparr>)"

theorem mysql_round_reports_witness:
  "\<exists>out. MysqlMonitor_updateOnce sample_server sample_mysql (Some default_MonitorInfo) = Some (default_MonitorInfo\<lparr>m_mysql_info := out\<rparr>)
    \<and> map my_instance out = [''orders'', ''copy''] \<and> map my_up out = [True, False]"
  using mysql_round_reports [of sample_mysql sample_server default_MonitorInfo]
  by (force simp: sample_mysql_def sample_targets_def sample_server_def default_MonitorInfo_def)

text \<open>The same for Redis; the instances to look after are the ones that were not reached.\<close>

lemma redis_round_reports:
  assumes "rm_enabled s"
  shows "\<exists>out. RedisMonitor_updateOnce connect s (Some i) = Some (i\<lparr>m_redis_info := m_redis_info i @ out\<rparr>)
    \<and> map rd_instance out = map rt_instance (rm_targets s)
    \<and> map rd_instance (filter (\<lambda>r. \<not> rd_up r) out)
        = map rt_instance (filter (\<lambda>t. \<not> connect (rm_timeoutSeconds s * 1000) t \<noteq> None) (rm_targets s))"
  using assms rd_targets.round_names rd_targets.down_targets
  by (intro exI [of _ "map (redis_report (connect (rm_timeoutSeconds s * 1000))) (rm_targets s)"])
    (simp only: RedisMonitor_updateOnce_def option.case if_False not_True_eq_False simp_thms)

lemma u64_percent_bounds:
  assumes "part \<le> whole"
  shows "fle (Fin 0) (u64_percent part whole) \<and> fle (u64_percent part whole) (Fin 100)"
proof (cases "0 < whole")
  case True
  obtain d where d: "f64_of_u64 whole = Fin d" "1 \<le> d" using f64_of_u64_positive [of whole] True by auto
  obtain a where a: "f64_of_u64 part = Fin a" "0 \<le> a" using f64_of_u64_bounded by blast
  have "of_nat (unat part) \<le> (of_nat (unat whole) :: rat)" using assms by (simp add: word_le_nat_alt del: of_nat_unat)
  then have "a \<le> d" using f64.rn_mono [of "of_nat (unat part)" "of_nat (unat whole)"] a(1) d(1) by (simp add: f64_of_u64_def)
  then show ?thesis using percent_bounds [OF a(2), of d] d True by (simp add: u64_percent_def a(1))
qed (simp add: u64_percent_def)

text \<open>
  C1: A server whose hits and misses fit a 64-bit sum together is reported with a hit rate from
  0 to 100, whatever else its \<open>INFO\<close> text holds.
\<close>

theorem redis_hit_rate_bounded:
  assumes "unat (infoUInt64 (parseInfo text) ''keyspace_hits'') + unat (infoUInt64 (parseInfo text) ''keyspace_misses'') < 2 ^ 64"
  shows "fle (Fin 0) (rd_keyspace_hit_percent (redis_reached target text slowlog))
    \<and> fle (rd_keyspace_hit_percent (redis_reached target text slowlog)) (Fin 100)"
proof -
  let ?h = "infoUInt64 (parseInfo text) ''keyspace_hits''"
  let ?m = "infoUInt64 (parseInfo text) ''keyspace_misses''"
  have "?h \<le> ?h + ?m" using assms unat_add_lem [of ?h ?m] by (simp add: word_le_nat_alt)
  then show ?thesis using u64_percent_bounds by (simp add: redis_reached_def Let_def)
qed

definition sample_info :: string where
  "sample_info = (''# Stats'' @ [CHR 0x0D]) @ newline # (''keyspace_hits:90'' @ [CHR 0x0D]) @ newline # (''keyspace_misses:10'' @ [CHR 0x0D]) @ newline # []"

lemma parse_sample_info: "parseInfo sample_info = [''keyspace_hits'' \<mapsto> ''90'', ''keyspace_misses'' \<mapsto> ''10'']"
proof -
  have "get_lines sample_info = [''# Stats'' @ [CHR 0x0D], ''keyspace_hits:90'' @ [CHR 0x0D], ''keyspace_misses:10'' @ [CHR 0x0D]]"
    unfolding sample_info_def by (subst split_text_piece, simp add: newline_def)+ simp
  then show ?thesis by (simp add: parseInfo_def info_line_def)
qed

lemma sample_counts: "toUInt64 ''90'' = 90" "toUInt64 ''10'' = 10"
  by (simp_all add: toUInt64_def stoull_def scan_number_def scan_sign_def isspace_def isdigit_def digits_val_def)

theorem redis_hit_rate_bounded_witness:
  "unat (infoUInt64 (parseInfo sample_info) ''keyspace_hits'') = 90
    \<and> fle (Fin 0) (rd_keyspace_hit_percent (redis_reached default_RedisTarget sample_info None))
    \<and> fle (rd_keyspace_hit_percent (redis_reached default_RedisTarget sample_info None)) (Fin 100)"
  using redis_hit_rate_bounded [of sample_info default_RedisTarget None]
  by (simp add: parse_sample_info infoUInt64_def sample_counts)

end
