(* ===== verification/Worker_Push.thy ===== *)
theory Worker_Push
  imports Worker_Cpu Worker_Db Ebpf_Net Grpc_Server
begin

text \<open>
  The worker as a whole (\<open>MetricCollector\<close>, \<open>MonitorPusher\<close>, \<open>main\<close>, \<open>GrpcManagerImpl\<close>): its
  command line, a round of all the monitors into one message, the push of that message, the
  loop that repeats it, and the worker's own service. The lemmas show that the loop keeps its
  rhythm and ends with its flag, and that a push reaches the manager's service with the
  worker's own identity.
\<close>

section \<open>The collector\<close>

text \<open>The monitors behind \<open>MonitorInter\<close>, each with its members.\<close>

datatype monitor =
    CpuLoadM
  | CpuStatM CpuStatMonitor
  | CpuSoftIrqM CpuSoftIrqMonitor
  | MemM
  | NetEbpfM NetEbpfMonitor
  | NetM NetMonitor
  | DiskM DiskState
  | MysqlM MysqlMonitor
  | RedisM RedisMonitor
  | HostInfoM HostInfoMonitor

text \<open>
  What a round finds outside the program: the mapped devices, the files, the clocks, the map of
  the kernel program, the database servers and the host, and the memory that the code reads
  before it has written it.
\<close>

record 'm surroundings =
  at_load_map :: "cpu_stat list option"
  at_stat_map :: "cpu_stat list option"
  at_irq_map :: "softirq_stat list option"
  at_steady :: int
  at_time :: int
  at_loadavg :: "string option"
  at_meminfo :: "string option"
  at_net_dev :: "string option"
  at_diskstats :: "string option"
  at_mem_junk :: MenInfo
  at_net_junk :: "string \<Rightarrow> NetStat"
  at_dummy :: u64
  at_bpf_ops :: "'m bpf_ops"
  at_bpf_map :: 'm
  at_indextoname :: "u32 \<Rightarrow> string option"
  at_mysql :: "u32 \<Rightarrow> MysqlTarget \<Rightarrow> mysql_server option"
  at_redis :: "u32 \<Rightarrow> RedisTarget \<Rightarrow> (string \<times> int option) option"
  at_hostname :: "string option"
  at_ifaddrs :: "ifaddr list option"

text \<open>
  \<open>monitor->updateOnce (monitorInfo)\<close>. The kernel's map holds at most \<open>max_entries\<close> keys, so
  that the walk over it never uses up one unit of fuel more than that (\<open>walk_all\<close>).
\<close>

fun monitor_updateOnce :: "'m surroundings \<Rightarrow> MonitorInfo \<Rightarrow> monitor \<Rightarrow> (MonitorInfo \<times> monitor) run" where
  "monitor_updateOnce r info CpuLoadM = Returns (CpuLoadMonitor_updateOnce (at_load_map r) (at_loadavg r) info, CpuLoadM)"
| "monitor_updateOnce r info (CpuStatM s) =
     (case CpuStatMonitor_updateOnce (at_stat_map r) info s of (info, s) \<Rightarrow> Returns (info, CpuStatM s))"
| "monitor_updateOnce r info (CpuSoftIrqM s) =
     (case CpuSoftIrqMonitor_updateOnce (at_irq_map r) (at_steady r) info s of None \<Rightarrow> Undefined
      | Some (info, s) \<Rightarrow> Returns (info, CpuSoftIrqM s))"
| "monitor_updateOnce r info MemM =
     (case MemMonitor_updateOnce (at_mem_junk r) (at_meminfo r) info of Returns info \<Rightarrow> Returns (info, MemM)
      | Throws \<Rightarrow> Throws | Undefined \<Rightarrow> Undefined)"
| "monitor_updateOnce r info (NetEbpfM s) =
     (case NetEbpfMonitor_updateOnce (at_bpf_ops r) (at_indextoname r) (at_steady r) (at_bpf_map r) (Suc max_entries) s info of
        None \<Rightarrow> Undefined | Some (s, info) \<Rightarrow> Returns (info, NetEbpfM s))"
| "monitor_updateOnce r info (NetM s) =
     (case NetMonitor_updateOnce (at_dummy r) (at_net_junk r) (at_net_dev r) (at_steady r) info s of (info, s) \<Rightarrow> Returns (info, NetM s))"
| "monitor_updateOnce r info (DiskM s) =
     (case DiskMonitor_updateOnce (at_diskstats r) (at_time r) info s of (info, s) \<Rightarrow> Returns (info, DiskM s))"
| "monitor_updateOnce r info (MysqlM s) =
     (case MysqlMonitor_updateOnce (at_mysql r) s (Some info) of None \<Rightarrow> Undefined | Some info \<Rightarrow> Returns (info, MysqlM s))"
| "monitor_updateOnce r info (RedisM s) =
     (case RedisMonitor_updateOnce (at_redis r) s (Some info) of None \<Rightarrow> Undefined | Some info \<Rightarrow> Returns (info, RedisM s))"
| "monitor_updateOnce r info (HostInfoM s) =
     (case HostInfoMonitor_updateOnce (at_hostname r) (at_ifaddrs r) (Some info) s of
        (None, s) \<Rightarrow> Undefined | (Some info, s) \<Rightarrow> Returns (info, HostInfoM s))"

fun monitor_stop :: "monitor \<Rightarrow> (u32 \<times> attach_point) list \<Rightarrow> monitor \<times> (u32 \<times> attach_point) list" where
  "monitor_stop (NetEbpfM s) hooks = (case cleanupEbpf s hooks of (s, hooks) \<Rightarrow> (NetEbpfM s, hooks))"
| "monitor_stop mo hooks = (mo, hooks)"

record MetricCollector =
  mc_monitors :: "monitor list"
  mc_hostname :: string

text \<open>The options of the build: whether the eBPF, MySQL and Redis monitors are compiled in.\<close>

record build =
  enable_ebpf :: bool
  enable_mysql :: bool
  enable_redis :: bool

definition MetricCollector_new ::
  "build \<Rightarrow> (string \<rightharpoonup> string) \<Rightarrow> tc_system \<Rightarrow> int \<Rightarrow> DiskState \<Rightarrow> string option \<Rightarrow> MetricCollector" where
  "MetricCollector_new b env sys now disk gethostname =
     \<lparr>mc_monitors =
        [CpuLoadM, CpuStatM Map.empty, CpuSoftIrqM Map.empty, MemM]
          @ [if enable_ebpf b then NetEbpfM (fst (NetEbpfMonitor_new sys now)) else NetM Map.empty]
          @ [DiskM disk]
          @ (if enable_mysql b then [MysqlM (MysqlMonitor_new env)] else [])
          @ (if enable_redis b then [RedisM (RedisMonitor_new env)] else [])
          @ [HostInfoM None],
      mc_hostname = (case gethostname of None \<Rightarrow> ''unknown'' | Some h \<Rightarrow> h)\<rparr>"

fun update_all :: "'m surroundings \<Rightarrow> MonitorInfo \<Rightarrow> monitor list \<Rightarrow> (MonitorInfo \<times> monitor list) run" where
  "update_all r info [] = Returns (info, [])"
| "update_all r info (mo # ms) =
     (case monitor_updateOnce r info mo of Throws \<Rightarrow> Throws | Undefined \<Rightarrow> Undefined
      | Returns (info, mo) \<Rightarrow>
          (case update_all r info ms of Throws \<Rightarrow> Throws | Undefined \<Rightarrow> Undefined
           | Returns (info, ms) \<Rightarrow> Returns (info, mo # ms)))"

definition collectAll :: "'m surroundings \<Rightarrow> MonitorInfo \<Rightarrow> MetricCollector \<Rightarrow> (MonitorInfo \<times> MetricCollector) run" where
  "collectAll r info c =
     (case update_all r (info\<lparr>m_name := mc_hostname c\<rparr>) (mc_monitors c) of Throws \<Rightarrow> Throws | Undefined \<Rightarrow> Undefined
      | Returns (info, ms) \<Rightarrow> Returns (info, c\<lparr>mc_monitors := ms\<rparr>))"

definition MetricCollector_stop :: "MetricCollector \<Rightarrow> (u32 \<times> attach_point) list \<Rightarrow> (u32 \<times> attach_point) list" where
  "MetricCollector_stop c hooks = fold (\<lambda>mo h. snd (monitor_stop mo h)) (mc_monitors c) hooks"

section \<open>The pusher\<close>

record MonitorPusher =
  pu_managerAddress :: string
  pu_workerID :: string
  pu_workerToken :: string
  pu_intervalSeconds :: int
  pu_collector :: MetricCollector

definition push_metadata :: "MonitorPusher \<Rightarrow> (string \<times> string) list" where
  "push_metadata p =
     (if pu_workerID p \<noteq> [] then [(''x-monitor-worker-id'', pu_workerID p)] else [])
       @ (if pu_workerToken p \<noteq> [] then [(''x-monitor-worker-token'', pu_workerToken p)] else [])"

text \<open>
  \<open>stub\<close> is the call of the manager's service with its metadata, \<open>None\<close> being a status that
  the library makes up for a call that failed on the way or in the handler.
\<close>

definition pushOnce ::
  "((string \<times> string) list \<Rightarrow> MonitorInfo \<Rightarrow> 's \<Rightarrow> grpc_Status option \<times> 's) \<Rightarrow> 'm surroundings \<Rightarrow> MonitorPusher \<Rightarrow> 's
     \<Rightarrow> (bool \<times> MonitorPusher \<times> 's) run" where
  "pushOnce stub r p s =
     (case collectAll r default_MonitorInfo (pu_collector p) of Throws \<Rightarrow> Throws | Undefined \<Rightarrow> Undefined
      | Returns (info, c) \<Rightarrow>
          (case stub (push_metadata p) info s of (status, s) \<Rightarrow>
             Returns (case status of None \<Rightarrow> False | Some st \<Rightarrow> ok st, p\<lparr>pu_collector := c\<rparr>, s)))"

text \<open>
  The loop of the thread, as the values it reads from \<open>running_\<close> one after the other, and
  what it does: a push, or a second of sleep. It is observed as far as the list goes.
\<close>

datatype tick = Pushes | Sleeps

fun sleeping :: "nat \<Rightarrow> bool list \<Rightarrow> nat \<times> bool list" where
  "sleeping 0 rs = (0, rs)"
| "sleeping (Suc n) [] = (0, [])"
| "sleeping (Suc n) (go # rs) =
     (if go then (case sleeping n rs of (k, rs) \<Rightarrow> (Suc k, rs)) else (0, rs))"

lemma sleeping_shorter: "length (snd (sleeping n rs)) \<le> length rs"
  by (induction n rs rule: sleeping.induct) (auto split: prod.split)

function pushLoop :: "int \<Rightarrow> bool list \<Rightarrow> tick list" where
  "pushLoop intervalSeconds [] = []"
| "pushLoop intervalSeconds (go # rs) =
     (if go
      then Pushes # replicate (fst (sleeping (nat intervalSeconds) rs)) Sleeps @ pushLoop intervalSeconds (snd (sleeping (nat intervalSeconds) rs))
      else [])"
  by pat_completeness auto
termination
  by (relation "measure (length \<circ> snd)") (auto simp: le_imp_less_Suc sleeping_shorter)

text \<open>The flag and the thread (whether there is one to join), as \<open>start\<close> and \<open>stop\<close> change them.\<close>

record PushThread =
  pt_running :: bool
  pt_joinable :: bool

definition MonitorPusher_start :: "PushThread \<Rightarrow> PushThread" where
  "MonitorPusher_start s = (if pt_running s then s else \<lparr>pt_running = True, pt_joinable = True\<rparr>)"

definition MonitorPusher_stop :: "PushThread \<Rightarrow> PushThread" where
  "MonitorPusher_stop s = s\<lparr>pt_running := False, pt_joinable := False\<rparr>"

section \<open>The command line\<close>

definition kDefaultPushInterval :: int where
  "kDefaultPushInterval = 10"

text \<open>\<open>argv\<close> without the program's name; \<open>std::stoi\<close> throws out of \<open>main\<close>.\<close>

definition worker_main :: "build \<Rightarrow> (string \<rightharpoonup> string) \<Rightarrow> tc_system \<Rightarrow> int \<Rightarrow> DiskState \<Rightarrow> string option \<Rightarrow> string list \<Rightarrow> MonitorPusher run" where
  "worker_main b env sys now disk gethostname argv =
     (let n = length argv; managerAddress = (if 0 < n then argv ! 0 else ''localhost:50051'');
          interval = (if 1 < n then stoi (argv ! 1) else Inr kDefaultPushInterval);
          envOr = (\<lambda>name. case env name of None \<Rightarrow> [] | Some v \<Rightarrow> v);
          workerID = (if 2 < n then argv ! 2 else envOr ''WORKER_ID'');
          workerToken = (if 3 < n then argv ! 3 else envOr ''WORKER_TOKEN'')
      in case interval of Inl e \<Rightarrow> Throws
         | Inr i \<Rightarrow>
             Returns \<lparr>pu_managerAddress = managerAddress, pu_workerID = workerID, pu_workerToken = workerToken,
               pu_intervalSeconds = (if i \<le> 0 then kDefaultPushInterval else i),
               pu_collector = MetricCollector_new b env sys now disk gethostname\<rparr>)"

text \<open>The worker's own service, which is not part of the default build.\<close>

definition worker_GetMonitorInfo :: "'m surroundings \<Rightarrow> MonitorInfo \<Rightarrow> MetricCollector \<Rightarrow> (grpc_Status \<times> MonitorInfo \<times> MetricCollector) run" where
  "worker_GetMonitorInfo r response c =
     (case collectAll r response c of Throws \<Rightarrow> Throws | Undefined \<Rightarrow> Undefined
      | Returns (response, c) \<Rightarrow> Returns (status_OK, response, c))"

section \<open>The rhythm of the loop\<close>

lemma sleeping_flag:
  "sleeping k (replicate n True @ replicate m False)
     = (min k n, if k \<le> n then replicate (n - k) True @ replicate m False else replicate (m - 1) False)"
proof (induction k arbitrary: n)
  case (Suc k)
  then show ?case by (cases n; cases m) auto
qed simp

lemma pushLoop_stopped [simp]: "pushLoop i (replicate m False) = []"
  by (cases m) auto

lemma rhythm_shift:
  "map (\<lambda>k. if k mod p = 0 then Pushes else Sleeps) [p..<p + n] = map (\<lambda>k. if k mod p = 0 then Pushes else Sleeps) [0..<n]"
  by (rule nth_equalityI) (simp_all add: mod_simps)

lemma rhythm_first: "n \<le> i \<Longrightarrow> map (\<lambda>k. if k mod Suc i = 0 then Pushes else Sleeps) [0..<Suc n] = Pushes # replicate n Sleeps"
  by (rule nth_equalityI) (auto simp: nth_Cons simp del: upt_Suc split: nat.split)

text \<open>
  C31: The loop pushes at once and then after every \<open>intervalSeconds\<close> seconds of sleep. Whenever
  \<open>running_\<close> is cleared, the loop does nothing more than what it was doing, so it ends within
  the second; nothing is pushed after that.
\<close>

theorem push_loop_rhythm:
  assumes "0 < i"
  shows "pushLoop i (replicate n True @ replicate m False) = map (\<lambda>k. if k mod Suc (nat i) = 0 then Pushes else Sleeps) [0..<n]"
proof (induction n rule: less_induct)
  case (less n)
  show ?case
  proof (cases n)
    case (Suc k)
    show ?thesis
    proof (cases "nat i \<le> k")
      case True
      let ?f = "\<lambda>k. if k mod Suc (nat i) = 0 then Pushes else Sleeps"
      have "[0..<n] = [0..<Suc (nat i)] @ [Suc (nat i)..<Suc (nat i) + (k - nat i)]"
        using True Suc upt_add_eq_append [of 0 "Suc (nat i)" "k - nat i"] by simp
      then have "map ?f [0..<n] = Pushes # replicate (nat i) Sleeps @ map ?f [0..<k - nat i]"
        using rhythm_first [of "nat i" "nat i"] rhythm_shift [of "Suc (nat i)" "k - nat i"] by (simp del: upt_Suc)
      then show ?thesis using less.IH [of "k - nat i"] Suc True by (simp add: sleeping_flag del: upt_Suc)
    next
      case False
      then show ?thesis using Suc rhythm_first [of k "nat i"] by (simp add: sleeping_flag del: upt_Suc)
    qed
  qed simp
qed

theorem push_loop_rhythm_witness:
  "pushLoop 2 (replicate 5 True @ replicate 3 False) = [Pushes, Sleeps, Sleeps, Pushes, Sleeps]"
  using push_loop_rhythm [of 2 5 3] by (simp add: upt_rec)

section \<open>A push reaches the manager\<close>

text \<open>The manager's service at the other end of the channel, at the time \<open>now\<close>.\<close>

definition manager_stub ::
  "('q, 'w ManagerTask) mpmc_ops \<Rightarrow> (string \<Rightarrow> u64) \<Rightarrow> int \<Rightarrow> (string \<times> string) list \<Rightarrow> MonitorInfo
     \<Rightarrow> ('q, 'w) GrpcServerImpl \<times> 'w \<Rightarrow> grpc_Status option \<times> ('q, 'w) GrpcServerImpl \<times> 'w" where
  "manager_stub ops hash now metadata info gw = SetMonitorInfo ops hash now (Some metadata) (Some info) (fst gw) (snd gw)"

text \<open>The identity the manager reads is the one the worker was started with.\<close>

lemma identity_of_push: "identity_of (Some (push_metadata p)) = \<lparr>worker_id = pu_workerID p, worker_token = pu_workerToken p\<rparr>"
  by (simp add: identity_of_def metadataValue_def push_metadata_def)

text \<open>The monitor of the host comes last, and what it remembers is a host with a name.\<close>

definition host_last :: "MetricCollector \<Rightarrow> bool" where
  "host_last c \<longleftrightarrow> (\<exists>ms s. mc_monitors c = ms @ [HostInfoM s] \<and> (\<forall>h ip. s = Some (h, ip) \<longrightarrow> h \<noteq> []))"

lemma host_last_new: "host_last (MetricCollector_new b env sys now disk gethostname)"
proof -
  have "\<exists>ms. mc_monitors (MetricCollector_new b env sys now disk gethostname) = ms @ [HostInfoM None]"
    by (simp add: MetricCollector_new_def)
  then show ?thesis unfolding host_last_def by blast
qed

lemma update_all_snoc:
  "update_all r info (ms @ [mo]) = Returns (info', ms') \<Longrightarrow>
     \<exists>i1 ms1 mo1. update_all r info ms = Returns (i1, ms1) \<and> monitor_updateOnce r i1 mo = Returns (info', mo1) \<and> ms' = ms1 @ [mo1]"
proof (induction ms arbitrary: info ms')
  case (Cons a ms)
  then show ?case by (fastforce split: run.splits prod.splits)
qed (auto split: run.splits prod.splits)

lemma collectAll_host:
  assumes "collectAll r info c = Returns (info', c')" "host_last c" "at_hostname r \<noteq> Some []"
  shows "host_last c' \<and> resolveHostID info' \<noteq> []"
proof -
  obtain ms s where m: "mc_monitors c = ms @ [HostInfoM s]" and named: "\<And>h ip. s = Some (h, ip) \<Longrightarrow> h \<noteq> []"
    using assms(2) unfolding host_last_def by blast
  obtain ms' where u: "update_all r (info\<lparr>m_name := mc_hostname c\<rparr>) (mc_monitors c) = Returns (info', ms')"
    and c': "c' = c\<lparr>mc_monitors := ms'\<rparr>"
    using assms(1) by (auto simp: collectAll_def split: run.splits prod.splits)
  obtain i1 ms1 mo1 where last: "monitor_updateOnce r i1 (HostInfoM s) = Returns (info', mo1)" "ms' = ms1 @ [mo1]"
    using update_all_snoc u unfolding m by blast
  obtain h ip where hi: "info' = i1\<lparr>m_host_info := Some \<lparr>hi_hostname = h, hi_ip_address = ip\<rparr>\<rparr>" "mo1 = HostInfoM (Some (h, ip))"
    and h: "(h, ip) = (case s of None \<Rightarrow> (getHostname (at_hostname r), getPrimaryIpAddress (at_ifaddrs r)) | Some x \<Rightarrow> x)"
    using last(1) by (auto simp: HostInfoMonitor_updateOnce_def split: prod.splits)
  have "h \<noteq> []" using h named assms(3) by (cases s) (auto simp: getHostname_def split: option.splits)
  then show ?thesis using hi last(2) c' by (auto simp: host_last_def resolveHostID_def Let_def)
qed

lemma push_accepted:
  assumes "host_last (pu_collector p)" "pu_workerID p \<noteq> []" "at_hostname r \<noteq> Some []"
    and "gs_dispatcher g = Some d" "gs_callback g = Some callback"
    and "pushOnce (manager_stub ops hash now) r p (g, w) = Returns (pushed, p', (g', w'))"
  shows "pushed \<and> w' = w \<and> host_last (pu_collector p') \<and> pu_workerID p' = pu_workerID p
    \<and> (\<exists>info. collectAll r default_MonitorInfo (pu_collector p) = Returns (info, pu_collector p')
        \<and> getAllHostDatas g' = (getAllHostDatas g)(resolveHostID info \<mapsto> \<lparr>hd_info = info, hd_time = now\<rparr>)
        \<and> gs_dispatcher g' = Some (snd (submitMonitorTask ops hash (resolveHostID info)
              (Some (callback info \<lparr>worker_id = pu_workerID p, worker_token = pu_workerToken p\<rparr>)) d)))"
proof -
  obtain info c where c: "collectAll r default_MonitorInfo (pu_collector p) = Returns (info, c)"
    using assms(6) by (auto simp: pushOnce_def split: run.splits)
  have hl: "host_last c" "resolveHostID info \<noteq> []" using collectAll_host [OF c assms(1,3)] by simp_all
  have "SetMonitorInfo ops hash now (Some (push_metadata p)) (Some info) g w
      = (Some status_OK, g\<lparr>hostDatas := put (resolveHostID info) \<lparr>hd_info = info, hd_time = now\<rparr> (hostDatas g),
           gs_dispatcher := Some (snd (submitMonitorTask ops hash (resolveHostID info)
              (Some (callback info \<lparr>worker_id = pu_workerID p, worker_token = pu_workerToken p\<rparr>)) d))\<rparr>, w)"
    using assms(2,4,5) hl(2) by (simp add: SetMonitorInfo_def identity_of_push Let_def split_beta)
  then have "pushed" "w' = w" "p' = p\<lparr>pu_collector := c\<rparr>"
    "hostDatas g' = put (resolveHostID info) \<lparr>hd_info = info, hd_time = now\<rparr> (hostDatas g)"
    "gs_dispatcher g' = Some (snd (submitMonitorTask ops hash (resolveHostID info)
        (Some (callback info \<lparr>worker_id = pu_workerID p, worker_token = pu_workerToken p\<rparr>)) d))"
    using assms(6) c by (auto simp: pushOnce_def manager_stub_def ok_def)
  then show ?thesis using c hl by (simp add: getAllHostDatas_def put_map_of)
qed

text \<open>
  A worker that was started with an identity, on a host that has a name, pushes what it has
  collected, and the manager answers OK every time: the message is what the service now keeps
  of the host, and the task that it hands to the dispatcher is the callback on this message
  with the identity from the worker's command line. The worker can then push again.
\<close>

theorem worker_push_accepted:
  assumes "host_last (pu_collector p)" "pu_workerID p \<noteq> []" "at_hostname r \<noteq> Some []"
    and "gs_dispatcher g = Some d" "gs_callback g = Some callback"
    and "pushOnce (manager_stub ops hash now) r p (g, w) = Returns (pushed, p', (g', w'))"
  shows "pushed \<and> w' = w \<and> host_last (pu_collector p') \<and> pu_workerID p' = pu_workerID p
    \<and> (\<exists>info. collectAll r default_MonitorInfo (pu_collector p) = Returns (info, pu_collector p')
        \<and> getAllHostDatas g' = (getAllHostDatas g)(resolveHostID info \<mapsto> \<lparr>hd_info = info, hd_time = now\<rparr>)
        \<and> gs_dispatcher g' = Some (snd (submitMonitorTask ops hash (resolveHostID info)
              (Some (callback info \<lparr>worker_id = pu_workerID p, worker_token = pu_workerToken p\<rparr>)) d)))"
  using assms by (rule push_accepted)

text \<open>A host with no devices, no readable files and a name.\<close>

definition bare_host :: "unit surroundings" where
  "bare_host = \<lparr>at_load_map = None, at_stat_map = None, at_irq_map = None, at_steady = 0, at_time = 0, at_loadavg = None,
     at_meminfo = None, at_net_dev = None, at_diskstats = None,
     at_mem_junk = \<lparr>me_total = 8, me_free = 0, me_avail = 4, me_buffers = 0, me_cached = 0, me_swap_cached = 0, me_active = 0,
       me_in_active = 0, me_active_anon = 0, me_inactive_anon = 0, me_active_file = 0, me_inactive_file = 0, me_dirty = 0,
       me_writeback = 0, me_anon_pages = 0, me_mapped = 0, me_kReclaimable = 0, me_sReclaimable = 0, me_sUnreclaim = 0\<rparr>,
     at_net_junk = (\<lambda>_. sample_net 0), at_dummy = 0,
     at_bpf_ops = \<lparr>bm_lookup = (\<lambda>_ _. None), bm_update = (\<lambda>_ _ m. m), bm_next_key = (\<lambda>_ _. None)\<rparr>, at_bpf_map = (),
     at_indextoname = (\<lambda>_. None), at_mysql = (\<lambda>_ _. None), at_redis = (\<lambda>_ _. None), at_hostname = Some ''web'', at_ifaddrs = None\<rparr>"

definition sample_pusher :: MonitorPusher where
  "sample_pusher = \<lparr>pu_managerAddress = ''localhost:50051'', pu_workerID = ''w'', pu_workerToken = ''t'', pu_intervalSeconds = 10,
     pu_collector = \<lparr>mc_monitors = [CpuLoadM, CpuStatM Map.empty, CpuSoftIrqM Map.empty, MemM, NetM Map.empty, DiskM disk_start, HostInfoM None],
       mc_hostname = ''web''\<rparr>\<rparr>"

lemma bare_collects: "\<exists>info c. collectAll bare_host default_MonitorInfo (pu_collector sample_pusher) = Returns (info, c)"
  by (simp add: collectAll_def sample_pusher_def bare_host_def CpuLoadMonitor_updateOnce_def readLoadFromProc_def
      CpuStatMonitor_updateOnce_def CpuSoftIrqMonitor_updateOnce_def MemMonitor_updateOnce_def NetMonitor_updateOnce_def
      GetNetStatsFromProc_def DiskMonitor_updateOnce_def HostInfoMonitor_updateOnce_def Let_def)

lemma pushOnce_returns:
  "collectAll r default_MonitorInfo (pu_collector p) = Returns (info, c) \<Longrightarrow> \<exists>pushed p' s'. pushOnce stub r p s = Returns (pushed, p', s')"
  by (simp add: pushOnce_def split: prod.split)

theorem worker_push_accepted_witness:
  "\<exists>p' g'. pushOnce (manager_stub fifo_ops (\<lambda>_. 1) 5) bare_host sample_pusher (demo_server, (9, demo_manager)) = Returns (True, p', (g', (9, demo_manager)))
     \<and> host_last (pu_collector p') \<and> pu_workerID p' = ''w''"
proof -
  have hl: "host_last (pu_collector sample_pusher)" by (auto simp: host_last_def sample_pusher_def)
  obtain pushed p' g' w' where
    r: "pushOnce (manager_stub fifo_ops (\<lambda>_. 1) 5) bare_host sample_pusher (demo_server, (9, demo_manager)) = Returns (pushed, p', (g', w'))"
    using bare_collects pushOnce_returns by (metis prod_cases3)
  have d: "gs_dispatcher demo_server = Some demo_dispatcher" "gs_callback demo_server = Some (manager_callback id demo_db (\<lambda>_. []))"
    by (simp_all add: demo_server_def setDispatcher_def setDataReceivedCallback_def)
  have id: "pu_workerID sample_pusher = ''w''" "at_hostname bare_host = Some ''web''" by (simp_all add: sample_pusher_def bare_host_def)
  show ?thesis using worker_push_accepted [OF hl _ _ d r] r id by simp
qed

end
