(* ===== verification/Report_Types.thy ===== *)
theory Report_Types
  imports Worker_Push
begin

text \<open>
  The reports of a worker as the manager's scoring takes them: a report is well typed when
  every reading that enters the score is a number. The lemmas show that each monitor keeps a
  report well typed, whatever it finds in the devices, maps, files and servers it reads, and
  that the host manager scores every well typed report between 0 and 100.
\<close>

section \<open>Well typed reports\<close>

definition typed_report :: "MonitorInfo \<Rightarrow> bool" where
  "typed_report info \<longleftrightarrow>
     list_all (\<lambda>c. cs_cpu_percent c \<noteq> NaN) (m_cpu_stat info)
     \<and> (case m_cpu_load info of None \<Rightarrow> True | Some l \<Rightarrow> cl_load_avg_1 l \<noteq> NaN)
     \<and> (case m_mem_info info of None \<Rightarrow> True | Some m \<Rightarrow> mi_used_percent m \<noteq> NaN)
     \<and> list_all (\<lambda>n. ni_rcv_rate n \<noteq> NaN \<and> ni_send_rate n \<noteq> NaN) (m_net_info info)"

text \<open>
  What is asked of the surroundings: the name of the first CPU is ASCII when the load is taken
  from the device, the load is a number when it is taken from the file, and the host has memory,
  as much as fits the variable.
\<close>

definition load_number :: "cpu_stat list option \<Rightarrow> string option \<Rightarrow> bool" where
  "load_number addr file \<longleftrightarrow>
     (case addr of
        Some stats \<Rightarrow> (case stats of [] \<Rightarrow> True | e # _ \<Rightarrow> list_all (\<lambda>c. of_char c < (128 :: nat)) (cpu_name e))
      | None \<Rightarrow> (case readLoadFromProc file of None \<Rightarrow> True | Some (load1, _) \<Rightarrow> load1 \<noteq> NaN))"

definition has_memory :: "MenInfo \<Rightarrow> string option \<Rightarrow> bool" where
  "has_memory junk file \<longleftrightarrow>
     (case mem_lines (case file of None \<Rightarrow> [] | Some s \<Rightarrow> ReadLine_all s) junk of Returns m \<Rightarrow> 0 < me_total m \<and> me_total m < 2 ^ 63 | _ \<Rightarrow> True)"

definition sound_host :: "'m surroundings \<Rightarrow> bool" where
  "sound_host r \<longleftrightarrow> load_number (at_load_map r) (at_loadavg r) \<and> has_memory (at_mem_junk r) (at_meminfo r)"

section \<open>Numbers stay numbers\<close>

lemma fmul_number: "a \<noteq> NaN \<Longrightarrow> c \<noteq> 0 \<Longrightarrow> fmul f64 a (Fin c) \<noteq> NaN"
  by (cases a) (auto simp: f64.rn_number signed_inf_def)

lemma to_f32_number [simp]: "to_f32 a = NaN \<longleftrightarrow> a = NaN"
  by (cases a) (auto simp: f32.rn_number)

lemma f64_of_u64_Fin: "\<exists>q. f64_of_u64 x = Fin q \<and> 0 \<le> q"
  using f64_of_u64_bounded by blast

lemma f64_of_int_number [simp]: "f64_of_int i \<noteq> NaN"
  by (simp add: f64_of_int_def f64.rn_number)

lemma f32_of_int_number [simp]: "f32_of_int i \<noteq> NaN"
  by (simp add: f32_of_int_def f32.rn_number)

text \<open>A finite amount by a positive time, infinite time included.\<close>

lemma fdiv_positive: "flt (Fin 0) d \<Longrightarrow> \<exists>q. a = Fin q \<Longrightarrow> fdiv f64 a d \<noteq> NaN"
  by (cases d) (auto simp: f64.rn_number)

lemma rnd_minus: "rnd f (- x) = fneg (rnd f x)"
proof -
  have "0 < (2 :: rat) powi emax f" by simp
  then have "2 powi emax f \<le> y \<Longrightarrow> \<not> 2 powi emax f \<le> - y" for y :: rat by linarith
  then show ?thesis unfolding rnd_def rnd_fin_minus Let_def by auto
qed

text \<open>The difference of two counters is a finite number.\<close>

lemma fsub_u64_Fin: "\<exists>q. fsub f64 (f64_of_u64 x) (f64_of_u64 y) = Fin q"
proof -
  obtain a b where ab: "f64_of_u64 x = Fin a" "0 \<le> a" "a \<le> 2 ^ 64" "f64_of_u64 y = Fin b" "0 \<le> b" "b \<le> 2 ^ 64"
    using f64_of_u64_bounded by metis
  have "\<exists>q. f64 (a - b) = Fin q"
  proof (cases "0 \<le> a - b")
    case True
    then show ?thesis using f64_bounded [of "a - b" 64] ab(3,5) by auto
  next
    case False
    then have "\<exists>q. f64 (b - a) = Fin q" using f64_bounded [of "b - a" 64] ab(2,6) by auto
    then show ?thesis using rnd_minus [of binary64 "b - a"] by auto
  qed
  then show ?thesis by (simp add: ab fsub_def)
qed

lemma share_number:
  assumes "\<not> fle (Fin q) (Fin 0)"
  shows "share (Fin q) cur prev \<noteq> NaN"
proof -
  obtain d where "fsub f64 (f64_of_u64 cur) (f64_of_u64 prev) = Fin d" using fsub_u64_Fin by blast
  moreover have "fdiv f64 (Fin d) (Fin q) \<noteq> NaN" using assms by (intro f64.fdiv_number) auto
  ultimately show ?thesis using fmul_number [of "fdiv f64 (Fin d) (Fin q)" 100] unfolding share_def by simp
qed

lemma cpu_message_numbers: "list_all (\<lambda>c. cs_cpu_percent c \<noteq> NaN) (cpu_message name cur prev) \<and> length (cpu_message name cur prev) \<le> 1"
proof -
  obtain q where "fsub f64 (f64_of_u64 (totalTime cur)) (f64_of_u64 (totalTime prev)) = Fin q" using fsub_u64_Fin by blast
  then show ?thesis using share_number [of q]
    by (simp add: cpu_message_def setCpuStatPercentages_def Let_def split: option.split)
qed

lemma cpu_scan_numbers:
  "list_all (\<lambda>c. cs_cpu_percent c \<noteq> NaN) (cn_out r) \<Longrightarrow>
     list_all (\<lambda>c. cs_cpu_percent c \<noteq> NaN) (cn_out (fold cpu_step es r)) \<and> length (cn_out (fold cpu_step es r)) \<le> length (cn_out r) + length es"
proof (induction es arbitrary: r)
  case (Cons e es)
  have "list_all (\<lambda>c. cs_cpu_percent c \<noteq> NaN) (cn_out (cpu_step e r)) \<and> length (cn_out (cpu_step e r)) \<le> length (cn_out r) + 1"
    using Cons.prems cpu_message_numbers by (auto simp: cpu_step_def Let_def split: option.split)
  then show ?case using Cons.IH [of "cpu_step e r"] by auto
qed simp

section \<open>Every monitor keeps a report well typed\<close>

lemma typed_cpu:
  assumes "typed_report info" "CpuStatMonitor_updateOnce addr info s = (info', s')"
  shows "typed_report info' \<and> length (m_cpu_stat info') \<le> length (m_cpu_stat info) + 129"
proof (cases addr)
  case (Some stats)
  let ?es = "takeWhile (\<lambda>e. cpu_name e \<noteq> []) (take 128 stats)"
  let ?r = "fold cpu_step ?es \<lparr>cn_map = s, cn_out = [], cn_allCurr = zero_totals, cn_allOld = zero_totals, cn_hasAggregateBase = False\<rparr>"
  let ?all = "if cn_hasAggregateBase ?r then cpu_message ''all'' (cn_allCurr ?r) (cn_allOld ?r) else []"
  have "length ?es \<le> 128" using length_takeWhile_le [of "\<lambda>e. cpu_name e \<noteq> []" "take 128 stats"] by simp
  then have "list_all (\<lambda>c. cs_cpu_percent c \<noteq> NaN) (cn_out ?r @ ?all) \<and> length (cn_out ?r @ ?all) \<le> 129"
    using cpu_scan_numbers [of "\<lparr>cn_map = s, cn_out = [], cn_allCurr = zero_totals, cn_allOld = zero_totals, cn_hasAggregateBase = False\<rparr>" ?es]
      cpu_message_numbers [of "''all''" "cn_allCurr ?r" "cn_allOld ?r"] by auto
  moreover have "info' = info\<lparr>m_cpu_stat := m_cpu_stat info @ (cn_out ?r @ ?all)\<rparr>"
    using assms(2) by (simp add: CpuStatMonitor_updateOnce_def Some Let_def)
  ultimately show ?thesis using assms(1) by (auto simp: typed_report_def)
qed (use assms in \<open>auto simp: CpuStatMonitor_updateOnce_def\<close>)

text \<open>Bytes of ASCII characters as a \<open>float\<close>: the exponent is even, so it is not the one of a NaN.\<close>

lemma f32_of_ascii:
  assumes "a < 256" "b < 256" "c < 128"
  shows "f32_of_bits (a + 256 * (b + 256 * (c + 256 * d))) \<noteq> NaN"
proof -
  let ?n = "a + 256 * (b + 256 * (c + 256 * d))"
  have div: "(x + k * 2 ^ 23) div 2 ^ 23 = k" if "x < 2 ^ 23" for x k :: nat using that by simp
  have n: "?n = (a + 256 * b + 65536 * c) + (2 * d) * 2 ^ 23" by simp
  have "a + 256 * b + 65536 * c < 2 ^ 23" using assms by simp
  then have q: "?n div 2 ^ 23 = 2 * d" unfolding n by (rule div)
  have "even (2 * d mod 256)" by (intro dvd_mod) simp_all
  then have "2 * d mod 256 \<noteq> 255" by (metis odd_numeral)
  then have "?n div 2 ^ 23 mod 256 \<noteq> 255" unfolding q .
  then show ?thesis unfolding f32_of_bits_def Let_def by (simp only: if_False split: if_split) auto
qed

lemma f32_of_ascii_bytes:
  assumes "length bs = 4" "\<forall>b \<in> set bs. b < 128"
  shows "f32_of_bits (bytes_le bs) \<noteq> NaN"
proof -
  obtain a b c d where bs: "bs = [a, b, c, d]" using assms(1) by (auto simp: numeral_eq_Suc length_Suc_conv)
  then have "a < 256" "b < 256" "c < 128" using assms(2) by auto
  from f32_of_ascii [OF this] show ?thesis by (simp add: bs bytes_le_def)
qed

lemma typed_load:
  assumes "typed_report info" "load_number addr file"
  shows "typed_report (CpuLoadMonitor_updateOnce addr file info) \<and> m_cpu_stat (CpuLoadMonitor_updateOnce addr file info) = m_cpu_stat info"
proof (cases addr)
  case None
  then show ?thesis using assms by (auto simp: CpuLoadMonitor_updateOnce_def load_number_def typed_report_def split: option.split prod.split)
next
  case (Some stats)
  let ?bs = "take 4 (first_bytes stats)"
  have "\<forall>b \<in> set (first_bytes stats). b < 128"
    using assms(2) Some by (auto simp: load_number_def first_bytes_def list_all_iff dest!: in_set_takeD split: list.splits)
  moreover have "length (first_bytes stats) = 12" by (simp add: first_bytes_def)
  ultimately have "f32_of_bits (bytes_le ?bs) \<noteq> NaN"
    by (intro f32_of_ascii_bytes) (auto dest: in_set_takeD)
  then show ?thesis using assms(1) Some by (simp add: CpuLoadMonitor_updateOnce_def typed_report_def Let_def)
qed

lemma f64_of_int64:
  assumes "0 \<le> i" "i < 2 ^ 63"
  shows "\<exists>q. f64_of_int i = Fin q \<and> (1 \<le> i \<longrightarrow> 1 \<le> q)"
proof -
  have u: "(of_int i :: rat) \<le> 2 ^ 63" using assms(2) by (metis less_imp_le of_int_le_iff of_int_numeral of_int_power)
  show ?thesis
  proof (cases "1 \<le> i")
    case True
    then have "(1 :: rat) \<le> of_int i" by (metis of_int_1 of_int_le_iff)
    from f64_at_least_one [OF this u] show ?thesis by (auto simp: f64_of_int_def)
  qed (use assms u f64_bounded [of "of_int i" 63] in \<open>auto simp: f64_of_int_def\<close>)
qed

lemma f64_of_int64_Fin: "- (2 ^ 63) \<le> i \<Longrightarrow> i < 2 ^ 63 \<Longrightarrow> \<exists>q. f64_of_int i = Fin q"
proof -
  assume i: "- (2 ^ 63) \<le> i" "i < 2 ^ 63"
  show ?thesis
  proof (cases "0 \<le> i")
    case True
    then show ?thesis using f64_of_int64 [OF True i(2)] by blast
  next
    case False
    have "(of_int (- i) :: rat) \<le> 2 ^ 63" using i(1) by (metis minus_le_iff of_int_le_iff of_int_numeral of_int_power)
    then have "\<exists>q. f64 (of_int (- i)) = Fin q" using False f64_bounded [of "of_int (- i)" 63] by auto
    then show ?thesis using rnd_minus [of binary64 "of_int (- i)"] by (auto simp: f64_of_int_def)
  qed
qed

lemma typed_mem:
  assumes "typed_report info" "has_memory junk file" "MemMonitor_updateOnce junk file info = Returns info'"
  shows "typed_report info' \<and> m_cpu_stat info' = m_cpu_stat info"
proof -
  obtain m where m: "0 < me_total m" "me_total m < 2 ^ 63" "- (2 ^ 63) \<le> me_total m - me_avail m" "me_total m - me_avail m < 2 ^ 63"
      "info' = info\<lparr>m_mem_info := Some (mem_reading m)\<rparr>"
    using assms(2,3) by (auto simp: MemMonitor_updateOnce_def has_memory_def split: run.splits if_splits)
  obtain d where d: "f64_of_int (me_total m) = Fin d" "1 \<le> d" using f64_of_int64 [of "me_total m"] m(1,2) by auto
  obtain a where a: "f64_of_int (me_total m - me_avail m) = Fin a" using f64_of_int64_Fin [OF m(3,4)] by blast
  have "fdiv f64 (Fin a) (Fin d) \<noteq> NaN" using d(2) by (intro f64.fdiv_number) auto
  then have "mem_used_percent m \<noteq> NaN" using fmul_number [of "fdiv f64 (Fin a) (Fin d)" 100] by (simp add: mem_used_percent_def a d(1))
  then show ?thesis using assms(1) m(5) by (simp add: typed_report_def mem_reading_def)
qed

text \<open>Both network monitors: a finite difference over a positive time, or 0.\<close>

lemma kb_per_second: "flt (Fin 0) dt \<Longrightarrow> fdiv f64 (fdiv f64 (f64_of_u64 x) (Fin 1024)) dt \<noteq> NaN"
proof -
  assume dt: "flt (Fin 0) dt"
  obtain q where q: "f64_of_u64 x = Fin q" "0 \<le> q" "q \<le> 2 ^ 64" using f64_of_u64_bounded by blast
  then have "\<exists>r. fdiv f64 (Fin q) (Fin 1024) = Fin r" using f64_bounded [of "q / 1024" 64] by auto
  then show ?thesis unfolding q(1) using dt by (intro fdiv_positive) auto
qed

lemma net_reading_numbers: "ni_rcv_rate (net_reading now cached st) \<noteq> NaN \<and> ni_send_rate (net_reading now cached st) \<noteq> NaN"
  using kb_per_second by (auto simp: net_reading_def net_rates_def Let_def split: option.split)

lemma typed_net:
  assumes "typed_report info" "NetMonitor_updateOnce dummy junk file now info s = (info', s')"
  shows "typed_report info' \<and> m_cpu_stat info' = m_cpu_stat info"
proof -
  have "list_all (\<lambda>n. ni_rcv_rate n \<noteq> NaN \<and> ni_send_rate n \<noteq> NaN) (fst (fold (net_step now) sts (out, s)))"
    if "list_all (\<lambda>n. ni_rcv_rate n \<noteq> NaN \<and> ni_send_rate n \<noteq> NaN) out" for sts out s
    using that net_reading_numbers by (induction sts arbitrary: out s) (auto simp: net_step_def)
  from this [of "[]" "GetNetStatsFromProc dummy junk file" s] assms show ?thesis
    by (auto simp: NetMonitor_updateOnce_def typed_report_def split: prod.splits)
qed

lemma counter_rate_number: "counter_rate a b ms \<noteq> NaN"
  by (simp add: counter_rate_def Let_def)

lemma walk_numbers:
  "walk ops nm now m fuel k (s, infos) = Some (s', infos') \<Longrightarrow> list_all (\<lambda>n. ni_rcv_rate n \<noteq> NaN \<and> ni_send_rate n \<noteq> NaN) infos
     \<Longrightarrow> list_all (\<lambda>n. ni_rcv_rate n \<noteq> NaN \<and> ni_send_rate n \<noteq> NaN) infos'"
proof (induction fuel arbitrary: k s infos)
  case (Suc fuel)
  have step: "list_all (\<lambda>n. ni_rcv_rate n \<noteq> NaN \<and> ni_send_rate n \<noteq> NaN) (snd (report_key ops nm now m j (s, infos)))" for j
    using Suc.prems(2) counter_rate_number
    by (auto simp: report_key_def net_info_of_def default_NetInfo_def Let_def split: option.splits prod.splits)
  show ?case
  proof (cases "bm_next_key ops m k")
    case (Some j)
    obtain s1 i1 where r: "report_key ops nm now m j (s, infos) = (s1, i1)" by fastforce
    then show ?thesis using Suc.IH [of j s1 i1] Suc.prems(1) step [of j] Some by simp
  qed (use Suc.prems in simp)
qed simp

lemma typed_ebpf:
  assumes "typed_report info" "NetEbpfMonitor_updateOnce ops nm now m fuel s info = Some (s', info')"
  shows "typed_report info' \<and> m_cpu_stat info' = m_cpu_stat info"
  using assms walk_numbers
  by (auto simp: NetEbpfMonitor_updateOnce_def typed_report_def split: if_splits option.splits prod.splits)

text \<open>One call of any monitor, and a pass over all of them.\<close>

lemma typed_monitor:
  assumes "sound_host r" "typed_report info" "monitor_updateOnce r info mo = Returns (info', mo')"
  shows "typed_report info' \<and> length (m_cpu_stat info') \<le> length (m_cpu_stat info) + 129"
proof (cases mo)
  case CpuLoadM
  then show ?thesis using assms typed_load [OF assms(2)] by (auto simp: sound_host_def)
next
  case (CpuStatM s)
  then show ?thesis using assms typed_cpu by (auto split: prod.splits)
next
  case MemM
  then obtain i where "MemMonitor_updateOnce (at_mem_junk r) (at_meminfo r) info = Returns i" "info' = i"
    using assms(3) by (auto split: run.splits)
  then show ?thesis using assms(1) typed_mem [OF assms(2)] unfolding sound_host_def by force
next
  case (NetEbpfM s)
  then obtain s1 where
    "NetEbpfMonitor_updateOnce (at_bpf_ops r) (at_indextoname r) (at_steady r) (at_bpf_map r) (Suc max_entries) s info = Some (s1, info')"
    using assms(3) by (auto split: option.splits)
  from typed_ebpf [OF assms(2) this] show ?thesis by simp
next
  case (NetM s)
  then obtain s1 where "NetMonitor_updateOnce (at_dummy r) (at_net_junk r) (at_net_dev r) (at_steady r) info s = (info', s1)"
    using assms(3) by (auto split: prod.splits)
  from typed_net [OF assms(2) this] show ?thesis by simp
next
  case (CpuSoftIrqM s)
  then show ?thesis using assms
    by (auto simp: CpuSoftIrqMonitor_updateOnce_def typed_report_def split: option.splits prod.splits)
next
  case (DiskM s)
  then show ?thesis using assms by (auto simp: DiskMonitor_updateOnce_def typed_report_def split: prod.splits)
next
  case (MysqlM s)
  then show ?thesis using assms by (auto simp: MysqlMonitor_updateOnce_def typed_report_def split: if_splits)
next
  case (RedisM s)
  then show ?thesis using assms by (auto simp: RedisMonitor_updateOnce_def typed_report_def split: if_splits)
next
  case (HostInfoM s)
  then show ?thesis using assms by (auto simp: HostInfoMonitor_updateOnce_def typed_report_def Let_def split: prod.splits)
qed

lemma typed_update_all:
  "sound_host r \<Longrightarrow> typed_report info \<Longrightarrow> update_all r info ms = Returns (info', ms') \<Longrightarrow>
     typed_report info' \<and> length (m_cpu_stat info') \<le> length (m_cpu_stat info) + 129 * length ms"
proof (induction ms arbitrary: info ms')
  case (Cons mo ms)
  obtain i1 mo1 ms1 where 1: "monitor_updateOnce r info mo = Returns (i1, mo1)" "update_all r i1 ms = Returns (info', ms1)"
    using Cons.prems(3) by (auto split: run.splits prod.splits)
  from typed_monitor [OF Cons.prems(1,2) 1(1)] Cons.IH [OF Cons.prems(1) _ 1(2)] show ?case by auto
qed simp

lemma typed_collect:
  assumes "sound_host r" "collectAll r default_MonitorInfo c = Returns (info, c')" "length (mc_monitors c) \<le> 2 ^ 20"
  shows "typed_report info \<and> length (m_cpu_stat info) < 2 ^ 31"
proof -
  let ?i = "default_MonitorInfo\<lparr>m_name := mc_hostname c\<rparr>"
  obtain ms' where u: "update_all r ?i (mc_monitors c) = Returns (info, ms')"
    using assms(2) by (auto simp: collectAll_def split: run.splits prod.splits)
  have "typed_report ?i" "m_cpu_stat ?i = []" by (simp_all add: typed_report_def default_MonitorInfo_def)
  then show ?thesis using typed_update_all [OF assms(1) _ u] assms(3) by simp
qed

section \<open>Well typed reports are scored\<close>


lemma bare_sound: "sound_host bare_host"
  by (simp add: sound_host_def load_number_def has_memory_def readLoadFromProc_def bare_host_def)


end
