(* ===== verification/Manager_Main.thy ===== *)
theory Manager_Main
  imports Worker_Push Conn_Pool Service_Correct "HOL-Library.Multiset"
begin

text \<open>
  The manager as its \<open>main\<close> puts it together (\<open>manager/src/main.cpp\<close>) and the workers of a fleet that
  push to it. First what \<open>main\<close> sets up and how it ends: the dispatcher is stopped, then the host
  manager is destroyed, which joins its writers. Then the pushes of several workers in the
  order in which the manager takes them, with the messages they collect as the specification,
  and the queues of the dispatcher as the messages split by shard.
\<close>

section \<open>The manager as \<open>main\<close> puts it together\<close>

text \<open>
  What \<open>main\<close> of the manager sets up for the pushes: the settings, the counters, the started
  dispatcher, the host manager with its pools (\<open>mysql\<close>: the build has MySQL), and the service
  with the dispatcher and the callback.
\<close>

definition manager_dispatcher :: "('q, 't) mpmc_ops \<Rightarrow> environment \<Rightarrow> u32 \<Rightarrow> 'q ManagerDispatcher" where
  "manager_dispatcher ops env hw = dispatcher_start (ManagerDispatcher_new ops (loadManagerConfigFromEnv env hw) (Some zero_metrics))"

definition manager_hosts :: "bool \<Rightarrow> environment \<Rightarrow> u32 \<Rightarrow> HostManager" where
  "manager_hosts mysql env hw =
     (let managerConfig = loadManagerConfigFromEnv env hw
      in hm_start (configure managerConfig (Some zero_metrics) mysql (redis_enabled managerConfig) HostManager_new))"

definition manager_service ::
  "('q, (int \<times> HostManager) ManagerTask) mpmc_ops \<Rightarrow> environment \<Rightarrow> u32 \<Rightarrow> (int \<times> HostManager) DataReceivedCallback
     \<Rightarrow> ('q, int \<times> HostManager) GrpcServerImpl" where
  "manager_service ops env hw callback =
     setDataReceivedCallback (Some callback) (setDispatcher (Some (manager_dispatcher ops env hw)) GrpcServerImpl_new)"

text \<open>
  The pools of MySQL connections, one for the writers and one for the queries, on the same
  servers; the pool for the cache if the settings enable it; the query manager, which looks
  at the query pool; and the service over them.
\<close>

definition manager_mysql_pool :: "environment \<Rightarrow> ManagerConfig \<Rightarrow> int \<Rightarrow> int \<Rightarrow> MysqlConfig pool" where
  "manager_mysql_pool env managerConfig mn mx =
     pool_new (loadMysqlConfigFromEnv env) mn mx (mysql_connect_timeout managerConfig) (mysql_read_timeout managerConfig)
       (mysql_health_check managerConfig) (mysql_idle_ttl managerConfig) (Some zero_metrics)"

definition manager_mysql_pools ::
  "(MysqlConfig \<times> int \<times> int, 'w) client \<Rightarrow> environment \<Rightarrow> u32 \<Rightarrow> int \<Rightarrow> 'w \<Rightarrow> MysqlConfig pool \<times> MysqlConfig pool \<times> 'w" where
  "manager_mysql_pools C env hw now w =
     (let managerConfig = loadManagerConfigFromEnv env hw
      in case pool_start (mysql_backend C) now
           (manager_mysql_pool env managerConfig (mysql_write_pool_min managerConfig) (mysql_write_pool_max managerConfig), w) of
         (writers_pool, w) \<Rightarrow>
           (case pool_start (mysql_backend C) now
              (manager_mysql_pool env managerConfig (mysql_query_pool_min managerConfig) (mysql_query_pool_max managerConfig), w) of
            (queries_pool, w) \<Rightarrow> (writers_pool, queries_pool, w)))"

definition manager_redis ::
  "(string, 'w) client \<Rightarrow> environment \<Rightarrow> u32 \<Rightarrow> int \<Rightarrow> 'w \<Rightarrow> (string, 'w) pw option" where
  "manager_redis C env hw now w =
     (let managerConfig = loadManagerConfigFromEnv env hw
      in if redis_enabled managerConfig
         then Some (pool_start (redis_backend C) now
           (pool_new (redis_uri managerConfig) (redis_pool_min managerConfig) (redis_pool_max managerConfig)
              (redis_connect_timeout managerConfig) (redis_read_timeout managerConfig) (redis_health_check managerConfig)
              (redis_idle_ttl managerConfig) (Some zero_metrics), w))
         else None)"

definition manager_queries :: "bool \<Rightarrow> environment \<Rightarrow> u32 \<Rightarrow> 'c option \<Rightarrow> 'c QueryServiceImpl" where
  "manager_queries mysql env hw redisCache =
     \<lparr>sv_manager = Some (if mysql
          then snd (QueryManager_init True (Some (loadManagerConfigFromEnv env hw)) (Some zero_metrics) QueryManager_new)
          else QueryManager_new),
      sv_cache = redisCache, sv_undefined = False\<rparr>"

text \<open>What the thread that prints the counters writes in one round after its sleep.\<close>

definition metrics_round ::
  "('q, 't) mpmc_ops \<Rightarrow> ManagerMetrics \<Rightarrow> 'q ManagerDispatcher \<Rightarrow> (MysqlConfig pool \<times> MysqlConfig pool) option \<Rightarrow> (string, 'w) pw option \<Rightarrow> string" where
  "metrics_round ops metrics dispatcher mysql redisCache =
     (let (mysqlWriteAvailable, mysqlQueryAvailable) =
            (case mysql of None \<Rightarrow> (0, 0)
             | Some (writers_pool, queries_pool) \<Rightarrow> (availableCount writers_pool, availableCount queries_pool))
      in print_metrics metrics (queueSize ops dispatcher) (workerCount dispatcher)
           (int mysqlWriteAvailable) (int mysqlQueryAvailable) (int (RedisCache_availableCount redisCache)))"

text \<open>
  The address of the command line, what the builder of the server is given, and the call of
  \<open>Wait\<close> on the server it builds; a server that cannot be built is a null pointer.
\<close>

definition listen_address :: "string list \<Rightarrow> string" where
  "listen_address argv = (if 1 < length argv then argv ! 1 else ''0.0.0.0:50051'')"

record server_options =
  so_num_cqs :: int
  so_min_pollers :: int
  so_max_pollers :: int
  so_address :: string

definition manager_server :: "string list \<Rightarrow> environment \<Rightarrow> u32 \<Rightarrow> server_options" where
  "manager_server argv env hw =
     (let managerConfig = loadManagerConfigFromEnv env hw
      in \<lparr>so_num_cqs = grpc_num_cqs managerConfig, so_min_pollers = grpc_min_pollers managerConfig,
          so_max_pollers = grpc_max_pollers managerConfig, so_address = listen_address argv\<rparr>)"

definition manager_waits :: "(server_options \<Rightarrow> bool) \<Rightarrow> string list \<Rightarrow> environment \<Rightarrow> u32 \<Rightarrow> unit run" where
  "manager_waits builds argv env hw = (if builds (manager_server argv env hw) then Returns () else Undefined)"

lemma manager_service_parts:
  "gs_dispatcher (manager_service ops env hw callback) = Some (manager_dispatcher ops env hw)"
  "gs_callback (manager_service ops env hw callback) = Some callback"
  by (simp_all add: manager_service_def setDataReceivedCallback_def setDispatcher_def)

section \<open>The started dispatcher\<close>

lemma spawn_power_queue: "queryQueue ((spawnQueryWorker ^^ n) d) = queryQueue d"
  by (induction n) (simp_all add: spawn_count)

lemma dispatcher_start_shape:
  assumes "\<not> running d"
  shows "running (dispatcher_start d)" "ingestShards (dispatcher_start d) = map (\<lambda>s. s\<lparr>is_worker := True\<rparr>) (ingestShards d)"
    "queryQueue (dispatcher_start d) = queryQueue d"
  using assms by (simp_all add: dispatcher_start_def Let_def spawn_power spawn_power_queue)

lemma manager_dispatcher_workers: "queryWorkers (manager_dispatcher ops env hw) \<noteq> []"
proof -
  let ?cfg = "loadManagerConfigFromEnv env hw"
  let ?new = "ManagerDispatcher_new ops ?cfg (Some zero_metrics)"
  let ?d = "?new\<lparr>running := True, ingestShards := map (\<lambda>s. s\<lparr>is_worker := True\<rparr>) (ingestShards ?new)\<rparr>"
  let ?n = "nat (max 1 (min (query_threads_min ?cfg) (query_threads_max ?cfg)))"
  have md: "manager_dispatcher ops env hw = (spawnQueryWorker ^^ ?n) ?d"
    by (simp add: manager_dispatcher_def dispatcher_start_def ManagerDispatcher_new_def Let_def)
  have z: "queryWorkerCount ?d = 0" "queryWorkers ?d = []" "d_config ?d = ?cfg" by (simp_all add: ManagerDispatcher_new_def Let_def)
  have mx: "1 \<le> query_threads_max ?cfg" using query_limits_ordered [of env hw] by (simp add: frame_simps)
  have "int (length (queryWorkers ((spawnQueryWorker ^^ ?n) ?d))) = queryWorkerCount ((spawnQueryWorker ^^ ?n) ?d)"
    by (rule spawn_power(4)) (simp add: z del: ManagerDispatcher.simps)
  also have "\<dots> = min (0 + int ?n) (query_threads_max ?cfg)"
    using spawn_power(5) [of ?d ?n] z mx by simp
  also have "\<dots> \<ge> 1" using mx by simp
  finally show ?thesis unfolding md by auto
qed

context task_queue
begin

text \<open>A manager that has just started: its shards and its queues are empty and have room.\<close>

lemma manager_dispatcher_ready:
  fixes env hw
  defines "d \<equiv> manager_dispatcher ops env hw"
  shows "running d" "ingestShards d \<noteq> []" "\<forall>s \<in> set (ingestShards d). is_worker s \<and> 0 < cap (is_queue s)"
    "backlog items d = replicate (length (ingestShards d)) []" "items (queryQueue d) = []"
proof -
  let ?new = "ManagerDispatcher_new ops (loadManagerConfigFromEnv env hw) (Some zero_metrics)"
  have nr: "\<not> running ?new" by (simp add: ManagerDispatcher_new_def Let_def)
  have d: "d = dispatcher_start ?new" by (simp add: d_def manager_dispatcher_def)
  note shape = dispatcher_start_shape [OF nr, folded d]
  show "running d" by (rule shape(1))
  show "ingestShards d \<noteq> []" using new_shape(1) by (simp add: shape(2))
  have "0 < unat (max (1 :: u64) c)" for c
  proof -
    have "(1 :: u64) \<le> max 1 c" by (rule max.cobounded1)
    then have "unat (1 :: u64) \<le> unat (max 1 c)" by (simp only: word_le_nat_alt)
    then show ?thesis by simp
  qed
  then show "\<forall>s \<in> set (ingestShards d). is_worker s \<and> 0 < cap (is_queue s)"
    by (auto simp: shape(2) ManagerDispatcher_new_def Let_def cap_new)
  show "backlog items d = replicate (length (ingestShards d)) []"
    by (simp add: backlog_def shape(2) ManagerDispatcher_new_def Let_def items_new map_replicate_const [symmetric])
  show "items (queryQueue d) = []" by (simp add: shape(3) ManagerDispatcher_new_def Let_def items_new)
qed

lemma submit_frame:
  assumes "submitMonitorTask ops hash key f d = (b, d')"
  shows "running d' = running d \<and> queryQueue d' = queryQueue d \<and> queryWorkers d' = queryWorkers d
    \<and> ((\<forall>s \<in> set (ingestShards d). is_worker s) \<longrightarrow> (\<forall>s \<in> set (ingestShards d'). is_worker s))"
  using assms shardIndexFor_less [of d hash key]
  by (auto simp: submitMonitorTask_def enqueueIngest_def Let_def split: if_splits prod.splits dest!: set_update_subset_insert [THEN subsetD])

end

section \<open>The end of \<open>main\<close>\<close>

text \<open>
  When \<open>Wait\<close> returns, \<open>main\<close> stops the dispatcher; on return the host manager is destroyed before the
  pools, and its destructor stops it. The records its writers take, and what is left of both.
  (Nothing in \<open>main\<close> shuts the server down, so it takes a change elsewhere for \<open>Wait\<close> to return.)
\<close>

definition manager_shutdown ::
  "('q, (int \<times> HostManager) ManagerTask) mpmc_ops \<Rightarrow> int \<Rightarrow> nat \<Rightarrow> 'q ManagerDispatcher \<times> int \<times> HostManager
     \<Rightarrow> (HostMonitoringData list \<times> 'q ManagerDispatcher \<times> HostManager) option" where
  "manager_shutdown ops now fuel dw =
     (case dispatcher_stop ops now fuel dw of None \<Rightarrow> None
      | Some (dispatcher, (clock, hostManager)) \<Rightarrow>
          (case hm_stop fuel hostManager of None \<Rightarrow> None
           | Some (written, hostManager) \<Rightarrow> Some (written, dispatcher, hostManager)))"

section \<open>A fleet of workers\<close>

text \<open>
  Pushes in the order in which the manager takes them: which worker pushes, what surrounds its
  monitors then, and the time of the manager. Every push works on the state the last one of
  the same worker left.
\<close>

type_synonym 'm visit = "nat \<times> 'm surroundings \<times> int"

fun fleet_pushes ::
  "('q, 'w ManagerTask) mpmc_ops \<Rightarrow> (string \<Rightarrow> u64) \<Rightarrow> 'm visit list \<Rightarrow> MonitorPusher list \<Rightarrow> ('q, 'w) GrpcServerImpl \<times> 'w
     \<Rightarrow> (bool list \<times> MonitorPusher list \<times> ('q, 'w) GrpcServerImpl \<times> 'w) run" where
  "fleet_pushes ops hash [] ps gw = Returns ([], ps, gw)"
| "fleet_pushes ops hash ((k, r, now) # vs) ps gw =
     (case pushOnce (manager_stub ops hash now) r (ps ! k) gw of Throws \<Rightarrow> Throws | Undefined \<Rightarrow> Undefined
      | Returns (pushed, p, gw) \<Rightarrow>
          (case fleet_pushes ops hash vs (ps[k := p]) gw of Throws \<Rightarrow> Throws | Undefined \<Rightarrow> Undefined
           | Returns (rest, ps, gw) \<Rightarrow> Returns (pushed # rest, ps, gw)))"

text \<open>The specification: what the monitors of these workers fill in, with the workers' identities.\<close>

type_synonym message = "MonitorInfo \<times> WorkerIdentity"

fun fleet_messages :: "'m visit list \<Rightarrow> MonitorPusher list \<Rightarrow> message list run" where
  "fleet_messages [] ps = Returns []"
| "fleet_messages ((k, r, now) # vs) ps =
     (case collectAll r default_MonitorInfo (pu_collector (ps ! k)) of Throws \<Rightarrow> Throws | Undefined \<Rightarrow> Undefined
      | Returns (info, c) \<Rightarrow>
          (case fleet_messages vs (ps[k := (ps ! k)\<lparr>pu_collector := c\<rparr>]) of Throws \<Rightarrow> Throws | Undefined \<Rightarrow> Undefined
           | Returns ms \<Rightarrow>
               Returns ((info, \<lparr>worker_id = pu_workerID (ps ! k), worker_token = pu_workerToken (ps ! k)\<rparr>) # ms)))"

definition receive ::
  "(string \<Rightarrow> string) \<Rightarrow> (string \<Rightarrow> registry_reply) \<Rightarrow> (fp \<Rightarrow> string) \<Rightarrow> int \<Rightarrow> message \<Rightarrow> HostManager \<Rightarrow> HostManager" where
  "receive escape db show_double clock m = onDataReceived escape db show_double clock (fst m) (snd m)"

definition of_host :: "string \<Rightarrow> message list \<Rightarrow> message list" where
  "of_host h = filter (\<lambda>m. resolveHostID (fst m) = h)"

definition shard_of :: "(string \<Rightarrow> u64) \<Rightarrow> nat \<Rightarrow> message \<Rightarrow> nat" where
  "shard_of hash n m = unat (hash (resolveHostID (fst m))) mod n"

definition on_shard :: "(string \<Rightarrow> u64) \<Rightarrow> nat \<Rightarrow> message list \<Rightarrow> nat \<Rightarrow> message list" where
  "on_shard hash n ms i = filter (\<lambda>m. shard_of hash n m = i) ms"

text \<open>The messages by shard, within a shard in the order of their pushes.\<close>

definition by_shard :: "(string \<Rightarrow> u64) \<Rightarrow> nat \<Rightarrow> message list \<Rightarrow> message list" where
  "by_shard hash n ms = concat (map (on_shard hash n ms) [0..<n])"

definition push_task :: "'w DataReceivedCallback \<Rightarrow> message \<Rightarrow> 'w ManagerTask" where
  "push_task callback m =
     \<lparr>kind = MonitorPush, partition_key = resolveHostID (fst m), run = Some (callback (fst m) (snd m))\<rparr>"

subsection \<open>The order by shard\<close>

lemma on_shard_append: "on_shard hash n (xs @ ys) i = on_shard hash n xs i @ on_shard hash n ys i"
  by (simp add: on_shard_def)

lemma length_on_shard: "length (on_shard hash n ms i) \<le> length ms"
  by (simp add: on_shard_def)

lemma concat_only:
  assumes "j < n" "\<And>i. i < n \<Longrightarrow> i \<noteq> j \<Longrightarrow> f i = []"
  shows "concat (map f [0..<n]) = f j"
  using assms
proof (induction n)
  case (Suc n)
  have "concat (map f [0..<n]) = []" if "j = n" using that Suc.prems(2) by auto
  with Suc show ?case by (cases "j = n") (auto simp: less_Suc_eq)
qed simp

text \<open>Each host keeps the order of its messages, and no message is lost or doubled.\<close>

lemma by_shard_host: "0 < n \<Longrightarrow> of_host h (by_shard hash n ms) = of_host h ms"
proof -
  assume n: "0 < n"
  let ?j = "unat (hash h) mod n"
  have "of_host h (by_shard hash n ms) = concat (map (\<lambda>i. of_host h (on_shard hash n ms i)) [0..<n])"
    by (simp add: of_host_def by_shard_def filter_concat comp_def)
  also have "\<dots> = of_host h (on_shard hash n ms ?j)"
    by (rule concat_only) (use n in \<open>auto simp: of_host_def on_shard_def shard_of_def filter_empty_conv\<close>)
  also have "\<dots> = of_host h ms"
    by (auto simp: of_host_def on_shard_def shard_of_def intro!: filter_cong)
  finally show ?thesis .
qed

lemma mset_concat_upto: "mset (concat (map f [0..<n])) = (\<Sum>i<n. mset (f i))"
  by (induction n) (simp_all add: lessThan_Suc)

lemma by_shard_mset: "0 < n \<Longrightarrow> mset (by_shard hash n ms) = mset ms"
proof -
  assume n: "0 < n"
  have "(\<Sum>i<n. mset (on_shard hash n ms i)) = mset ms"
  proof (induction ms)
    case (Cons m ms)
    have "(\<Sum>i<n. mset (on_shard hash n (m # ms) i)) = (\<Sum>i<n. (if i = shard_of hash n m then {#m#} else {#}) + mset (on_shard hash n ms i))"
      by (rule sum.cong) (auto simp: on_shard_def)
    then show ?case using Cons n by (simp add: sum.distrib shard_of_def)
  qed (simp add: on_shard_def)
  then show ?thesis by (simp add: by_shard_def mset_concat_upto)
qed


subsection \<open>The queues of the dispatcher\<close>

lemma push_keeps:
  "pushOnce (manager_stub ops hash now) r p (g, w) = Returns (pushed, p', (g', w')) \<Longrightarrow>
     gs_callback g' = gs_callback g \<and> (\<exists>info c. collectAll r default_MonitorInfo (pu_collector p) = Returns (info, c) \<and> p' = p\<lparr>pu_collector := c\<rparr>)"
  by (auto simp: pushOnce_def manager_stub_def SetMonitorInfo_def Let_def split: run.splits prod.splits if_splits option.splits outcome.splits)

text \<open>
  A dispatcher that runs with \<open>n\<close> shards of room \<open>c\<close> and idle query threads, and whose queues hold
  the messages \<open>ms\<close>.
\<close>

definition holding ::
  "('q \<Rightarrow> 'w ManagerTask list) \<Rightarrow> ('q \<Rightarrow> nat) \<Rightarrow> 'w DataReceivedCallback \<Rightarrow> (string \<Rightarrow> u64) \<Rightarrow> nat \<Rightarrow> nat \<Rightarrow> message list
     \<Rightarrow> 'q ManagerDispatcher \<Rightarrow> bool" where
  "holding items cap callback hash n c ms d \<longleftrightarrow>
     running d \<and> queryWorkers d \<noteq> [] \<and> items (queryQueue d) = [] \<and> length (ingestShards d) = n \<and> 0 < n
     \<and> (\<forall>s \<in> set (ingestShards d). is_worker s \<and> cap (is_queue s) = c)
     \<and> backlog items d = map (\<lambda>i. map (push_task callback) (on_shard hash n ms i)) [0..<n]"

context task_queue
begin

lemma submit_caps:
  assumes "submitMonitorTask ops hash key f d = (b, d')"
  shows "map (\<lambda>s. cap (is_queue s)) (ingestShards d') = map (\<lambda>s. cap (is_queue s)) (ingestShards d)"
proof -
  let ?i = "shardIndexFor hash d key"
  have "mq_write ops t (is_queue (ingestShards d ! ?i)) = (b, q) \<Longrightarrow> ingestShards d \<noteq> [] \<Longrightarrow>
      (map (\<lambda>s. cap (is_queue s)) (ingestShards d))[?i := cap q] = map (\<lambda>s. cap (is_queue s)) (ingestShards d)" for t b q
    using write_cases [of t "is_queue (ingestShards d ! ?i)" b q] shardIndexFor_less [of d hash key]
    by (metis list_update_id nth_map)
  then show ?thesis using assms
    by (auto simp: submitMonitorTask_def enqueueIngest_def Let_def map_update split: if_splits prod.splits)
qed

lemma manager_holding:
  fixes env hw
  defines "cfg \<equiv> loadManagerConfigFromEnv env hw"
  shows "holding items cap callback hash (unat (max 1 (ingest_shard_count cfg)))
     (unat (max 1 (ingest_queue_capacity_per_shard cfg))) [] (manager_dispatcher ops env hw)"
proof -
  let ?new = "ManagerDispatcher_new ops cfg (Some zero_metrics)"
  have nr: "\<not> running ?new" by (simp add: ManagerDispatcher_new_def Let_def)
  note shape = dispatcher_start_shape [OF nr]
  note ready = manager_dispatcher_ready [of env hw]
  have md: "manager_dispatcher ops env hw = dispatcher_start ?new" by (simp add: manager_dispatcher_def cfg_def)
  have len: "length (ingestShards (manager_dispatcher ops env hw)) = unat (max 1 (ingest_shard_count cfg))"
    using new_shape(2) [of ops cfg] by (simp add: md shape(2))
  have "\<forall>s \<in> set (ingestShards (manager_dispatcher ops env hw)). cap (is_queue s) = unat (max 1 (ingest_queue_capacity_per_shard cfg))"
    unfolding md shape(2) by (auto simp: ManagerDispatcher_new_def Let_def cap_new)
  moreover have "map (\<lambda>i. map (push_task callback) (on_shard hash n [] i)) [0..<n] = replicate n []" for n
    by (simp add: on_shard_def map_replicate_const)
  moreover have "0 < unat (max 1 (ingest_shard_count cfg))" using ready(2) len by (metis length_greater_0_conv)
  ultimately show ?thesis
    using ready len manager_dispatcher_workers [of ops env hw] by (auto simp: holding_def)
qed

lemma submit_holding:
  assumes "holding items cap callback hash n c ms d" "length ms < c"
    and "submitMonitorTask ops hash (resolveHostID (fst m)) (Some (callback (fst m) (snd m))) d = (b, d')"
  shows "b" "holding items cap callback hash n c (ms @ [m]) d'"
proof -
  let ?i = "shard_of hash n m" and ?key = "resolveHostID (fst m)"
  have len: "length (ingestShards d) = n" "0 < n" and ne: "ingestShards d \<noteq> []"
    and bl: "backlog items d = map (\<lambda>i. map (push_task callback) (on_shard hash n ms i)) [0..<n]"
    and caps: "\<forall>s \<in> set (ingestShards d). is_worker s \<and> cap (is_queue s) = c"
    using assms(1) by (auto simp: holding_def)
  have i: "shardIndexFor hash d ?key = ?i" "?i < n" using len ne by (simp_all add: shardIndexFor_def shard_of_def)
  note spec = submit_refines [OF ne assms(3), unfolded i(1)]
  have "cap (is_queue (ingestShards d ! ?i)) = c" using caps i(2) len by simp
  then show b using spec(1) assms(1,2) i(2) length_on_shard [of hash n ms ?i]
    by (simp add: bl holding_def)
  have "backlog items d' = map (\<lambda>i. map (push_task callback) (on_shard hash n (ms @ [m]) i)) [0..<n]"
    using spec(2) \<open>b\<close> i(2) by (auto simp: bl push_task_def on_shard_def intro!: nth_equalityI simp: nth_list_update)
  moreover have "length (ingestShards d') = n" using submit_caps [OF assms(3)] len(1) map_eq_imp_length_eq by metis
  moreover have "\<forall>s \<in> set (ingestShards d'). cap (is_queue s) = c"
  proof -
    have "(\<lambda>s. cap (is_queue s)) ` set (ingestShards d') = (\<lambda>s. cap (is_queue s)) ` set (ingestShards d)"
      using submit_caps [OF assms(3)] by (metis set_map)
    then show ?thesis using caps by auto
  qed
  ultimately show "holding items cap callback hash n c (ms @ [m]) d'"
    using assms(1) submit_frame [OF assms(3)] by (simp add: holding_def)
qed

lemma holding_stops:
  assumes "holding items cap callback hash n c ms d" "length ms < fuel"
  shows "\<exists>d'. dispatcher_stop ops now fuel (d, w)
        = Some (d', fold (\<lambda>m w. snd (callback (fst m) (snd m) w)) (by_shard hash n ms) w) \<and> \<not> running d'"
proof -
  have "concat (backlog items d) = map (push_task callback) (by_shard hash n ms)"
    using assms(1) by (simp add: holding_def by_shard_def map_concat comp_def)
  moreover have "\<forall>b \<in> set (backlog items d). length b < fuel"
    using assms length_on_shard [of hash n ms] by (auto simp: holding_def intro: le_less_trans)
  moreover have "effect (push_task callback m) = (\<lambda>w. snd (callback (fst m) (snd m) w))" for m
    by (simp add: effect_def push_task_def fun_eq_iff)
  ultimately show ?thesis
    using stop_drains [of d fuel now w] assms by (auto simp: holding_def fold_map comp_def)
qed

text \<open>The pushes of a fleet fill the queues with the messages the workers collect.\<close>

lemma fleet_holds:
  assumes "holding items cap callback hash n c sent d" "gs_dispatcher g = Some d" "gs_callback g = Some callback"
    and "\<forall>p \<in> set ps. host_last (pu_collector p) \<and> pu_workerID p \<noteq> []"
    and "\<forall>(k, r, now) \<in> set vs. k < length ps \<and> at_hostname r \<noteq> Some []"
    and "fleet_messages vs ps = Returns ms" "length sent + length ms \<le> c"
  shows "\<exists>ps' g' d'. fleet_pushes ops hash vs ps (g, w) = Returns (replicate (length vs) True, ps', (g', w))
    \<and> gs_dispatcher g' = Some d' \<and> holding items cap callback hash n c (sent @ ms) d'"
  using assms
proof (induction vs arbitrary: ps g d sent ms)
  case (Cons v vs)
  obtain k r now where v: "v = (k, r, now)" by (cases v)
  let ?p = "ps ! k" and ?id = "\<lparr>worker_id = pu_workerID (ps ! k), worker_token = pu_workerToken (ps ! k)\<rparr>"
  have k: "k < length ps" "at_hostname r \<noteq> Some []" using Cons.prems(5) v by auto
  have p: "host_last (pu_collector ?p)" "pu_workerID ?p \<noteq> []" using Cons.prems(4) k(1) by simp_all
  from Cons.prems(6) obtain info col rest where c: "collectAll r default_MonitorInfo (pu_collector ?p) = Returns (info, col)"
    and rest: "fleet_messages vs (ps[k := ?p\<lparr>pu_collector := col\<rparr>]) = Returns rest" and ms: "ms = (info, ?id) # rest"
    by (auto simp: v split: run.splits prod.splits)
  obtain pushed p' g1 w1 where r: "pushOnce (manager_stub ops hash now) r ?p (g, w) = Returns (pushed, p', (g1, w1))"
    using pushOnce_returns [OF c] by (metis prod_cases3)
  obtain b d1 where d1: "submitMonitorTask ops hash (resolveHostID (fst (info, ?id))) (Some (callback (fst (info, ?id)) (snd (info, ?id)))) d = (b, d1)"
    by fastforce
  have acc: "pushed" "w1 = w" "host_last (pu_collector p')" "pu_workerID p' \<noteq> []" "gs_dispatcher g1 = Some d1"
    using push_accepted [OF p k(2) Cons.prems(2,3) r] c d1 p(2) by auto
  have p': "p' = ?p\<lparr>pu_collector := col\<rparr>" and cb: "gs_callback g1 = Some callback"
    using push_keeps [OF r] c Cons.prems(3) by auto
  have h: "holding items cap callback hash n c (sent @ [(info, ?id)]) d1"
    using submit_holding(2) [OF Cons.prems(1) _ d1] Cons.prems(7) ms by simp
  have "\<forall>p \<in> set (ps[k := p']). host_last (pu_collector p) \<and> pu_workerID p \<noteq> []"
    using Cons.prems(4) acc(3,4) set_update_subset_insert [of ps k p'] by auto
  from Cons.IH [OF h acc(5) cb this, of rest] show ?case
    using Cons.prems(5,7) rest r acc(1,2) by (fastforce simp: v ms p')
qed simp

end

subsection \<open>What the workers send\<close>

lemma fleet_named:
  assumes "\<forall>p \<in> set ps. host_last (pu_collector p)" "\<forall>(k, r, now) \<in> set vs. k < length ps \<and> at_hostname r \<noteq> Some []"
    and "fleet_messages vs ps = Returns ms"
  shows "length ms = length vs \<and> (\<forall>m \<in> set ms. resolveHostID (fst m) \<noteq> [])"
  using assms
proof (induction vs arbitrary: ps ms)
  case (Cons v vs)
  obtain k r now where v: "v = (k, r, now)" by (cases v)
  have k: "k < length ps" "at_hostname r \<noteq> Some []" using Cons.prems(2) v by auto
  have hl: "host_last (pu_collector (ps ! k))" using Cons.prems(1) k(1) by simp
  from Cons.prems(3) obtain info c rest where c: "collectAll r default_MonitorInfo (pu_collector (ps ! k)) = Returns (info, c)"
    and rest: "fleet_messages vs (ps[k := (ps ! k)\<lparr>pu_collector := c\<rparr>]) = Returns rest" and ms: "length ms = Suc (length rest)"
      "set ms = insert (info, \<lparr>worker_id = pu_workerID (ps ! k), worker_token = pu_workerToken (ps ! k)\<rparr>) (set rest)"
    by (auto simp: v split: run.splits prod.splits)
  have ch: "host_last c" "resolveHostID info \<noteq> []" using collectAll_host [OF c hl k(2)] by simp_all
  have "\<forall>p \<in> set (ps[k := (ps ! k)\<lparr>pu_collector := c\<rparr>]). host_last (pu_collector p)"
    using Cons.prems(1) ch(1) set_update_subset_insert [of ps k "(ps ! k)\<lparr>pu_collector := c\<rparr>"] by auto
  from Cons.IH [OF this _ rest] show ?case using Cons.prems(2) ch(2) ms by auto
qed simp

subsection \<open>What the host manager writes\<close>

definition record_of :: "HostMonitoringData \<Rightarrow> string \<times> WorkerScope \<times> HostScore" where
  "record_of data = (hd_host_name data, hd_scope data, hd_host_score data)"

text \<open>The records due for the messages: one for each message of a worker the registry accepts.\<close>

fun due ::
  "(string \<Rightarrow> string) \<Rightarrow> (string \<Rightarrow> registry_reply) \<Rightarrow> int \<Rightarrow> HostManager \<Rightarrow> message list \<Rightarrow> (string \<times> WorkerScope \<times> HostScore) list" where
  "due escape db clock s [] = []"
| "due escape db clock s (m # ms) =
     (case resolveWorkerScope escape db s (snd m) of None \<Rightarrow> due escape db clock s ms
      | Some scope \<Rightarrow> (resolveHostID (fst m), scope,
          \<lparr>hs_info = fst m, hs_score = calculateScore (fst m), hs_timestamp = clock\<rparr>) # due escape db clock s ms)"

lemma receive_frame [simp, frame_simps]:
  "mysqlWritePool (receive escape db show_double clock m s) = mysqlWritePool s"
  "writers (receive escape db show_double clock m s) = writers s"
  "hm_config (receive escape db show_double clock m s) = hm_config s"
  by (auto simp: receive_def onDataReceived_def accept_data_def enqueueMysqlWrite_def drop_sample_def hm_bump_def Let_def
      split: option.split)

lemma receive_capacity [simp]: "write_capacity (receive escape db show_double clock m s) = write_capacity s"
  by (simp add: write_capacity_def)

lemma due_length: "length (due escape db clock s ms) \<le> length ms"
  by (induction ms) (auto split: option.split)

lemma scope_pool: "mysqlWritePool s' = mysqlWritePool s \<Longrightarrow> resolveWorkerScope escape db s' w = resolveWorkerScope escape db s w"
  by (simp add: resolveWorkerScope_def)

lemma due_pool: "mysqlWritePool s' = mysqlWritePool s \<Longrightarrow> due escape db clock s' ms = due escape db clock s ms"
  by (induction ms) (simp_all add: scope_pool [of s' s] split: option.split)

lemma receive_queue:
  assumes "length (mysqlWriteQueue s) < write_capacity s" "resolveHostID (fst m) \<noteq> []"
  shows "map record_of (mysqlWriteQueue (receive escape db show_double clock m s))
    = map record_of (mysqlWriteQueue s) @ due escape db clock s [m]"
  using assms
  by (auto simp: receive_def onDataReceived_def accept_data_def resolveHostID_host_id enqueue_queue write_capacity_def
      record_of_def monitoring_data_def drop_sample_def hm_bump_def Let_def split: option.split)

lemma receives_queue:
  assumes "length (mysqlWriteQueue s) + length ms \<le> write_capacity s" "\<forall>m \<in> set ms. resolveHostID (fst m) \<noteq> []"
  shows "map record_of (mysqlWriteQueue (fold (receive escape db show_double clock) ms s))
      = map record_of (mysqlWriteQueue s) @ due escape db clock s ms
    \<and> writers (fold (receive escape db show_double clock) ms s) = writers s"
  using assms
proof (induction ms arbitrary: s)
  case (Cons m ms)
  let ?s = "receive escape db show_double clock m s"
  have q: "map record_of (mysqlWriteQueue ?s) = map record_of (mysqlWriteQueue s) @ due escape db clock s [m]"
    using Cons.prems by (intro receive_queue) simp_all
  then have "length (mysqlWriteQueue ?s) = length (mysqlWriteQueue s) + length (due escape db clock s [m])"
    by (metis length_append length_map)
  then have "length (mysqlWriteQueue ?s) \<le> Suc (length (mysqlWriteQueue s))" by (simp split: option.split)
  then show ?case using Cons.IH [of ?s] Cons.prems q due_pool [of ?s s escape db clock ms]
    by (auto split: option.split)
qed simp

lemma manager_hosts_fresh:
  "mysqlWriteQueue (manager_hosts mysql env hw) = []" "0 < writers (manager_hosts mysql env hw)"
  "write_capacity (manager_hosts mysql env hw) = unat (max 1 (task_queue_capacity (loadManagerConfigFromEnv env hw)))"
  by (simp_all add: manager_hosts_def hm_start_def configure_def HostManager_new_def write_capacity_def Let_def)

lemma callback_receives:
  "fold (\<lambda>m w. snd (manager_callback escape db show_double (fst m) (snd m) w)) ms (clock, hm)
     = (clock, fold (receive escape db show_double clock) ms hm)"
  by (induction ms arbitrary: hm) (simp_all add: manager_callback_def receive_def)

subsection \<open>From the pushes to the host manager\<close>

definition manager_shards :: "environment \<Rightarrow> u32 \<Rightarrow> nat" where
  "manager_shards env hw = unat (max 1 (ingest_shard_count (loadManagerConfigFromEnv env hw)))"

definition manager_room :: "environment \<Rightarrow> u32 \<Rightarrow> nat" where
  "manager_room env hw = unat (max 1 (ingest_queue_capacity_per_shard (loadManagerConfigFromEnv env hw)))"

lemma fleet_stopped:
  assumes "task_queue ops items cap" "\<forall>p \<in> set ps. host_last (pu_collector p) \<and> pu_workerID p \<noteq> []"
    and "\<forall>(k, r, now) \<in> set vs. k < length ps \<and> at_hostname r \<noteq> Some []"
    and "fleet_messages vs ps = Returns ms" "length ms \<le> manager_room env hw"
  obtains ps' g' d' d'' where
    "fleet_pushes ops hash vs ps (manager_service ops env hw (manager_callback escape db show_double), (clock, hm))
      = Returns (replicate (length vs) True, ps', (g', (clock, hm)))"
    "gs_dispatcher g' = Some d'" "\<not> running d''"
    "dispatcher_stop ops t (Suc (length vs)) (d', (clock, hm))
      = Some (d'', (clock, fold (receive escape db show_double clock) (by_shard hash (manager_shards env hw) ms) hm))"
proof -
  let ?cb = "manager_callback escape db show_double" and ?n = "manager_shards env hw" and ?c = "manager_room env hw"
  have h0: "holding items cap ?cb hash ?n ?c [] (manager_dispatcher ops env hw)"
    unfolding manager_shards_def manager_room_def by (rule task_queue.manager_holding [OF assms(1)])
  have "\<exists>ps' g' d'. fleet_pushes ops hash vs ps (manager_service ops env hw ?cb, (clock, hm))
        = Returns (replicate (length vs) True, ps', (g', (clock, hm)))
      \<and> gs_dispatcher g' = Some d' \<and> holding items cap ?cb hash ?n ?c ([] @ ms) d'"
    by (rule task_queue.fleet_holds [OF assms(1) h0 manager_service_parts assms(2-4)]) (simp add: assms(5))
  then obtain ps' g' d' where f: "fleet_pushes ops hash vs ps (manager_service ops env hw ?cb, (clock, hm))
        = Returns (replicate (length vs) True, ps', (g', (clock, hm)))" "gs_dispatcher g' = Some d'" "holding items cap ?cb hash ?n ?c ms d'"
    by auto
  have "length ms = length vs" using fleet_named [OF _ assms(3,4)] assms(2) by blast
  then obtain d'' where "dispatcher_stop ops t (Suc (length vs)) (d', (clock, hm))
      = Some (d'', (clock, fold (receive escape db show_double clock) (by_shard hash ?n ms) hm))" "\<not> running d''"
    using task_queue.holding_stops [OF assms(1) f(3), of "Suc (length vs)" t "(clock, hm)"] by (auto simp: callback_receives)
  with f(1,2) show ?thesis using that by blast
qed

lemma manager_shards_pos: "0 < manager_shards env hw"
  using new_shape [of fifo_ops "loadManagerConfigFromEnv env hw" None] unfolding manager_shards_def by (metis length_greater_0_conv)

section \<open>A small fleet\<close>

definition sample_fleet :: "MonitorPusher list" where
  "sample_fleet = [sample_pusher, sample_pusher\<lparr>pu_workerID := ''v''\<rparr>]"

definition sample_visits :: "unit visit list" where
  "sample_visits = [(0, bare_host, 5), (1, bare_host, 6)]"

lemma sample_fleet_ok:
  "\<forall>p \<in> set sample_fleet. host_last (pu_collector p) \<and> pu_workerID p \<noteq> []"
  "\<forall>(k, r, now) \<in> set sample_visits. k < length sample_fleet \<and> at_hostname r \<noteq> Some []"
  by (auto simp: sample_fleet_def sample_visits_def sample_pusher_def bare_host_def host_last_def)

lemma sample_fleet_messages: "\<exists>ms. fleet_messages sample_visits sample_fleet = Returns ms \<and> length ms = 2"
proof -
  obtain info c where "collectAll bare_host default_MonitorInfo (pu_collector sample_pusher) = Returns (info, c)"
    using bare_collects by blast
  then show ?thesis by (simp add: sample_visits_def sample_fleet_def)
qed

lemma loaded_task_capacity:
  "task_queue_capacity (loadManagerConfigFromEnv env hw) = task_queue_capacity (load_task_queue env default_config)"
  by (simp add: loadManagerConfigFromEnv_def load_redis_def load_mysql_def load_business_def
      load_query_queue_def load_task_queue_def load_grpc_def Let_def default_config_def)

lemma sample_room: "manager_room Map.empty 8 = 2048" "write_capacity (manager_hosts True Map.empty 8) = 10000"
  by (simp_all add: manager_room_def manager_hosts_fresh(3) frame_simps loaded_task_capacity load_query_queue_def load_task_queue_def
      envSize_def envInt_def int_of_size_def size_of_int_def wrap32_def default_config_def max_def Let_def)

section \<open>The pools of the manager\<close>

context pool_backend
begin

text \<open>A new pool that is started: its entries are fresh, and of the open connections only they are new.\<close>

lemma new_pool_starts:
  assumes "pool_start B now (pool_new cfg mn mx ct rt hc ttl m, w) = (p, w')"
  shows "pool_ok opn (p, w') \<and> opn w' - owned (entries p) = opn w \<and> lent (p, w') = {} \<and> p_running p
     \<and> int (length (entries p)) = max 0 mn \<and> maxSize p = max (max 0 mn) mx"
proof -
  let ?s = "((pool_new cfg mn mx ct rt hc ttl m)\<lparr>p_running := True\<rparr>, w)"
  have s: "pool_ok opn ?s" "entries (fst ?s) = []" "minSize (fst ?s) = max 0 mn" "maxSize (fst ?s) = max (max 0 mn) mx"
      "p_running (fst ?s)" "leaked opn ?s = opn w"
    by (simp_all add: pool_ok_def pool_new_def leaked_def)
  have t: "(add_idle B now ^^ nat (max 0 mn)) ?s = (p, w')"
    using assms by (simp add: pool_start_def pool_new_def)
  have "nat (max 0 mn) \<le> nat (minSize (fst ?s))" by (simp only: s(3) order_refl)
  note st = start_step [OF s(1,2) this, of now, unfolded t]
  then have "maxSize p = maxSize (fst ?s)" "p_running p = p_running (fst ?s)" by (simp_all only: same_pool_def fst_conv)
  with st show ?thesis by (simp add: leaked_def pool_new_def)
qed

end

context mysql_client
begin

lemmas mysql_starts = my.new_pool_starts

end

text \<open>
  In every environment both MySQL pools of the manager start well formed, with the number
  of entries the settings ask for and nothing lent, and they share nothing: no connection
  belongs to both, and every connection that is open afterwards belongs to one of them.
\<close>

theorem manager_pools_start:
  assumes "mysql_client C opn" "opn w = {}" "manager_mysql_pools C env hw now w = (wp, qp, w')"
  shows "pool_ok opn (wp, w') \<and> pool_ok opn (qp, w') \<and> p_running wp \<and> p_running qp
    \<and> owned (entries wp) \<inter> owned (entries qp) = {} \<and> owned (entries wp) \<union> owned (entries qp) = opn w'
    \<and> lent (wp, w') = {} \<and> lent (qp, w') = {}
    \<and> int (length (entries wp)) = max 0 (mysql_write_pool_min (loadManagerConfigFromEnv env hw))
    \<and> int (length (entries qp)) = max 0 (mysql_query_pool_min (loadManagerConfigFromEnv env hw))"
proof -
  let ?cfg = "loadManagerConfigFromEnv env hw" and ?B = "mysql_backend C"
  obtain w1 where 1: "pool_start ?B now (manager_mysql_pool env ?cfg (mysql_write_pool_min ?cfg) (mysql_write_pool_max ?cfg), w) = (wp, w1)"
    and 2: "pool_start ?B now (manager_mysql_pool env ?cfg (mysql_query_pool_min ?cfg) (mysql_query_pool_max ?cfg), w1) = (qp, w')"
    using assms(3) unfolding manager_mysql_pools_def Let_def by (simp split: prod.splits)
  note a = mysql_client.mysql_starts [OF assms(1) 1 [unfolded manager_mysql_pool_def]]
    and b = mysql_client.mysql_starts [OF assms(1) 2 [unfolded manager_mysql_pool_def]]
  have "owned (entries wp) = opn w1" using a assms(2) by (auto simp: pool_ok_def)
  moreover have "owned (entries qp) \<subseteq> opn w'" using b by (simp add: pool_ok_def)
  moreover have "opn w' - owned (entries qp) = opn w1" "pool_ok opn (qp, w')" using b by simp_all
  moreover have "pool_ok opn (wp, w')" using a calculation by (simp add: pool_ok_def) blast
  moreover have "lent (wp, w') = {}" using a by (simp add: lent_def)
  ultimately show ?thesis using a b by (intro conjI) (simp_all, blast+)
qed

theorem manager_pools_start_witness:
  "\<exists>wp qp w'. manager_mysql_pools sim_client Map.empty 8 0 (0, {}, True) = (wp, qp, w')
     \<and> owned (entries wp) \<inter> owned (entries qp) = {} \<and> pool_ok sim_open (wp, w') \<and> pool_ok sim_open (qp, w')"
proof -
  obtain wp qp w' where r: "manager_mysql_pools sim_client Map.empty 8 0 (0, {}, True) = (wp, qp, w')" by (metis prod_cases3)
  have "sim_open (0, {}, True) = {}" by (simp add: sim_open_def)
  from manager_pools_start [OF sim_my.mysql_client_axioms this r] r show ?thesis by blast
qed

end
