(* ===== verification/Console_Log.thy ===== *)
theory Console_Log
  imports Worker_Push
begin

text \<open>
  What the programs write to the console about the data they handle: the report the worker
  prints before each push (\<open>MonitorPusher::pushOnce\<close>) and the one the manager prints of each accepted push
  when \<open>MANAGER_VERBOSE_LOG\<close> is set (\<open>HostManager::onDataReceived\<close>). A text is the list of its lines. How the
  stream prints a floating point number is the argument \<open>d\<close>.
\<close>

section \<open>The report of the worker\<close>

type_synonym number_text = "fp \<Rightarrow> string"

definition log_cpu_stat :: "number_text \<Rightarrow> CpuStat \<Rightarrow> string list" where
  "log_cpu_stat d cpuStat =
     [''['' @ cs_cpu_name cpuStat @ ''] Total: '' @ d (cs_cpu_percent cpuStat) @ ''%, User: '' @ d (cs_usr_percent cpuStat)
        @ ''%, System: '' @ d (cs_system_percent cpuStat) @ ''%, Nice: '' @ d (cs_nice_percent cpuStat) @ ''%, Idle: ''
        @ d (cs_idle_percent cpuStat) @ ''%, IOWait: '' @ d (cs_io_wait_percent cpuStat) @ ''%, IRQ: ''
        @ d (cs_irq_percent cpuStat) @ ''%, SoftIRQ: '' @ d (cs_soft_irq_percent cpuStat) @ ''%'']"

definition log_cpu_load :: "number_text \<Rightarrow> CpuLoad \<Rightarrow> string list" where
  "log_cpu_load d l =
     [[],
      ''--- CPU Load ---'',
      ''[Load] 1min: '' @ d (cl_load_avg_1 l) @ '', 5min: '' @ d (cl_load_avg_3 l) @ '', 15min: '' @ d (cl_load_avg_15 l)]"

definition log_mem_info :: "number_text \<Rightarrow> MemInfo \<Rightarrow> string list" where
  "log_mem_info d mem =
     [[],
      ''--- Memory Info ---'',
      ''[Memory] Used: '' @ d (mi_used_percent mem) @ ''%'',
      ''  Total: '' @ d (mi_total mem) @ '' MB, Free: '' @ d (mi_free mem) @ '' MB, Avail: '' @ d (mi_avail mem) @ '' MB'',
      ''  Buffers: '' @ d (mi_buffers mem) @ '' MB, Cached: '' @ d (mi_cached mem) @ '' MB, SwapCached: ''
        @ d (mi_swap_cached mem) @ '' MB'',
      ''  Active: '' @ d (mi_active mem) @ '' MB, Inactive: '' @ d (mi_inactive mem) @ '' MB'',
      ''  ActiveAnon: '' @ d (mi_active_anon mem) @ '' MB, InactiveAnon: '' @ d (mi_inactive_anon mem) @ '' MB'',
      ''  ActiveFile: '' @ d (mi_active_file mem) @ '' MB, InactiveFile: '' @ d (mi_inactive_file mem) @ '' MB'',
      ''  Dirty: '' @ d (mi_dirty mem) @ '' MB, Writeback: '' @ d (mi_writeback mem) @ '' MB'',
      ''  AnonPages: '' @ d (mi_anon_pages mem) @ '' MB, Mapped: '' @ d (mi_mapped mem) @ '' MB'',
      ''  KReclaimable: '' @ d (mi_kReclaimable mem) @ '' MB, SReclaimable: '' @ d (mi_sReclaimable mem) @ '' MB, SUnreclaim: ''
        @ d (mi_sUnreclaim mem) @ '' MB'']"

definition log_net_info :: "number_text \<Rightarrow> NetInfo \<Rightarrow> string list" where
  "log_net_info d net =
     [''['' @ ni_name net @ '']'',
      ''  Recv: '' @ d (ni_rcv_rate net) @ '' B/s ('' @ d (ni_rcv_packets_rate net) @ '' pkt/s)'',
      ''  Send: '' @ d (ni_send_rate net) @ '' B/s ('' @ d (ni_send_packets_rate net) @ '' pkt/s)'',
      ''  Errors(in/out): '' @ show_nat (unat (ni_err_in net)) @ ''/'' @ show_nat (unat (ni_err_out net))
        @ '', Drops(in/out): '' @ show_nat (unat (ni_drop_in net)) @ ''/'' @ show_nat (unat (ni_drop_out net))]"

definition log_disk_info :: "number_text \<Rightarrow> DiskInfo \<Rightarrow> string list" where
  "log_disk_info d disk =
     [''['' @ di_name disk @ '']'',
      ''  Read: '' @ d (fdiv f64 (di_read_bytes_per_sec disk) (Fin 1024)) @ '' KB/s, IOPS: '' @ d (di_read_iops disk)
        @ '', Latency: '' @ d (di_avg_read_latency_ms disk) @ '' ms'',
      ''  Write: '' @ d (fdiv f64 (di_write_bytes_per_sec disk) (Fin 1024)) @ '' KB/s, IOPS: '' @ d (di_write_iops disk)
        @ '', Latency: '' @ d (di_avg_write_latency_ms disk) @ '' ms'',
      ''  Util: '' @ d (di_util_percent disk) @ ''%, IO_InProgress: '' @ show_nat (unat (di_io_in_progress disk)),
      ''  Reads: '' @ show_nat (unat (di_reads disk)) @ '', Writes: '' @ show_nat (unat (di_writes disk)) @ '', SectorsRead: ''
        @ show_nat (unat (di_sectors_read disk)) @ '', SectorsWritten: '' @ show_nat (unat (di_sectors_written disk))]"

definition log_soft_irq :: "number_text \<Rightarrow> SoftIrq \<Rightarrow> string list" where
  "log_soft_irq d sirq =
     [''['' @ si_cpu sirq @ ''] HI: '' @ d (si_hi sirq) @ '', TIMER: '' @ d (si_timer sirq) @ '', NET_TX: ''
        @ d (si_net_tx sirq) @ '', NET_RX: '' @ d (si_net_rx sirq) @ '', BLOCK: '' @ d (si_block sirq) @ '', IRQ_POLL: ''
        @ d (si_irq_poll sirq) @ '', TASKLET: '' @ d (si_tasklet sirq) @ '', SCHED: '' @ d (si_sched sirq) @ '', HRTIMER: ''
        @ d (si_hrtimer sirq) @ '', RCU: '' @ d (si_rcu sirq)]"

definition log_mysql_info :: "number_text \<Rightarrow> MysqlInfo \<Rightarrow> string list" where
  "log_mysql_info d mysql =
     [''['' @ my_instance mysql @ ''] Up: '' @ (if my_up mysql then ''yes'' else ''no'') @ '', Role: '' @ my_role mysql
        @ '', Version: '' @ my_version mysql,
      ''  Connections: '' @ show_nat (unat (my_threads_connected mysql)) @ ''/'' @ show_nat (unat (my_max_connections mysql))
        @ '', Running: '' @ show_nat (unat (my_threads_running mysql)) @ '', Questions: ''
        @ show_nat (unat (my_questions mysql)) @ '', Slow: '' @ show_nat (unat (my_slow_queries mysql)),
      ''  InnoDB hit: '' @ d (my_innodb_buffer_pool_hit_percent mysql) @ ''%, Row lock waits: ''
        @ show_nat (unat (my_innodb_row_lock_waits mysql))]
     @ (if my_replication_configured mysql
        then [''  Replication: '' @ (if my_replication_running mysql then ''running'' else ''stopped'') @ '', Lag: ''
        @ d (my_replication_lag_seconds mysql) @ ''s'']
        else [])"

definition log_redis_info :: "number_text \<Rightarrow> RedisInfo \<Rightarrow> string list" where
  "log_redis_info d redis =
     [''['' @ rd_instance redis @ ''] Up: '' @ (if rd_up redis then ''yes'' else ''no'') @ '', Role: '' @ rd_role redis
        @ '', Version: '' @ rd_version redis,
      ''  Clients: '' @ show_nat (unat (rd_connected_clients redis)) @ ''/'' @ show_nat (unat (rd_maxclients redis))
        @ '', Memory: '' @ d (rd_memory_used_percent redis) @ ''%, Ops/s: '' @ d (rd_instantaneous_ops_per_sec redis),
      ''  Hit: '' @ d (rd_keyspace_hit_percent redis) @ ''%, Evicted: '' @ show_nat (unat (rd_evicted_keys redis))
        @ '', Slowlog: '' @ show_nat (unat (rd_slowlog_len redis))]"

text \<open>A section with a title and the lines of each element, left out when there are no elements.\<close>

definition log_section :: "string \<Rightarrow> ('a \<Rightarrow> string list) \<Rightarrow> 'a list \<Rightarrow> string list" where
  "log_section title f xs = (if xs = [] then [] else [[], title] @ concat (map f xs))"

definition collected_log :: "number_text \<Rightarrow> MonitorInfo \<Rightarrow> string list" where
  "collected_log d info =
     [[], ''============== Collected Metrics ============='']
     @ (case m_host_info info of None \<Rightarrow> [] | Some h \<Rightarrow> [''[Host] Hostname: '' @ hi_hostname h])
     @ [[], ''--- CPU Statistics ---''] @ concat (map (log_cpu_stat d) (m_cpu_stat info))
     @ (case m_cpu_load info of None \<Rightarrow> [] | Some l \<Rightarrow> log_cpu_load d l)
     @ (case m_mem_info info of None \<Rightarrow> [] | Some mem \<Rightarrow> log_mem_info d mem)
     @ log_section ''--- Network Info ---'' (log_net_info d) (m_net_info info)
     @ log_section ''--- Disk Info ---'' (log_disk_info d) (m_disk_info info)
     @ log_section ''--- SoftIRQ Info ---'' (log_soft_irq d) (m_soft_irq info)
     @ log_section ''--- MySQL Info ---'' (log_mysql_info d) (m_mysql_info info)
     @ log_section ''--- Redis Info ---'' (log_redis_info d) (m_redis_info info)
     @ [''=============================================='']"

text \<open>
  A push with what it writes to standard output and to the error output; \<open>lost\<close> is the message of
  the status when the manager's handler has thrown.
\<close>

definition pushed_line :: "MonitorPusher \<Rightarrow> string" where
  "pushed_line p = ''>>> Pushed monitor data to '' @ pu_managerAddress p @ '' successfully <<<''"

definition failed_line :: "string \<Rightarrow> string" where
  "failed_line message = ''>>> Push failed: '' @ message @ '' <<<''"

definition pushOnce_logged ::
  "number_text \<Rightarrow> string \<Rightarrow> ((string \<times> string) list \<Rightarrow> MonitorInfo \<Rightarrow> 's \<Rightarrow> grpc_Status option \<times> 's) \<Rightarrow> 'm surroundings
     \<Rightarrow> MonitorPusher \<Rightarrow> 's \<Rightarrow> (bool \<times> MonitorPusher \<times> 's \<times> string list \<times> string list) run" where
  "pushOnce_logged d lost stub r p s =
     (case collectAll r default_MonitorInfo (pu_collector p) of Throws \<Rightarrow> Throws | Undefined \<Rightarrow> Undefined
      | Returns (info, c) \<Rightarrow>
          (let out = collected_log d info
           in case stub (push_metadata p) info s of (status, s) \<Rightarrow>
                (let (success, message) = (case status of None \<Rightarrow> (False, lost) | Some st \<Rightarrow> (ok st, snd st))
                 in if success then Returns (True, p\<lparr>pu_collector := c\<rparr>, s, out @ [pushed_line p], [])
                    else Returns (False, p\<lparr>pu_collector := c\<rparr>, s, out, [failed_line message]))))"

section \<open>The report of the manager\<close>

definition log_received_net :: "number_text \<Rightarrow> NetInfo \<Rightarrow> string list" where
  "log_received_net d net =
     [''  ['' @ ni_name net @ ''] Recv: '' @ d (ni_rcv_rate net) @ '' B/s, Send: '' @ d (ni_send_rate net) @ '' B/s, Drops: ''
        @ show_nat (unat (ni_drop_in net)) @ ''/'' @ show_nat (unat (ni_drop_out net))]"

definition log_received_disk :: "number_text \<Rightarrow> DiskInfo \<Rightarrow> string list" where
  "log_received_disk d disk =
     [''  ['' @ di_name disk @ ''] Read: '' @ d (fdiv f64 (di_read_bytes_per_sec disk) (Fin 1024)) @ '' KB/s, Write: ''
        @ d (fdiv f64 (di_write_bytes_per_sec disk) (Fin 1024)) @ '' KB/s, Util: '' @ d (di_util_percent disk) @ ''%'']"

definition log_received_redis :: "number_text \<Rightarrow> RedisInfo \<Rightarrow> string list" where
  "log_received_redis d redis =
     [''  ['' @ rd_instance redis @ ''] Up: '' @ (if rd_up redis then ''yes'' else ''no'') @ '', Role: '' @ rd_role redis
        @ '', Clients: '' @ show_nat (unat (rd_connected_clients redis)) @ '', Memory: '' @ d (rd_memory_used_percent redis)
        @ ''%, Hit: '' @ d (rd_keyspace_hit_percent redis) @ ''%'']"

text \<open>\<open>cur\<close> is the sample of this push, \<open>data\<close> the record that was queued; \<open>mysql\<close>: the build has MySQL.\<close>

definition received_log ::
  "number_text \<Rightarrow> bool \<Rightarrow> string \<Rightarrow> fp \<Rightarrow> PerfSample \<Rightarrow> HostMonitoringData \<Rightarrow> MonitorInfo \<Rightarrow> string list" where
  "received_log d mysql hostID score cur data info =
     [[],
      ''================== Received Data =================='',
      ''Server: '' @ hostID @ '', Score: '' @ d score,
      [],
      ''--- CPU ---'',
      ''  Usage: '' @ d (p_cpu_percent cur) @ ''%, User: '' @ d (p_usr_percent cur) @ ''%, System: '' @ d (p_system_percent cur)
        @ ''%'',
      ''  Nice: '' @ d (p_nice_percent cur) @ ''%, Idle: '' @ d (p_idle_percent cur) @ ''%, IOWait: ''
        @ d (p_io_wait_percent cur) @ ''%'',
      ''  IRQ: '' @ d (p_irq_percent cur) @ ''%, SoftIRQ: '' @ d (p_soft_irq_percent cur) @ ''%'',
      ''  Load: '' @ d (p_load_avg_1 cur) @ ''/'' @ d (p_load_avg_3 cur) @ ''/'' @ d (p_load_avg_15 cur),
      [],
      ''--- Memory ---'',
      ''  Used: '' @ d (p_mem_used_percent cur) @ ''%, Total: '' @ d (p_mem_total cur) @ '' MB'',
      ''  Free: '' @ d (p_mem_free cur) @ '' MB, Avail: '' @ d (p_mem_avail cur) @ '' MB'',
      [],
      ''--- Network ---'',
      ''  In: '' @ d (fmul f32 (fmul f32 (p_net_in_rate cur) (Fin 1024)) (Fin 1024)) @ '' B/s, Out: ''
        @ d (fmul f32 (fmul f32 (p_net_out_rate cur) (Fin 1024)) (Fin 1024)) @ '' B/s'']
     @ concat (map (log_received_net d) (m_net_info info))
     @ [[], ''--- Disk ---''] @ concat (map (log_received_disk d) (m_disk_info info))
     @ (if m_disk_info info = [] then [''  No disk data''] else [])
     @ log_section ''--- Redis ---'' (log_received_redis d) (m_redis_info info)
     @ [[],
      ''--- SoftIRQ ---'',
      ''  CPU cores with softirq data: '' @ show_nat (length (m_soft_irq info)),
      [],
      ''--- Change Rates ---'',
      ''  CPU: '' @ d (fmul f32 (hd_cpu_percent_rate data) (Fin 100)) @ ''%, Mem: ''
        @ d (fmul f32 (hd_mem_used_percent_rate data) (Fin 100)) @ ''%, Load: ''
        @ d (fmul f32 (hd_load_avg_1_rate data) (Fin 100)) @ ''%'',
      ''  NetIn: '' @ d (fmul f32 (hd_net_in_rate_rate data) (Fin 100)) @ ''%, NetOut: ''
        @ d (fmul f32 (hd_net_out_rate_rate data) (Fin 100)) @ ''%'',
      [],
      ''--- Database ---'']
     @ [if mysql then ''  Data enqueued for MySQL writer pool'' else ''  MySQL support is disabled'']
     @ [''===================================================='', []]"

definition onDataReceived_logged ::
  "(string \<Rightarrow> string) \<Rightarrow> (string \<Rightarrow> registry_reply) \<Rightarrow> (fp \<Rightarrow> string) \<Rightarrow> number_text \<Rightarrow> bool \<Rightarrow> int \<Rightarrow> MonitorInfo \<Rightarrow> WorkerIdentity
     \<Rightarrow> HostManager \<Rightarrow> string list \<times> HostManager" where
  "onDataReceived_logged escape db show_double d mysql now info workerIdentity s =
     (let s' = onDataReceived escape db show_double now info workerIdentity s
      in case resolveWorkerScope escape db s workerIdentity of None \<Rightarrow> ([], s')
         | Some scope \<Rightarrow>
             if host_id info = [] \<or> \<not> verbose_log (hm_config s) then ([], s')
             else
               (let hostID = host_id info; score = calculateScore info;
                    cur = perf_sample info (net_mb ni_rcv_rate info) (net_mb ni_send_rate info) score;
                    prev = (case lastPerfSamples s hostID of None \<Rightarrow> zero_PerfSample | Some q \<Rightarrow> q);
                    data = monitoring_data hostID scope \<lparr>hs_info = info, hs_score = score, hs_timestamp = now\<rparr> cur prev
                in (received_log d mysql hostID score cur data info, s')))"

section \<open>What the logs show\<close>

text \<open>
  The log of a push changes nothing about it; success is announced on standard output, failure
  on the error output, and never both.
\<close>

theorem pushOnce_logged_erases:
  "pushOnce stub r p s =
     (case pushOnce_logged d lost stub r p s of Throws \<Rightarrow> Throws | Undefined \<Rightarrow> Undefined
      | Returns (pushed, p', s', out, err) \<Rightarrow> Returns (pushed, p', s'))"
  "pushOnce_logged d lost stub r p s = Returns (pushed, p', s', out, err) \<Longrightarrow>
     (\<exists>info c. collectAll r default_MonitorInfo (pu_collector p) = Returns (info, c)
        \<and> (if pushed then out = collected_log d info @ [pushed_line p] \<and> err = []
           else out = collected_log d info \<and> (\<exists>message. err = [failed_line message])))"
  by (auto simp: pushOnce_def pushOnce_logged_def Let_def split: run.splits prod.splits option.splits if_splits)

text \<open>The report has the lines of every CPU, interface, disk and server of the message.\<close>

lemma log_section_length: "length (log_section title f xs) = (if xs = [] then 0 else 2 + sum_list (map (length \<circ> f) xs))"
  by (simp add: log_section_def length_concat comp_def)

theorem collected_log_length:
  "length (collected_log d info) =
     5 + (if m_host_info info = None then 0 else 1) + length (m_cpu_stat info)
     + (if m_cpu_load info = None then 0 else 3) + (if m_mem_info info = None then 0 else 11)
     + (if m_net_info info = [] then 0 else 2 + 4 * length (m_net_info info))
     + (if m_disk_info info = [] then 0 else 2 + 5 * length (m_disk_info info))
     + (if m_soft_irq info = [] then 0 else 2 + length (m_soft_irq info))
     + (if m_mysql_info info = [] then 0
        else 2 + 3 * length (m_mysql_info info) + length (filter my_replication_configured (m_mysql_info info)))
     + (if m_redis_info info = [] then 0 else 2 + 3 * length (m_redis_info info))"
proof -
  have my: "sum_list (map (length \<circ> log_mysql_info d) xs) = 3 * length xs + length (filter my_replication_configured xs)" for xs
    by (induction xs) (simp_all add: log_mysql_info_def)
  have fixed: "sum_list (map (length \<circ> log_net_info d) ns) = 4 * length ns" "sum_list (map (length \<circ> log_disk_info d) ds) = 5 * length ds"
    "sum_list (map (length \<circ> log_soft_irq d) is) = length is" "sum_list (map (length \<circ> log_redis_info d) rs) = 3 * length rs"
    "sum_list (map (length \<circ> log_cpu_stat d) cs) = length cs" for ns ds "is" rs cs
    by (simp_all add: comp_def log_net_info_def log_disk_info_def log_soft_irq_def log_redis_info_def log_cpu_stat_def sum_list_triv)
  show ?thesis
    by (simp add: collected_log_def log_section_length my fixed length_concat log_cpu_load_def log_mem_info_def
        split: option.split)
qed

text \<open>Whatever is printed, the manager does the same; it prints only what it has accepted, and only when asked to.\<close>

theorem received_logged_erases:
  "snd (onDataReceived_logged escape db show_double d mysql now info w s) = onDataReceived escape db show_double now info w s"
  "fst (onDataReceived_logged escape db show_double d mysql now info w s) \<noteq> [] \<longleftrightarrow>
     verbose_log (hm_config s) \<and> host_id info \<noteq> [] \<and> resolveWorkerScope escape db s w \<noteq> None"
  by (auto simp: onDataReceived_logged_def received_log_def Let_def split: option.split)

end
