(* ===== verification/Store_Query.thy ===== *)
theory Store_Query
  imports Mysql_Write Query_Correct
begin

text \<open>
  What the manager stores is what it answers: the rows \<open>HostManager::writeToMysql\<close> inserts
  (\<open>Mysql_Write\<close>) come back through the page queries of \<open>QueryManager\<close> (\<open>Query_Manager\<close>) as
  the fields they were written from. The database between the two is a parameter: the text
  it returns for a stored number, and a reply that has, for each stored row, the values of
  the columns the statement selects. The locale \<open>stored_table\<close> is the contract a table's
  pair of writer and parser has to meet, and the page query over such a table is proved once
  for all tables.
\<close>

section \<open>Selected columns\<close>

text \<open>The column names of a select list, between its commas.\<close>

fun comma_split :: "string \<Rightarrow> string list" where
  "comma_split [] = [[]]"
| "comma_split (c # s) = (case comma_split s of
     [] \<Rightarrow> [[c]] | w # ws \<Rightarrow> if c = CHR '','' then [] # w # ws else (c # w) # ws)"

definition column_names :: "string \<Rightarrow> string list" where
  "column_names cols = comma_split (filter (\<lambda>c. c \<noteq> CHR '' '') cols)"

text \<open>The text of a stored value, none for a null; \<open>num\<close> is the text of a stored floating value.\<close>

fun stored_text :: "(fp \<Rightarrow> string) \<Rightarrow> sql_value \<Rightarrow> string option" where
  "stored_text num (SqlText s) = Some s"
| "stored_text num (SqlFp x) = Some (num x)"
| "stored_text num (SqlU32 n) = Some (show_nat (unat n))"
| "stored_text num (SqlU64 n) = Some (show_nat (unat n))"
| "stored_text num (SqlFlag b) = Some (if b then ''1'' else ''0'')"
| "stored_text num SqlNull = None"

definition fetched_row :: "(fp \<Rightarrow> string) \<Rightarrow> string \<Rightarrow> Insert \<Rightarrow> string option list" where
  "fetched_row num cols r = map (\<lambda>c. Option.bind (column r c) (stored_text num)) (column_names cols)"

text \<open>The place of a column in a table, by which its value is found.\<close>

definition place :: "string list \<Rightarrow> string \<Rightarrow> nat" where
  "place cs c = length (takeWhile (\<lambda>d. d \<noteq> c) cs)"

lemma map_of_zip_place:
  "length vs = length cs \<Longrightarrow> map_of (zip cs vs) c = (if c \<in> set cs then Some (vs ! place cs c) else None)"
  by (induction cs vs rule: list_induct2') (auto simp: place_def)

definition places :: "string list \<Rightarrow> string \<Rightarrow> nat list" where
  "places cs cols = map (place (scope_columns @ cs @ [''timestamp''])) (column_names cols)"

definition selectable :: "string list \<Rightarrow> string \<Rightarrow> bool" where
  "selectable cs cols \<longleftrightarrow> list_all (\<lambda>c. c \<in> set (scope_columns @ cs @ [''timestamp''])) (column_names cols)"

lemma column_insert_row:
  assumes "length vs = length cs" "c \<in> set (scope_columns @ cs @ [''timestamp''])"
  shows "column (insert_row fmt_time data t cs vs) c
    = Some ((scope_values data @ vs @ [SqlText (fmt_time (hs_timestamp (hd_host_score data)))])
              ! place (scope_columns @ cs @ [''timestamp'']) c)"
proof -
  let ?cs = "scope_columns @ cs @ [''timestamp'']"
  let ?vs = "scope_values data @ vs @ [SqlText (fmt_time (hs_timestamp (hd_host_score data)))]"
  have "length ?vs = length ?cs" using assms(1) by simp
  from map_of_zip_place [OF this, of c] assms(2) have "map_of (zip ?cs ?vs) c = Some (?vs ! place ?cs c)" by simp
  then show ?thesis by (simp only: column_def insert_row_def Insert.select_convs)
qed

lemma fetched_insert_row:
  assumes "length vs = length cs" "selectable cs cols"
  shows "fetched_row num cols (insert_row fmt_time data t cs vs)
    = map (\<lambda>i. stored_text num ((scope_values data @ vs @ [SqlText (fmt_time (hs_timestamp (hd_host_score data)))]) ! i))
        (places cs cols)"
  using assms unfolding fetched_row_def places_def selectable_def
  by (simp add: list_all_iff column_insert_row del: set_append)

text \<open>A select list of names without commas and blanks is read as these names.\<close>

definition plain :: "string \<Rightarrow> bool" where
  "plain s \<longleftrightarrow> list_all (\<lambda>c. c \<noteq> CHR '','' \<and> c \<noteq> CHR '' '') s"

lemma comma_split_some: "comma_split s \<noteq> []"
  by (cases s) (simp_all split: list.splits)

lemma comma_split_plain: "plain w \<Longrightarrow> comma_split w = [w]"
  by (induction w) (auto simp: plain_def)

lemma comma_split_comma: "plain w \<Longrightarrow> comma_split (w @ CHR '','' # s) = w # comma_split s"
  by (induction w) (auto simp: plain_def comma_split_some split: list.splits)

lemma filter_plain: "plain w \<Longrightarrow> filter (\<lambda>c. c \<noteq> CHR '' '') w = w"
  by (simp add: plain_def filter_id_conv list_all_iff)

lemma column_names_join: "list_all plain ns \<Longrightarrow> ns \<noteq> [] \<Longrightarrow> column_names (join_with '', '' ns) = ns"
proof (induction ns)
  case (Cons w ns)
  then show ?case by (cases ns) (simp_all add: column_names_def filter_plain comma_split_plain comma_split_comma)
qed simp

lemma place_nth: "distinct cs \<Longrightarrow> i < length cs \<Longrightarrow> place cs (cs ! i) = i"
proof (induction cs arbitrary: i)
  case (Cons c cs)
  then show ?case by (cases i) (auto simp: place_def)
qed simp

lemma select_places:
  assumes "distinct (scope_columns @ cs @ [''timestamp''])" "list_all plain (scope_columns @ cs @ [''timestamp''])"
    and "cols = join_with '', '' (map ((!) (scope_columns @ cs @ [''timestamp''])) idx)"
    and "idx \<noteq> []" "list_all (\<lambda>i. i < 6 + length cs) idx"
  shows "places cs cols = idx \<and> selectable cs cols"
proof -
  let ?all = "scope_columns @ cs @ [''timestamp'']"
  have i: "\<forall>i \<in> set idx. i < length ?all" using assms(5) by (simp add: list_all_iff)
  then have "\<forall>c \<in> set (map ((!) ?all) idx). c \<in> set ?all" by (simp del: set_append length_append)
  then have "list_all plain (map ((!) ?all) idx)" using assms(2) unfolding list_all_iff by blast
  then have names: "column_names cols = map ((!) ?all) idx" using column_names_join assms(3,4) by simp
  have "map (place ?all) (map ((!) ?all) idx) = idx"
    unfolding map_map by (rule map_idI) (simp add: i place_nth [OF assms(1)] del: length_append)
  moreover have "list_all (\<lambda>c. c \<in> set ?all) (map ((!) ?all) idx)"
    using i by (auto simp: list_all_iff simp del: set_append length_append)
  ultimately show ?thesis unfolding places_def selectable_def names by blast
qed

text \<open>Every statement selects columns its table has, at these places.\<close>

lemma columns_plain:
  "list_all plain (scope_columns @ perf_columns @ [''timestamp''])" "list_all plain (scope_columns @ net_columns @ [''timestamp''])"
  "list_all plain (scope_columns @ softirq_columns @ [''timestamp''])" "list_all plain (scope_columns @ mem_columns @ [''timestamp''])"
  "list_all plain (scope_columns @ disk_columns @ [''timestamp''])" "list_all plain (scope_columns @ mysql_columns @ [''timestamp''])"
  "list_all plain (scope_columns @ redis_columns @ [''timestamp''])"
  by (simp_all add: plain_def scope_columns_def perf_columns_def net_columns_def softirq_columns_def mem_columns_def
      disk_columns_def mysql_columns_def redis_columns_def)

lemma perf_places:
  "places perf_columns perf_select = [4, 42, 5, 6, 7, 8, 9, 10, 11, 12, 13, 14, 15, 16, 17, 18, 19, 20, 21, 22, 23, 24, 35, 39, 32, 40, 41]
   \<and> selectable perf_columns perf_select"
  by (rule select_places [OF columns_distinct(1) columns_plain(1)])
    (simp_all add: perf_select_def scope_columns_def perf_columns_def)

lemma net_places:
  "places net_columns net_select = [4, 5, 22, 6, 7, 8, 9, 10, 12, 11, 13]
   \<and> selectable net_columns net_select"
  by (rule select_places [OF columns_distinct(2) columns_plain(2)])
    (simp_all add: net_select_def scope_columns_def net_columns_def)

lemma disk_places:
  "places disk_columns disk_select = [4, 5, 29, 15, 16, 17, 18, 19, 20, 21]
   \<and> selectable disk_columns disk_select"
  by (rule select_places [OF columns_distinct(5) columns_plain(5)])
    (simp_all add: disk_select_def scope_columns_def disk_columns_def)

lemma mem_places:
  "places mem_columns mem_select = [4, 43, 5, 6, 7, 8, 9, 11, 12, 17]
   \<and> selectable mem_columns mem_select"
  by (rule select_places [OF columns_distinct(4) columns_plain(4)])
    (simp_all add: mem_select_def scope_columns_def mem_columns_def)

lemma softirq_places:
  "places softirq_columns sirq_select = [4, 5, 26, 6, 7, 8, 9, 10, 13]
   \<and> selectable softirq_columns sirq_select"
  by (rule select_places [OF columns_distinct(3) columns_plain(3)])
    (simp_all add: sirq_select_def scope_columns_def softirq_columns_def)

lemma mysql_places:
  "places mysql_columns mysql_select = [4, 5, 36, 6, 7, 8, 9, 10, 11, 12, 13, 14, 15, 16, 17, 18, 19, 20, 21, 22, 23, 24, 25, 26, 27, 28, 29, 30, 31, 32, 33, 34, 35]
   \<and> selectable mysql_columns mysql_select"
  by (rule select_places [OF columns_distinct(6) columns_plain(6)])
    (simp_all add: mysql_select_def scope_columns_def mysql_columns_def)

lemma redis_places:
  "places redis_columns redis_select = [4, 5, 40, 6, 7, 8, 9, 10, 11, 12, 13, 14, 15, 16, 17, 18, 19, 20, 21, 22, 23, 24, 25, 26, 27, 28, 29, 30, 31, 32, 33, 34, 35, 36, 37, 38, 39]
   \<and> selectable redis_columns redis_select"
  by (rule select_places [OF columns_distinct(7) columns_plain(7)])
    (simp_all add: redis_select_def scope_columns_def redis_columns_def)

lemmas selects_places = perf_places net_places disk_places mem_places softirq_places mysql_places redis_places

section \<open>Reading a stored row\<close>

text \<open>
  A row the database can hold and return whole: its counters are within the signed \<open>BIGINT\<close>
  and \<open>INT\<close> columns, the time has a text, and no selected text is longer than the buffer of
  4096 bytes a result column is fetched into.
\<close>

definition in_column :: "sql_value \<Rightarrow> bool" where
  "in_column v = (case v of SqlU64 n \<Rightarrow> unat n < 2 ^ 63 | SqlU32 n \<Rightarrow> unat n < 2 ^ 31 | _ \<Rightarrow> True)"

definition in_buffer :: "string option \<Rightarrow> bool" where
  "in_buffer c = (case c of None \<Rightarrow> True | Some t \<Rightarrow> length t \<le> 4096)"

definition storable :: "(fp \<Rightarrow> string) \<Rightarrow> string \<Rightarrow> Insert \<Rightarrow> bool" where
  "storable num cols r \<longleftrightarrow> list_all in_column (i_values r) \<and> list_all in_buffer (fetched_row num cols r)
     \<and> column r ''timestamp'' \<noteq> Some (SqlText [])"

definition fetched_text :: "string option \<Rightarrow> string" where
  "fetched_text c = (case c of None \<Rightarrow> [] | Some t \<Rightarrow> t)"

lemma storable_cells: "storable num cols r \<Longrightarrow> map cell_text (fetched_row num cols r) = map fetched_text (fetched_row num cols r)"
  by (auto simp: storable_def list_all_iff in_buffer_def cell_text_def fetched_text_def split: option.splits)

text \<open>A floating value as its text reads back, and a whole number from a floating value's text.\<close>

definition fp_back :: "(fp \<Rightarrow> string) \<Rightarrow> fp \<Rightarrow> fp" where
  "fp_back num x = (if num x = [] then Fin 0 else to_f32 (atof (num x)))"

definition whole_text :: "string \<Rightarrow> bool" where
  "whole_text t \<longleftrightarrow> t \<noteq> [] \<and> checked (stoll t) \<noteq> None"

definition whole_back :: "(fp \<Rightarrow> string) \<Rightarrow> fp \<Rightarrow> int" where
  "whole_back num x = (case stoll (num x) of Inl _ \<Rightarrow> 0 | Inr i \<Rightarrow> i)"

text \<open>The records the rows of a table are read back as.\<close>

definition performance_back :: "(fp \<Rightarrow> string) \<Rightarrow> query_env \<Rightarrow> (int \<Rightarrow> string) \<Rightarrow> HostMonitoringData \<Rightarrow> Samples \<Rightarrow> PerformanceRecord" where
  "performance_back num E fmt_time data s =
     (let info = hs_info (hd_host_score data);
          cpu = (case selectAggregateCpuStat info of None \<Rightarrow> default_CpuStat | Some c \<Rightarrow> c);
          ld = (case m_cpu_load info of None \<Rightarrow> default_CpuLoad | Some l \<Rightarrow> l);
          mm = (case m_mem_info info of None \<Rightarrow> default_MemInfo | Some x \<Rightarrow> x);
          nt = (case m_net_info info of [] \<Rightarrow> default_NetInfo | n # _ \<Rightarrow> n);
          util = max_util (m_disk_info info)
      in \<lparr>pr_server_name = hd_host_name data,
        pr_timestamp = q_parseTimeString E (fmt_time (hs_timestamp (hd_host_score data))),
        pr_cpu_percent = fp_back num (cs_cpu_percent cpu), pr_usr_percent = fp_back num (cs_usr_percent cpu),
        pr_sys_percent = fp_back num (cs_system_percent cpu), pr_nice_percent = fp_back num (cs_nice_percent cpu),
        pr_idle_percent = fp_back num (cs_idle_percent cpu),
        pr_io_wait_percent = fp_back num (cs_io_wait_percent cpu),
        pr_irq_percent = fp_back num (cs_irq_percent cpu),
        pr_soft_irq_percent = fp_back num (cs_soft_irq_percent cpu),
        pr_load_avg_1 = fp_back num (cl_load_avg_1 ld), pr_load_avg_3 = fp_back num (cl_load_avg_3 ld),
        pr_load_avg_15 = fp_back num (cl_load_avg_15 ld), pr_mem_used_percent = fp_back num (mi_used_percent mm),
        pr_mem_total = fp_back num (mi_total mm), pr_mem_free = fp_back num (mi_free mm),
        pr_mem_avail = fp_back num (mi_avail mm), pr_disk_util_percent = fp_back num util,
        pr_net_recv_bytes = fp_back num (ni_rcv_rate nt), pr_net_sent_bytes = fp_back num (ni_send_rate nt),
        pr_score = fp_back num (hs_score (hd_host_score data)),
        pr_cpu_percent_rate = fp_back num (hd_cpu_percent_rate data),
        pr_mem_used_percent_rate = fp_back num (hd_mem_used_percent_rate data),
        pr_disk_util_percent_rate = fp_back num (disk_util_rate (lastDiskUtil s) (hd_host_name data) util),
        pr_load_avg_1_rate = fp_back num (hd_load_avg_1_rate data),
        pr_net_recv_bytes_rate = fp_back num (hd_net_out_rate_rate data),
        pr_net_sent_bytes_rate = fp_back num (hd_net_in_rate_rate data)\<rparr>)"

definition net_back :: "(fp \<Rightarrow> string) \<Rightarrow> query_env \<Rightarrow> (int \<Rightarrow> string) \<Rightarrow> HostMonitoringData \<Rightarrow> NetInfo \<Rightarrow> NetDetailRecord" where
  "net_back num E fmt_time data n =
     (\<lparr>nr_server_name = hd_host_name data, nr_net_name = ni_name n,
        nr_timestamp = q_parseTimeString E (fmt_time (hs_timestamp (hd_host_score data))),
        nr_err_in = ni_err_in n, nr_err_out = ni_err_out n, nr_drop_in = ni_drop_in n,
        nr_drop_out = ni_drop_out n, nr_recv_bytes_rate = fp_back num (ni_rcv_rate n),
        nr_sent_bytes_rate = fp_back num (ni_send_rate n),
        nr_recv_packets_rate = fp_back num (ni_rcv_packets_rate n),
        nr_sent_packets_rate = fp_back num (ni_send_packets_rate n)\<rparr>)"

definition disk_back :: "(fp \<Rightarrow> string) \<Rightarrow> query_env \<Rightarrow> (int \<Rightarrow> string) \<Rightarrow> HostMonitoringData \<Rightarrow> DiskInfo \<Rightarrow> DiskDetailRecord" where
  "disk_back num E fmt_time data d =
     (\<lparr>dr_server_name = hd_host_name data, dr_disk_name = di_name d,
        dr_timestamp = q_parseTimeString E (fmt_time (hs_timestamp (hd_host_score data))),
        dr_read_bytes_per_sec = fp_back num (di_read_bytes_per_sec d),
        dr_write_bytes_per_sec = fp_back num (di_write_bytes_per_sec d),
        dr_read_iops = fp_back num (di_read_iops d), dr_write_iops = fp_back num (di_write_iops d),
        dr_avg_read_latency_ms = fp_back num (di_avg_read_latency_ms d),
        dr_avg_write_latency_ms = fp_back num (di_avg_write_latency_ms d),
        dr_util_percent = fp_back num (di_util_percent d)\<rparr>)"

definition mem_back :: "(fp \<Rightarrow> string) \<Rightarrow> query_env \<Rightarrow> (int \<Rightarrow> string) \<Rightarrow> HostMonitoringData \<Rightarrow> MemInfo \<Rightarrow> MemDetailRecord" where
  "mem_back num E fmt_time data x =
     (\<lparr>mr_server_name = hd_host_name data,
        mr_timestamp = q_parseTimeString E (fmt_time (hs_timestamp (hd_host_score data))),
        mr_mem_total = fp_back num (mi_total x), mr_mem_free = fp_back num (mi_free x),
        mr_mem_avail = fp_back num (mi_avail x), mr_buffers = fp_back num (mi_buffers x),
        mr_cached = fp_back num (mi_cached x), mr_active = fp_back num (mi_active x),
        mr_inactive = fp_back num (mi_inactive x), mr_dirty = fp_back num (mi_dirty x)\<rparr>)"

definition softirq_back :: "(fp \<Rightarrow> string) \<Rightarrow> query_env \<Rightarrow> (int \<Rightarrow> string) \<Rightarrow> HostMonitoringData \<Rightarrow> SoftIrq \<Rightarrow> SoftIrqDetailRecord" where
  "softirq_back num E fmt_time data q =
     (\<lparr>sr_server_name = hd_host_name data, sr_cpu_name = si_cpu q,
        sr_timestamp = q_parseTimeString E (fmt_time (hs_timestamp (hd_host_score data))),
        sr_hi = whole_back num (si_hi q), sr_timer = whole_back num (si_timer q),
        sr_net_tx = whole_back num (si_net_tx q), sr_net_rx = whole_back num (si_net_rx q),
        sr_block = whole_back num (si_block q), sr_sched = whole_back num (si_sched q)\<rparr>)"

definition mysql_back :: "(fp \<Rightarrow> string) \<Rightarrow> query_env \<Rightarrow> (int \<Rightarrow> string) \<Rightarrow> HostMonitoringData \<Rightarrow> MysqlInfo \<Rightarrow> Samples \<Rightarrow> MysqlDetailRecord" where
  "mysql_back num E fmt_time data x s =
     (let inst = instance_name (my_instance x) (my_host x) (my_port x);
          cur = mysql_sample (hs_timestamp (hd_host_score data)) x;
          prev = entry zero_MysqlDetailSample (lastMysqlSamples s) (hd_host_name data, inst);
          seconds = (if ms_initialized prev then elapsed_seconds (ms_timestamp cur) (ms_timestamp prev) else Fin 0);
          rate = (\<lambda>f. if ms_initialized prev then counterRate (f cur) (f prev) seconds else Fin 0)
      in \<lparr>mq_server_name = hd_host_name data, mq_instance = inst,
        mq_timestamp = q_parseTimeString E (fmt_time (hs_timestamp (hd_host_score data))),
        mq_mysql_host = my_host x, mq_mysql_port = int (unat (my_port x)), mq_up = my_up x,
        mq_version = my_version x, mq_role = (if my_role x = [] then ''unknown'' else my_role x),
        mq_max_connections = my_max_connections x, mq_threads_connected = my_threads_connected x,
        mq_threads_running = my_threads_running x, mq_aborted_connects = my_aborted_connects x,
        mq_questions = my_questions x, mq_com_select = my_com_select x, mq_com_insert = my_com_insert x,
        mq_com_update = my_com_update x, mq_com_delete = my_com_delete x, mq_com_commit = my_com_commit x,
        mq_com_rollback = my_com_rollback x, mq_slow_queries = my_slow_queries x,
        mq_innodb_buffer_pool_read_requests = my_innodb_buffer_pool_read_requests x,
        mq_innodb_buffer_pool_reads = my_innodb_buffer_pool_reads x,
        mq_innodb_buffer_pool_hit_percent = fp_back num (my_innodb_buffer_pool_hit_percent x),
        mq_innodb_row_lock_waits = my_innodb_row_lock_waits x,
        mq_innodb_row_lock_time_avg_ms = fp_back num (my_innodb_row_lock_time_avg_ms x),
        mq_replication_configured = my_replication_configured x,
        mq_replication_running = my_replication_running x,
        mq_replication_lag_seconds = fp_back num (my_replication_lag_seconds x),
        mq_connection_used_percent = fp_back num (used_percent (my_threads_connected x) (my_max_connections x)),
        mq_qps = fp_back num (rate ms_questions),
        mq_tps = fp_back num (rate (\<lambda>m. ms_com_commit m + ms_com_rollback m)),
        mq_slow_queries_rate = fp_back num (rate ms_slow_queries),
        mq_innodb_row_lock_waits_rate = fp_back num (rate ms_innodb_row_lock_waits)\<rparr>)"

definition redis_back :: "(fp \<Rightarrow> string) \<Rightarrow> query_env \<Rightarrow> (int \<Rightarrow> string) \<Rightarrow> HostMonitoringData \<Rightarrow> RedisInfo \<Rightarrow> Samples \<Rightarrow> RedisDetailRecord" where
  "redis_back num E fmt_time data x s =
     (let inst = instance_name (rd_instance x) (rd_host x) (rd_port x);
          cur = redis_sample (hs_timestamp (hd_host_score data)) x;
          prev = entry zero_RedisDetailSample (lastRedisSamples s) (hd_host_name data, inst);
          seconds = (if rs_initialized prev then elapsed_seconds (rs_timestamp cur) (rs_timestamp prev) else Fin 0);
          rate = (\<lambda>f. if rs_initialized prev then counterRate (f cur) (f prev) seconds else Fin 0)
      in \<lparr>rr_server_name = hd_host_name data, rr_instance = inst,
        rr_timestamp = q_parseTimeString E (fmt_time (hs_timestamp (hd_host_score data))),
        rr_redis_host = rd_host x, rr_redis_port = int (unat (rd_port x)), rr_up = rd_up x,
        rr_version = rd_version x, rr_role = (if rd_role x = [] then ''unknown'' else rd_role x),
        rr_uptime_in_seconds = rd_uptime_in_seconds x, rr_connected_clients = rd_connected_clients x,
        rr_blocked_clients = rd_blocked_clients x, rr_maxclients = rd_maxclients x,
        rr_connection_used_percent = fp_back num (used_percent (rd_connected_clients x) (rd_maxclients x)),
        rr_used_memory = rd_used_memory x, rr_maxmemory = rd_maxmemory x,
        rr_mem_fragmentation_ratio = fp_back num (rd_mem_fragmentation_ratio x),
        rr_memory_used_percent = fp_back num (rd_memory_used_percent x),
        rr_total_commands_processed = rd_total_commands_processed x,
        rr_instantaneous_ops_per_sec = fp_back num (rd_instantaneous_ops_per_sec x),
        rr_commands_per_sec = fp_back num (rate rs_total_commands_processed),
        rr_keyspace_hits = rd_keyspace_hits x, rr_keyspace_misses = rd_keyspace_misses x,
        rr_keyspace_hit_percent = fp_back num (rd_keyspace_hit_percent x), rr_expired_keys = rd_expired_keys x,
        rr_evicted_keys = rd_evicted_keys x, rr_rejected_connections = rd_rejected_connections x,
        rr_total_error_replies = rd_total_error_replies x, rr_total_net_input_bytes = rd_total_net_input_bytes x,
        rr_total_net_output_bytes = rd_total_net_output_bytes x,
        rr_net_input_bytes_per_sec = fp_back num (rate rs_total_net_input_bytes),
        rr_net_output_bytes_per_sec = fp_back num (rate rs_total_net_output_bytes),
        rr_replication_configured = rd_replication_configured x, rr_master_link_up = rd_master_link_up x,
        rr_connected_slaves = rd_connected_slaves x,
        rr_master_last_io_seconds_ago = fp_back num (rd_master_last_io_seconds_ago x),
        rr_slowlog_len = rd_slowlog_len x,
        rr_slowlog_growth = fp_back num (if rs_initialized prev then counterDelta (rs_slowlog_len cur) (rs_slowlog_len prev) else Fin 0)\<rparr>)"

section \<open>The parsers on stored rows\<close>

lemma place_last: "c \<notin> set cs \<Longrightarrow> place (cs @ [c]) c = length cs"
  by (induction cs) (auto simp: place_def)

lemma time_text:
  assumes "storable num cols (insert_row fmt_time data t cs vs)" "length vs = length cs"
    and "distinct (scope_columns @ cs @ [''timestamp''])"
  shows "fmt_time (hs_timestamp (hd_host_score data)) \<noteq> []"
proof -
  have "place (scope_columns @ cs @ [''timestamp'']) ''timestamp'' = 5 + length cs"
    using place_last [of "''timestamp''" "scope_columns @ cs"] assms(3) by simp
  with column_insert_row [OF assms(2), of "''timestamp''" fmt_time data t] assms(1,2)
  show ?thesis by (auto simp: storable_def nth_append)
qed

lemmas time_texts = columns_distinct [THEN time_text [rotated 2], unfolded columns_length, rotated]

lemmas cells_simps = fetched_insert_row selects_places columns_length fetched_text_def scope_values_def Let_def

lemmas reads_simps = cell_def time_cell_def toFloat_def fp_back_def

lemma toU64_back: "i < length row \<Longrightarrow> row ! i = show_nat (unat n) \<Longrightarrow> toU64 row i = Some n"
  using unsigned_less [of n, where 'a = nat]
  by (simp add: toU64_def cell_def show_nat_nonempty stoull_show_nat checked_def)

lemma toI64_port:
  "i < length row \<Longrightarrow> row ! i = show_nat (unat (n :: u32)) \<Longrightarrow> toI64 row i = Some (int (unat n))"
  using unsigned_less [of n, where 'a = nat]
  by (simp add: toI64_def cell_def show_nat_nonempty stoll_def scan_number_show_nat checked_def)

lemma port_back:
  assumes "storable num cols r" "SqlU32 n \<in> set (i_values r)"
  shows "wrap32 (uint n) = uint n"
proof -
  have "unat n < 2 ^ 31" using assms by (auto simp: storable_def list_all_iff in_column_def)
  then have "uint n < 2 ^ 31" by (metis nat_int_comparison(2) of_nat_numeral of_nat_power uint_nat)
  then show ?thesis by (intro wrap32_id order_trans [OF _ uint_ge_0]) simp_all
qed

lemma toBool_back: "i < length row \<Longrightarrow> row ! i = (if b then ''1'' else ''0'') \<Longrightarrow> toBool row i = b"
  by (simp add: toBool_def cell_def)

lemma toI64_back: "i < length row \<Longrightarrow> row ! i = num x \<Longrightarrow> whole_text (num x) \<Longrightarrow> toI64 row i = Some (whole_back num x)"
  by (auto simp: toI64_def cell_def whole_text_def whole_back_def checked_def split: sum.splits)

lemma performance_reads:
  assumes "storable num perf_select (fst (perf_row fmt_time data s))"
  shows "performance_record E (map cell_text (fetched_row num perf_select (fst (perf_row fmt_time data s))))
    = Some (performance_back num E fmt_time data s)"
proof -
  have t: "fmt_time (hs_timestamp (hd_host_score data)) \<noteq> []"
    using assms by (auto simp: perf_row_def Let_def perf_values_def dest: time_texts(1) [rotated])
  show ?thesis unfolding storable_cells [OF assms]
    by (simp add: cells_simps perf_row_def perf_values_def performance_record_def performance_back_def)
      (simp add: reads_simps t)
qed

lemma net_reads:
  assumes "storable num net_select (fst (net_row fmt_time data n s))"
  shows "net_detail_record E (map cell_text (fetched_row num net_select (fst (net_row fmt_time data n s))))
    = Some (net_back num E fmt_time data n)"
proof -
  have t: "fmt_time (hs_timestamp (hd_host_score data)) \<noteq> []"
    using assms by (auto simp: net_row_def Let_def dest: time_texts(2) [rotated])
  show ?thesis unfolding storable_cells [OF assms]
    by (simp add: cells_simps net_row_def net_sample_def net_detail_record_def net_back_def toU64_back)
      (simp add: reads_simps t)
qed

lemma disk_reads:
  assumes "storable num disk_select (fst (disk_row fmt_time data d s))"
  shows "disk_detail_record E (map cell_text (fetched_row num disk_select (fst (disk_row fmt_time data d s))))
    = Some (disk_back num E fmt_time data d)"
proof -
  have t: "fmt_time (hs_timestamp (hd_host_score data)) \<noteq> []"
    using assms by (auto simp: disk_row_def Let_def dest: time_texts(5) [rotated])
  show ?thesis unfolding storable_cells [OF assms]
    by (simp add: cells_simps disk_row_def disk_detail_record_def disk_back_def disk_sample_def)
      (simp add: reads_simps t)
qed

lemma mem_reads:
  assumes "storable num mem_select (fst (mem_row fmt_time data x s))"
  shows "mem_detail_record E (map cell_text (fetched_row num mem_select (fst (mem_row fmt_time data x s))))
    = Some (mem_back num E fmt_time data x)"
proof -
  have t: "fmt_time (hs_timestamp (hd_host_score data)) \<noteq> []"
    using assms by (auto simp: mem_row_def Let_def dest: time_texts(4) [rotated])
  show ?thesis unfolding storable_cells [OF assms]
    by (simp add: cells_simps mem_row_def mem_detail_record_def mem_back_def mem_sample_def)
      (simp add: reads_simps t)
qed

lemma softirq_reads:
  assumes "storable num sirq_select (fst (softirq_row fmt_time data q s))" 
    and "list_all (\<lambda>f. whole_text (num (f q))) [si_hi, si_timer, si_net_tx, si_net_rx, si_block, si_sched]"
  shows "softirq_detail_record E (map cell_text (fetched_row num sirq_select (fst (softirq_row fmt_time data q s))))
    = Some (softirq_back num E fmt_time data q)"
proof -
  have t: "fmt_time (hs_timestamp (hd_host_score data)) \<noteq> []"
    using assms by (auto simp: softirq_row_def Let_def dest: time_texts(3) [rotated])
  show ?thesis unfolding storable_cells [OF assms(1)]
    by (simp add: cells_simps softirq_row_def softirq_detail_record_def softirq_back_def softirq_sample_def toI64_back [where num = num] assms(2) [simplified])
      (simp add: reads_simps t)
qed

lemma mysql_reads:
  assumes "storable num mysql_select (fst (mysql_row fmt_time data x s))"
  shows "mysql_detail_record E (map cell_text (fetched_row num mysql_select (fst (mysql_row fmt_time data x s))))
    = Some (mysql_back num E fmt_time data x s)"
proof -
  have t: "fmt_time (hs_timestamp (hd_host_score data)) \<noteq> []"
    using assms by (auto simp: mysql_row_def Let_def dest: time_texts(6) [rotated])
  have "SqlU32 (my_port x) \<in> set (i_values (fst (mysql_row fmt_time data x s)))"
    by (simp add: mysql_row_def insert_row_def Let_def)
  from port_back [OF assms this] have p: "wrap32 (uint (my_port x)) = uint (my_port x)" .
  show ?thesis unfolding storable_cells [OF assms]
    by (simp add: cells_simps mysql_row_def mysql_detail_record_def mysql_back_def toU64_back toI64_port toBool_back p)
      (simp add: reads_simps t)
qed

lemma redis_reads:
  assumes "storable num redis_select (fst (redis_row fmt_time data x s))"
  shows "redis_detail_record E (map cell_text (fetched_row num redis_select (fst (redis_row fmt_time data x s))))
    = Some (redis_back num E fmt_time data x s)"
proof -
  have t: "fmt_time (hs_timestamp (hd_host_score data)) \<noteq> []"
    using assms by (auto simp: redis_row_def Let_def dest: time_texts(7) [rotated])
  have "SqlU32 (rd_port x) \<in> set (i_values (fst (redis_row fmt_time data x s)))"
    by (simp add: redis_row_def insert_row_def Let_def)
  from port_back [OF assms this] have p: "wrap32 (uint (rd_port x)) = uint (rd_port x)" .
  show ?thesis unfolding storable_cells [OF assms]
    by (simp add: cells_simps redis_row_def redis_detail_record_def redis_back_def toU64_back toI64_port toBool_back p)
      (simp add: reads_simps t)
qed

section \<open>Page queries over stored tables\<close>

text \<open>The statement of a page query and, when a total is asked for, the total it gets.\<close>

definition page_statement :: "string \<Rightarrow> string \<Rightarrow> QueryScope \<Rightarrow> string" where
  "page_statement table cols scope =
     ''SELECT '' @ cols @ '' FROM '' @ table @ '' '' @ whereClause scope @ '' ORDER BY timestamp DESC LIMIT ? OFFSET ?''"

definition page_total ::
  "string \<Rightarrow> string \<Rightarrow> query_env \<Rightarrow> QueryScope \<Rightarrow> string \<Rightarrow> TimeRange \<Rightarrow> int option \<Rightarrow> string + int option" where
  "page_total table ctxt E scope serverName r cnt =
     (case cnt of None \<Rightarrow> Inr None
      | Some _ \<Rightarrow> map_sum id Some
          (executePreparedCount E (''SELECT COUNT(*) FROM '' @ table @ '' '' @ whereClause scope)
             (whereParams E scope serverName r) (ctxt @ '' count'')))"

text \<open>The database answers the page query with these stored rows.\<close>

definition page_holds ::
  "string \<Rightarrow> string \<Rightarrow> query_env \<Rightarrow> QueryScope \<Rightarrow> string \<Rightarrow> TimeRange \<Rightarrow> int \<Rightarrow> int \<Rightarrow> (fp \<Rightarrow> string) \<Rightarrow> Insert list \<Rightarrow> bool" where
  "page_holds table cols E scope serverName r page pageSize num rs =
     (case page_offset (fix_page page) (fix_size pageSize) of None \<Rightarrow> False
      | Some off \<Rightarrow> q_db E (page_statement table cols scope)
            (whereParams E scope serverName r @ [Int64Param (fix_size pageSize), Int64Param off])
          = Fetched (map (fetched_row num cols) rs) None \<and> list_all (storable num cols) rs)"

definition found_records :: "int option \<Rightarrow> 'r list \<Rightarrow> 'r answer run" where
  "found_records n recs = Returns \<lparr>a_records = recs, a_total = n, a_error = []\<rparr>"

text \<open>
  A table whose rows, written from data of type \<open>'d\<close>, the parser of its query reads back as
  \<open>seen\<close>; \<open>readable\<close> is what the table asks of the texts of its numbers.
\<close>

locale stored_table =
  fixes table cols ctxt :: string
    and parse :: "query_env \<Rightarrow> string list \<Rightarrow> 'r option"
    and row :: "(int \<Rightarrow> string) \<Rightarrow> 'd \<Rightarrow> Insert"
    and seen :: "(fp \<Rightarrow> string) \<Rightarrow> query_env \<Rightarrow> (int \<Rightarrow> string) \<Rightarrow> 'd \<Rightarrow> 'r"
    and readable :: "(fp \<Rightarrow> string) \<Rightarrow> 'd \<Rightarrow> bool"
  assumes reads: "storable num cols (row fmt_time d) \<Longrightarrow> readable num d
    \<Longrightarrow> parse E (map cell_text (fetched_row num cols (row fmt_time d))) = Some (seen num E fmt_time d)"
begin

lemma rows_read:
  assumes "list_all (storable num cols) (map (row fmt_time) ds)" "list_all (readable num) ds"
  shows "those (map (parse E \<circ> map cell_text \<circ> fetched_row num cols \<circ> row fmt_time) ds) = Some (map (seen num E fmt_time) ds)"
  using assms by (induction ds) (simp_all add: reads)

lemma page_reads:
  assumes "admitted E q scope (Some r)"
    and "page_holds table cols E scope serverName r page pageSize num (map (row fmt_time) ds)"
    and "list_all (readable num) ds" "page_total table ctxt E scope serverName r cnt = Inr n"
  shows "queryPage table cols ctxt parse E q scope serverName r page pageSize cnt
    = (found_records n (map (seen num E fmt_time) ds), q)"
proof -
  from assms(2) obtain off where off: "page_offset (fix_page page) (fix_size pageSize) = Some off"
    and db: "q_db E (page_statement table cols scope)
            (whereParams E scope serverName r @ [Int64Param (fix_size pageSize), Int64Param off])
          = Fetched (map (fetched_row num cols) (map (row fmt_time) ds)) None"
    and ok: "list_all (storable num cols) (map (row fmt_time) ds)"
    by (auto simp: page_holds_def split: option.splits)
  have "executePreparedRows E (page_statement table cols scope)
      (whereParams E scope serverName r @ [Int64Param (fix_size pageSize), Int64Param off]) (ctxt @ '' query'')
    = Inr (map (map cell_text \<circ> fetched_row num cols \<circ> row fmt_time) ds)"
    by (simp add: executePreparedRows_def db)
  with assms(1,4) off rows_read [OF ok assms(3), of E] show ?thesis
    by (simp add: queryPage_def page_total_def page_statement_def parsed_def found_records_def comp_assoc)
qed

end

interpretation perfs: stored_table "''server_performance''" perf_select "''performance''" performance_record
  "\<lambda>fmt_time (data, s). fst (perf_row fmt_time data s)" "\<lambda>num E fmt_time (data, s). performance_back num E fmt_time data s"
  "\<lambda>num d. True"
  by unfold_locales (auto simp: performance_reads)

interpretation net_table: stored_table "''server_net_detail''" net_select "''net detail''" net_detail_record
  "\<lambda>fmt_time (data, n, s). fst (net_row fmt_time data n s)" "\<lambda>num E fmt_time (data, n, s). net_back num E fmt_time data n"
  "\<lambda>num d. True"
  by unfold_locales (auto simp: net_reads)

interpretation disk_table: stored_table "''server_disk_detail''" disk_select "''disk detail''" disk_detail_record
  "\<lambda>fmt_time (data, x, s). fst (disk_row fmt_time data x s)" "\<lambda>num E fmt_time (data, x, s). disk_back num E fmt_time data x"
  "\<lambda>num d. True"
  by unfold_locales (auto simp: disk_reads)

interpretation mem_table: stored_table "''server_mem_detail''" mem_select "''mem detail''" mem_detail_record
  "\<lambda>fmt_time (data, x, s). fst (mem_row fmt_time data x s)" "\<lambda>num E fmt_time (data, x, s). mem_back num E fmt_time data x"
  "\<lambda>num d. True"
  by unfold_locales (auto simp: mem_reads)

interpretation softirq_table: stored_table "''server_softirq_detail''" sirq_select "''softirq detail''" softirq_detail_record
  "\<lambda>fmt_time (data, x, s). fst (softirq_row fmt_time data x s)" "\<lambda>num E fmt_time (data, x, s). softirq_back num E fmt_time data x"
  "\<lambda>num (data, x, s). list_all (\<lambda>f. whole_text (num (f x))) [si_hi, si_timer, si_net_tx, si_net_rx, si_block, si_sched]"
  by unfold_locales (auto simp: softirq_reads)

interpretation mysql_table: stored_table "''server_mysql_detail''" mysql_select "''mysql detail''" mysql_detail_record
  "\<lambda>fmt_time (data, x, s). fst (mysql_row fmt_time data x s)" "\<lambda>num E fmt_time (data, x, s). mysql_back num E fmt_time data x s"
  "\<lambda>num d. True"
  by unfold_locales (auto simp: mysql_reads)

interpretation redis_table: stored_table "''server_redis_detail''" redis_select "''redis detail''" redis_detail_record
  "\<lambda>fmt_time (data, x, s). fst (redis_row fmt_time data x s)" "\<lambda>num E fmt_time (data, x, s). redis_back num E fmt_time data x s"
  "\<lambda>num d. True"
  by unfold_locales (auto simp: redis_reads)

section \<open>Stored data is what queries return\<close>

lemma storable_insert_row:
  assumes "length vs = length cs" "distinct (scope_columns @ cs @ [''timestamp''])"
  shows "storable num cols (insert_row fmt_time data t cs vs) \<longleftrightarrow>
    list_all in_column (scope_values data @ vs) \<and> list_all in_buffer (fetched_row num cols (insert_row fmt_time data t cs vs))
    \<and> fmt_time (hs_timestamp (hd_host_score data)) \<noteq> []"
proof -
  have "place (scope_columns @ cs @ [''timestamp'']) ''timestamp'' = 5 + length cs"
    using place_last [of "''timestamp''" "scope_columns @ cs"] assms(2) by simp
  with column_insert_row [OF assms(1), of "''timestamp''" fmt_time data t] assms(1)
  show ?thesis by (simp add: storable_def nth_append) (auto simp: insert_row_def in_column_def)
qed


lemmas query_defs = queryNetDetailRecords_def queryDiskDetailRecords_def queryMemDetailRecords_def
  querySoftIrqDetailRecords_def queryMysqlDetailRecords_def queryRedisDetailRecords_def


section \<open>Witnesses\<close>

definition demo_text :: "fp \<Rightarrow> string" where
  "demo_text x = ''7''"

definition demo_row :: Insert where
  "demo_row = fst (perf_row (\<lambda>_. ''now'') demo_record no_samples)"

definition demo_net_row :: Insert where
  "demo_net_row = fst (net_row (\<lambda>_. ''now'') demo_record (default_NetInfo\<lparr>ni_name := ''eth0'', ni_err_in := 3\<rparr>) no_samples)"

definition demo_env :: "string \<Rightarrow> Insert \<Rightarrow> query_env" where
  "demo_env cols row = sample_env\<lparr>q_db := (\<lambda>sql ps. Fetched [fetched_row demo_text cols row] None)\<rparr>"

lemma demo_storable: "storable demo_text perf_select demo_row"
  unfolding perf_row_def Let_def fst_conv demo_row_def
  by (subst storable_insert_row [OF _ columns_distinct(1)])
    (simp_all add: perf_values_def cells_simps in_column_def in_buffer_def demo_record_simps demo_text_def)

lemma demo_net_storable: "storable demo_text net_select demo_net_row"
  unfolding net_row_def Let_def fst_conv demo_net_row_def
  by (subst storable_insert_row [OF _ columns_distinct(2)])
    (simp_all add: net_sample_def cells_simps in_column_def in_buffer_def demo_record_simps demo_text_def default_NetInfo_def
      show_nat.simps)

lemma demo_admitted: "admitted (demo_env cols row) sample_manager sample_scope (Some sample_range)"
  using sample_admitted by (simp add: admitted_def demo_env_def)

lemma demo_holds:
  "storable demo_text cols row
   \<Longrightarrow> page_holds table cols (demo_env cols row) sample_scope ''web1'' sample_range 1 10 demo_text [row]"
  by (simp add: page_holds_def page_offset_def fix_page_def fix_size_def demo_env_def)

lemma text_seven: "to_f32 (atof ''7'') = Fin 7"
proof -
  have "''7'' = show_nat 7" by code_simp
  then show ?thesis by (simp add: atof_show_nat fp_eval)
qed



end
