(* ===== verification/Writer_Threads.thy ===== *)
theory Writer_Threads
  imports Mysql_Write "HOL-Library.Sublist" "HOL-Library.Multiset"
begin

text \<open>
  The writer threads of \<open>HostManager\<close> (\<open>HostManager.cpp\<close>: \<open>start\<close>, \<open>stop\<close>,
  \<open>enqueueMysqlWrite\<close>, \<open>mysqlWriteLoop\<close>). Threads that receive reports put records into one
  bounded queue; \<open>max (1, mysql_write_pool_max)\<close> writers take them out and write them, one at
  a time under \<open>mysqlWriteMutex_\<close>. A step is what one thread does under one lock. The
  invariant, by rule induction over all interleavings, says that every record leaves the
  queue once, at its front, and that each writer writes what it took in the order it took
  it. It leaves open the order between writers, and two records of one host can be written
  in the wrong order.
\<close>

section \<open>Threads\<close>

text \<open>A writer: before the queue's lock, with a record before \<open>mysqlWriteMutex_\<close>, with it, or gone.\<close>

datatype writer_pc = WHead | WTook HostMonitoringData | WWriting HostMonitoringData | WGone

text \<open>
  The manager, the samples the writing keeps and the writers; and what has happened: the
  records put in, those removed with the writer that took them (none: dropped for room),
  those written with the statements they became, and those put in after the last writer left.
\<close>

record write_threads =
  wt_manager :: HostManager
  wt_samples :: Samples
  wt_pcs :: "writer_pc list"
  wt_enqueued :: "HostMonitoringData list"
  wt_removed :: "(nat option \<times> HostMonitoringData) list"
  wt_written :: "(nat \<times> HostMonitoringData \<times> Insert list) list"
  wt_late :: "HostMonitoringData list"

definition writers_start :: "HostManager \<Rightarrow> Samples \<Rightarrow> write_threads" where
  "writers_start h smp =
     \<lparr>wt_manager = hm_start h, wt_samples = smp, wt_pcs = replicate (writers (hm_start h)) WHead,
      wt_enqueued = [], wt_removed = [], wt_written = [], wt_late = []\<rparr>"

definition all_gone :: "write_threads \<Rightarrow> bool" where
  "all_gone s \<longleftrightarrow> list_all (\<lambda>p. p = WGone) (wt_pcs s)"

definition writing :: "writer_pc \<Rightarrow> bool" where
  "writing p = (case p of WWriting _ \<Rightarrow> True | _ \<Rightarrow> False)"

definition mutex_free :: "write_threads \<Rightarrow> bool" where
  "mutex_free s \<longleftrightarrow> list_all (\<lambda>p. \<not> writing p) (wt_pcs s)"

abbreviation queue :: "write_threads \<Rightarrow> HostMonitoringData list" where
  "queue s \<equiv> mysqlWriteQueue (wt_manager s)"

definition put_record :: "HostMonitoringData \<Rightarrow> write_threads \<Rightarrow> write_threads" where
  "put_record d s = s\<lparr>wt_manager := enqueueMysqlWrite d (wt_manager s),
     wt_enqueued := wt_enqueued s @ [d],
     wt_removed := wt_removed s @ (if write_capacity (wt_manager s) \<le> length (queue s) then [(None, hd (queue s))] else []),
     wt_late := wt_late s @ (if all_gone s then [d] else [])\<rparr>"

text \<open>
  The steps of writer \<open>i\<close>. A round that finds nothing while the manager runs goes back to
  waiting and changes nothing.
\<close>

inductive writer_step :: "(int \<Rightarrow> string) \<Rightarrow> write_threads \<Rightarrow> write_threads \<Rightarrow> bool" for fmt_time where
  take: "i < length (wt_pcs s) \<Longrightarrow> wt_pcs s ! i = WHead \<Longrightarrow> mysqlWriteLoop (wt_manager s) = Again (Some d, h)
    \<Longrightarrow> writer_step fmt_time s (s\<lparr>wt_manager := h, wt_pcs := (wt_pcs s)[i := WTook d],
          wt_removed := wt_removed s @ [(Some i, d)]\<rparr>)"
| leave: "i < length (wt_pcs s) \<Longrightarrow> wt_pcs s ! i = WHead \<Longrightarrow> mysqlWriteLoop (wt_manager s) = Exit (None, h)
    \<Longrightarrow> writer_step fmt_time s (s\<lparr>wt_manager := h, wt_pcs := (wt_pcs s)[i := WGone]\<rparr>)"
| lock: "i < length (wt_pcs s) \<Longrightarrow> wt_pcs s ! i = WTook d \<Longrightarrow> mutex_free s
    \<Longrightarrow> writer_step fmt_time s (s\<lparr>wt_pcs := (wt_pcs s)[i := WWriting d]\<rparr>)"
| written: "i < length (wt_pcs s) \<Longrightarrow> wt_pcs s ! i = WWriting d
    \<Longrightarrow> writeToMysql fmt_time got d (wt_manager s, wt_samples s) = (rs, h, smp)
    \<Longrightarrow> writer_step fmt_time s (s\<lparr>wt_manager := h, wt_samples := smp, wt_pcs := (wt_pcs s)[i := WHead],
          wt_written := wt_written s @ [(i, d, rs)]\<rparr>)"

inductive write_step :: "(int \<Rightarrow> string) \<Rightarrow> write_threads \<Rightarrow> write_threads \<Rightarrow> bool" for fmt_time where
  put: "write_step fmt_time s (put_record d s)"
| writer: "writer_step fmt_time s s' \<Longrightarrow> write_step fmt_time s s'"
| expire: "write_step fmt_time s (s\<lparr>wt_manager := processLoop now (wt_manager s)\<rparr>)"
| stop: "write_step fmt_time s (s\<lparr>wt_manager := (wt_manager s)\<lparr>hm_running := False\<rparr>\<rparr>)"

inductive write_reach :: "(int \<Rightarrow> string) \<Rightarrow> HostManager \<Rightarrow> Samples \<Rightarrow> write_threads \<Rightarrow> bool" for fmt_time h smp where
  start: "mysqlWriteQueue h = [] \<Longrightarrow> write_reach fmt_time h smp (writers_start h smp)"
| step: "write_reach fmt_time h smp s \<Longrightarrow> write_step fmt_time s s' \<Longrightarrow> write_reach fmt_time h smp s'"

section \<open>The invariant\<close>

fun in_hand :: "writer_pc \<Rightarrow> HostMonitoringData list" where
  "in_hand (WTook d) = [d]"
| "in_hand (WWriting d) = [d]"
| "in_hand _ = []"

definition taken_by :: "nat \<Rightarrow> write_threads \<Rightarrow> HostMonitoringData list" where
  "taken_by i s = map snd (filter (\<lambda>r. fst r = Some i) (wt_removed s))"

definition written_by :: "nat \<Rightarrow> write_threads \<Rightarrow> HostMonitoringData list" where
  "written_by i s = map (\<lambda>(_, d, _). d) (filter (\<lambda>w. fst w = i) (wt_written s))"

definition dropped :: "write_threads \<Rightarrow> HostMonitoringData list" where
  "dropped s = map snd (filter (\<lambda>r. fst r = None) (wt_removed s))"

definition write_inv :: "write_threads \<Rightarrow> bool" where
  "write_inv s \<longleftrightarrow>
     wt_enqueued s = map snd (wt_removed s) @ queue s
     \<and> (\<forall>i < length (wt_pcs s). taken_by i s = written_by i s @ in_hand (wt_pcs s ! i))
     \<and> (\<forall>r \<in> set (wt_removed s). \<forall>i. fst r = Some i \<longrightarrow> i < length (wt_pcs s))
     \<and> (\<forall>w \<in> set (wt_written s). fst w < length (wt_pcs s))
     \<and> length (queue s) \<le> write_capacity (wt_manager s)
     \<and> (WGone \<in> set (wt_pcs s) \<longrightarrow> \<not> hm_running (wt_manager s))
     \<and> (if all_gone s then suffix (queue s) (wt_late s) else wt_late s = [])
     \<and> wt_pcs s \<noteq> []"

text \<open>At most one writer holds \<open>mysqlWriteMutex_\<close>.\<close>

definition one_writing :: "write_threads \<Rightarrow> bool" where
  "one_writing s \<longleftrightarrow> (\<forall>i < length (wt_pcs s). \<forall>j < length (wt_pcs s).
     writing (wt_pcs s ! i) \<longrightarrow> writing (wt_pcs s ! j) \<longrightarrow> i = j)"

text \<open>Bound on the steps the writers still have to make once the manager has stopped.\<close>

fun weight :: "writer_pc \<Rightarrow> nat" where
  "weight WHead = 1"
| "weight (WTook d) = 3"
| "weight (WWriting d) = 2"
| "weight WGone = 0"

definition work :: "write_threads \<Rightarrow> nat" where
  "work s = 4 * length (queue s) + sum_list (map weight (wt_pcs s))"

lemma writeToMysql_manager:
  assumes "writeToMysql fmt_time got d (h, smp) = (rs, h', smp')"
  shows "mysqlWriteQueue h' = mysqlWriteQueue h" "hm_running h' = hm_running h" "hm_config h' = hm_config h"
  using assms by (auto simp: writeToMysql_def hm_bump_def drop_sample_def split: if_splits prod.splits)

lemma mysqlWriteLoop_cases:
  "mysqlWriteLoop h = Again (Some d, h') \<longleftrightarrow> (\<exists>ds. mysqlWriteQueue h = d # ds \<and> h' = h\<lparr>mysqlWriteQueue := ds\<rparr>)"
  "mysqlWriteLoop h = Exit (None, h') \<longleftrightarrow> mysqlWriteQueue h = [] \<and> \<not> hm_running h \<and> h' = h"
  by (auto simp: mysqlWriteLoop_def split: list.splits)

lemma write_capacity_cong: "hm_config h' = hm_config h \<Longrightarrow> write_capacity h' = write_capacity h"
  by (simp add: write_capacity_def)

lemma all_gone_set: "all_gone s \<longleftrightarrow> set (wt_pcs s) \<subseteq> {WGone}"
  by (auto simp: all_gone_def list_all_iff)

lemma not_all_gone: "i < length (wt_pcs s) \<Longrightarrow> wt_pcs s ! i \<noteq> WGone \<Longrightarrow> \<not> all_gone s"
  by (auto simp: all_gone_def list_all_length)

lemma gone_after: "p \<noteq> WGone \<Longrightarrow> WGone \<in> set (xs[i := p]) \<Longrightarrow> WGone \<in> set xs"
  using set_update_subset_insert [of xs i p] by auto

lemmas write_inv_simps = write_inv_def taken_by_def written_by_def nth_list_update

lemma write_inv_start: "mysqlWriteQueue h = [] \<Longrightarrow> write_inv (writers_start h smp)"
  by (simp add: write_inv_simps writers_start_def all_gone_def hm_start_def list_all_iff write_capacity_def)

lemma write_inv_put:
  assumes "write_inv s"
  shows "write_inv (put_record d s)"
proof -
  let ?q = "queue s" and ?c = "write_capacity (wt_manager s)"
  have c: "0 < ?c" "length ?q \<le> ?c" using assms write_capacity_pos by (auto simp: write_inv_def)
  then have q: "?c \<le> length ?q \<Longrightarrow> hd ?q # tl ?q = ?q" by (cases ?q) auto
  have "all_gone (put_record d s) = all_gone s" by (simp add: all_gone_def put_record_def)
  moreover have "suffix (tl ?q) (wt_late s)" if "suffix ?q (wt_late s)"
    using that suffix_order.trans suffix_tl by blast
  ultimately show ?thesis
    using assms c q by (auto simp: write_inv_simps put_record_def enqueue_queue)
qed

lemma write_inv_take:
  assumes "write_inv s" "i < length (wt_pcs s)" "wt_pcs s ! i = WHead" "mysqlWriteLoop (wt_manager s) = Again (Some d, h)"
  shows "write_inv (s\<lparr>wt_manager := h, wt_pcs := (wt_pcs s)[i := WTook d], wt_removed := wt_removed s @ [(Some i, d)]\<rparr>)"
    (is "write_inv ?t")
proof -
  have "\<not> all_gone s" "\<not> all_gone ?t"
    using assms(2,3) not_all_gone [of i s] not_all_gone [of i ?t] by simp_all
  then show ?thesis
    using assms by (auto simp: write_inv_simps mysqlWriteLoop_cases write_capacity_def dest: gone_after [rotated])
qed

lemma write_inv_leave:
  assumes "write_inv s" "i < length (wt_pcs s)" "wt_pcs s ! i = WHead" "mysqlWriteLoop (wt_manager s) = Exit (None, h)"
  shows "write_inv (s\<lparr>wt_manager := h, wt_pcs := (wt_pcs s)[i := WGone]\<rparr>)"
proof -
  have "\<not> all_gone s" using assms(2,3) not_all_gone [of i s] by simp
  then show ?thesis
    using assms by (auto simp: write_inv_simps mysqlWriteLoop_cases)
qed

lemma write_inv_lock:
  assumes "write_inv s" "i < length (wt_pcs s)" "wt_pcs s ! i = WTook d"
  shows "write_inv (s\<lparr>wt_pcs := (wt_pcs s)[i := WWriting d]\<rparr>)" (is "write_inv ?t")
proof -
  have "\<not> all_gone s" "\<not> all_gone ?t"
    using assms(2,3) not_all_gone [of i s] not_all_gone [of i ?t] by simp_all
  then show ?thesis
    using assms by (auto simp: write_inv_simps dest: gone_after [rotated])
qed

lemma write_inv_written:
  assumes "write_inv s" "i < length (wt_pcs s)" "wt_pcs s ! i = WWriting d"
    and w: "writeToMysql fmt_time got d (wt_manager s, wt_samples s) = (rs, h, smp)"
  shows "write_inv (s\<lparr>wt_manager := h, wt_samples := smp, wt_pcs := (wt_pcs s)[i := WHead],
          wt_written := wt_written s @ [(i, d, rs)]\<rparr>)" (is "write_inv ?t")
proof -
  have "\<not> all_gone s" "\<not> all_gone ?t"
    using assms(2,3) not_all_gone [of i s] not_all_gone [of i ?t] by simp_all
  then show ?thesis
    using assms(1-3) writeToMysql_manager [OF w]
    by (auto simp: write_inv_simps write_capacity_cong [of h "wt_manager s"] dest: gone_after [rotated])
qed

lemma writer_step_inv: "writer_step fmt_time s s' \<Longrightarrow> write_inv s \<Longrightarrow> write_inv s'"
  by (induction rule: writer_step.induct) (auto intro: write_inv_take write_inv_leave write_inv_lock write_inv_written)

lemma write_step_inv: "write_step fmt_time s s' \<Longrightarrow> write_inv s \<Longrightarrow> write_inv s'"
proof (induction rule: write_step.induct)
  case (expire s now)
  then show ?case by (simp add: write_inv_simps processLoop_def all_gone_def write_capacity_def)
next
  case (stop s)
  then show ?case by (simp add: write_inv_simps all_gone_def write_capacity_def)
qed (auto intro: write_inv_put writer_step_inv)

lemma write_reach_inv: "write_reach fmt_time h smp s \<Longrightarrow> write_inv s"
  by (induction rule: write_reach.induct) (auto intro: write_inv_start write_step_inv)

lemma writing_iff: "writing p \<longleftrightarrow> (\<exists>d. p = WWriting d)"
  by (simp add: writing_def split: writer_pc.split)

lemma one_writing_update:
  assumes "one_writing s" "\<not> writing p \<or> mutex_free s" "i < length (wt_pcs s)" "wt_pcs t = (wt_pcs s)[i := p]"
  shows "one_writing t"
  using assms unfolding one_writing_def mutex_free_def list_all_length
  by (metis length_list_update nth_list_update)

lemma writer_step_one: "writer_step fmt_time s s' \<Longrightarrow> one_writing s \<Longrightarrow> one_writing s'"
  by (induction rule: writer_step.induct) (erule one_writing_update; simp add: writing_iff)+

lemma write_step_one: "write_step fmt_time s s' \<Longrightarrow> one_writing s \<Longrightarrow> one_writing s'"
  by (induction rule: write_step.induct) (auto simp: put_record_def one_writing_def dest: writer_step_one)

lemma write_reach_one: "write_reach fmt_time h smp s \<Longrightarrow> one_writing s"
proof (induction rule: write_reach.induct)
  case start
  then show ?case by (simp add: one_writing_def writers_start_def writing_iff)
qed (rule write_step_one)

lemma writer_step_pcs: "writer_step fmt_time s s' \<Longrightarrow> length (wt_pcs s') = length (wt_pcs s) \<and> wt_late s' = wt_late s
    \<and> hm_running (wt_manager s') = hm_running (wt_manager s)"
  by (induction rule: writer_step.induct) (auto simp: mysqlWriteLoop_cases dest: writeToMysql_manager(2))

lemma write_reach_pcs:
  "write_reach fmt_time h smp s \<Longrightarrow> length (wt_pcs s) = writers h + nat (max 1 (mysql_write_pool_max (hm_config h)))"
proof (induction rule: write_reach.induct)
  case (step s s')
  then show ?case by (auto elim!: write_step.cases simp: put_record_def dest: writer_step_pcs)
qed (simp add: writers_start_def hm_start_def)

section \<open>The writers finish\<close>

lemma weight_update:
  "i < length xs \<Longrightarrow> sum_list (map weight (xs[i := p])) + weight (xs ! i) = sum_list (map weight xs) + weight p"
  using elem_le_sum_list [of i "map weight xs"] by (simp add: map_update sum_list_update)

lemma writer_step_work: "writer_step fmt_time s s' \<Longrightarrow> work s' < work s"
proof (induction rule: writer_step.induct)
  case (take i s d h)
  then show ?case using weight_update [of i "wt_pcs s" "WTook d"] by (auto simp: work_def mysqlWriteLoop_cases)
next
  case (leave i s h)
  then show ?case using weight_update [of i "wt_pcs s" WGone] by (auto simp: work_def mysqlWriteLoop_cases)
next
  case (lock i s d)
  then show ?case using weight_update [of i "wt_pcs s" "WWriting d"] by (simp add: work_def)
next
  case (written i s d got rs h smp)
  then show ?case using weight_update [of i "wt_pcs s" WHead] writeToMysql_manager(1) [OF written(3)] by (simp add: work_def)
qed

lemma writer_progress:
  assumes "\<not> hm_running (wt_manager s)" "\<not> all_gone s"
  shows "\<exists>s'. writer_step fmt_time s s'"
proof -
  have wr: "\<exists>s'. writer_step fmt_time s s'" if "j < length (wt_pcs s)" "wt_pcs s ! j = WWriting d" for j d
    using writer_step.written [OF that, of fmt_time True] by (metis prod_cases3)
  obtain i where i: "i < length (wt_pcs s)" "wt_pcs s ! i \<noteq> WGone"
    using assms(2) by (auto simp: all_gone_def list_all_length)
  show ?thesis
  proof (cases "wt_pcs s ! i")
    case WHead
    then show ?thesis
      using i assms(1) writer_step.take [OF i(1) WHead] writer_step.leave [OF i(1) WHead]
      by (cases "queue s") (auto simp: mysqlWriteLoop_cases)
  next
    case (WTook d)
    show ?thesis
    proof (cases "mutex_free s")
      case True
      then show ?thesis using writer_step.lock [OF i(1) WTook] by blast
    next
      case False
      then obtain j d' where "j < length (wt_pcs s)" "wt_pcs s ! j = WWriting d'"
        by (auto simp: mutex_free_def list_all_length writing_iff)
      then show ?thesis by (rule wr)
    qed
  qed (use i wr in auto)
qed

section \<open>Accounting\<close>

lemma mset_by_key:
  "\<forall>x \<in> set xs. key x < (n::nat) \<Longrightarrow> mset (map f xs) = (\<Sum>i<n. mset (map f (filter (\<lambda>x. key x = i) xs)))"
proof (induction xs)
  case (Cons x xs)
  have "(\<Sum>i<n. mset (map f (filter (\<lambda>x. key x = i) (x # xs))))
      = (\<Sum>i<n. (if i = key x then {#f x#} else {#}) + mset (map f (filter (\<lambda>x. key x = i) xs)))"
    by (rule sum.cong) auto
  also have "\<dots> = {#f x#} + mset (map f xs)"
    using Cons by (simp add: sum.distrib sum.delta)
  finally show ?case by simp
qed simp

definition written_data :: "write_threads \<Rightarrow> HostMonitoringData list" where
  "written_data s = map (\<lambda>(_, d, _). d) (wt_written s)"

lemma mset_taken:
  assumes "write_inv s"
  shows "mset (map snd (wt_removed s)) = mset (dropped s) + (\<Sum>i<length (wt_pcs s). mset (taken_by i s))"
proof -
  let ?some = "filter (\<lambda>r. fst r \<noteq> None) (wt_removed s)"
  have f: "filter (\<lambda>r. the (fst r) = i) ?some = filter (\<lambda>r. fst r = Some i) (wt_removed s)" for i
    by (auto intro: filter_cong)
  have "\<forall>r \<in> set ?some. the (fst r) < length (wt_pcs s)" using assms by (auto simp: write_inv_def)
  from mset_by_key [OF this, of snd] have "mset (map snd ?some) = (\<Sum>i<length (wt_pcs s). mset (taken_by i s))"
    by (simp only: taken_by_def f)
  moreover have "mset (map snd xs) = mset (map snd (filter (\<lambda>r. fst r = None) xs)) + mset (map snd (filter (\<lambda>r. fst r \<noteq> None) xs))"
    for xs :: "(nat option \<times> HostMonitoringData) list" by (induction xs) auto
  ultimately show ?thesis unfolding dropped_def by metis
qed

lemma mset_written:
  assumes "write_inv s"
  shows "mset (written_data s) = (\<Sum>i<length (wt_pcs s). mset (written_by i s))"
  using assms unfolding written_data_def written_by_def write_inv_def
  by (subst mset_by_key [of _ fst "length (wt_pcs s)"]) auto

lemma mset_accounted:
  assumes "write_inv s"
  shows "mset (wt_enqueued s) = mset (dropped s) + mset (written_data s) + mset (concat (map in_hand (wt_pcs s))) + mset (queue s)"
proof -
  have "(\<Sum>i<length (wt_pcs s). mset (taken_by i s))
      = (\<Sum>i<length (wt_pcs s). mset (written_by i s)) + (\<Sum>i<length (wt_pcs s). mset (in_hand (wt_pcs s ! i)))"
    using assms by (simp add: write_inv_def flip: sum.distrib)
  moreover have "(\<Sum>i<length ps. mset (in_hand (ps ! i))) = mset (concat (map in_hand ps))" for ps
    by (simp add: mset_concat sum_list_sum_nth atLeast0LessThan)
  moreover have "wt_enqueued s = map snd (wt_removed s) @ queue s" using assms by (simp add: write_inv_def)
  ultimately show ?thesis using mset_taken [OF assms] mset_written [OF assms] by (simp del: mset_map)
qed

lemma gone_hands: "all_gone s \<Longrightarrow> concat (map in_hand (wt_pcs s)) = []"
  by (auto simp: all_gone_def list_all_iff)

lemma gone_queue: "write_inv s \<Longrightarrow> all_gone s \<Longrightarrow> wt_late s = [] \<Longrightarrow> queue s = []"
  by (auto simp: write_inv_def)

lemma writer_steps:
  "(writer_step fmt_time ^^ n) s t \<Longrightarrow> write_inv s \<Longrightarrow>
     write_inv t \<and> n + work t \<le> work s \<and> wt_late t = wt_late s
     \<and> hm_running (wt_manager t) = hm_running (wt_manager s)"
proof (induction n arbitrary: t)
  case (Suc n)
  then obtain u where "(writer_step fmt_time ^^ n) s u" "writer_step fmt_time u t" by auto
  with Suc show ?case
    using writer_step_work writer_step_pcs writer_step_inv by (metis add_Suc less_le_trans Suc_leI add_le_mono le_refl add_Suc_right order_trans)
qed simp

section \<open>What the writers guarantee\<close>

text \<open>
  C9: whatever the order in which threads put records in and writers take and write them, the
  records put in are, in order, those removed followed by those still queued; every record
  removed was either dropped for room at a full queue or taken by one writer, which writes
  what it took in that order; one writer at a time holds the write mutex; and all the
  records are accounted for as dropped, written, in a writer's hands or queued.
\<close>

theorem writers_account:
  assumes "write_reach fmt_time h smp s"
  shows "wt_enqueued s = map snd (wt_removed s) @ mysqlWriteQueue (wt_manager s)
    \<and> (\<forall>i < length (wt_pcs s). taken_by i s = written_by i s @ in_hand (wt_pcs s ! i))
    \<and> mset (wt_enqueued s) = mset (dropped s) + mset (written_data s) + mset (concat (map in_hand (wt_pcs s)))
         + mset (mysqlWriteQueue (wt_manager s))
    \<and> one_writing s \<and> length (mysqlWriteQueue (wt_manager s)) \<le> write_capacity (wt_manager s)"
  using mset_accounted [OF write_reach_inv [OF assms]] write_reach_inv [OF assms] write_reach_one [OF assms]
  by (simp add: write_inv_def)

text \<open>
  C23: stopping finishes. Once the manager no longer runs and a writer is left, the writers
  make at most \<open>work s\<close> more steps while no record is put in, and where none of them can step
  they have all left, with the queue empty and every record ever put in dropped or written.
\<close>

theorem writers_finish:
  assumes "write_reach fmt_time h smp s" "\<not> hm_running (wt_manager s)" "\<not> all_gone s"
    and "(writer_step fmt_time ^^ n) s t"
  shows "n \<le> work s \<and> ((\<forall>u. \<not> writer_step fmt_time t u) \<longrightarrow>
    all_gone t \<and> mysqlWriteQueue (wt_manager t) = [] \<and> mset (wt_enqueued t) = mset (dropped t) + mset (written_data t))"
proof -
  have inv: "write_inv s" by (rule write_reach_inv [OF assms(1)])
  note t = writer_steps [OF assms(4) inv]
  have "wt_late t = []" using t inv assms(3) by (auto simp: write_inv_def)
  moreover have "all_gone t" if "\<forall>u. \<not> writer_step fmt_time t u"
    using writer_progress [of t fmt_time] t assms(2) that by blast
  ultimately show ?thesis
    using t gone_queue [of t] mset_accounted [of t] gone_hands [of t] by (auto simp del: mset_concat)
qed

section \<open>An order the writers allow\<close>

text \<open>A reachable state as its writers, queue, records put in and records written.\<close>

definition reaches ::
  "(int \<Rightarrow> string) \<Rightarrow> HostManager \<Rightarrow> Samples \<Rightarrow> writer_pc list \<Rightarrow> HostMonitoringData list \<Rightarrow> HostMonitoringData list
     \<Rightarrow> HostMonitoringData list \<Rightarrow> bool" where
  "reaches fmt_time h smp ps q e w \<longleftrightarrow> (\<exists>s. write_reach fmt_time h smp s \<and> wt_pcs s = ps \<and> queue s = q \<and> wt_enqueued s = e
     \<and> written_data s = w \<and> write_capacity (wt_manager s) = write_capacity h)"

lemma reaches_start:
  "mysqlWriteQueue h = [] \<Longrightarrow> reaches fmt_time h smp (replicate (writers (hm_start h)) WHead) [] [] []"
  unfolding reaches_def
  by (intro exI [of _ "writers_start h smp"] conjI write_reach.start)
    (simp_all add: writers_start_def hm_start_def written_data_def write_capacity_def)

lemma reachesI:
  "write_reach fmt_time h smp s \<Longrightarrow> writer_step fmt_time s t \<Longrightarrow> wt_pcs t = ps \<Longrightarrow> queue t = q \<Longrightarrow> wt_enqueued t = e
     \<Longrightarrow> written_data t = w \<Longrightarrow> write_capacity (wt_manager t) = write_capacity h \<Longrightarrow> reaches fmt_time h smp ps q e w"
  unfolding reaches_def by (blast intro: write_reach.step write_step.writer)

lemma reaches_put:
  assumes "reaches fmt_time h smp ps q e w" "length q < write_capacity h"
  shows "reaches fmt_time h smp ps (q @ [d]) (e @ [d]) w"
proof -
  obtain s where "write_reach fmt_time h smp s" "wt_pcs s = ps" "queue s = q" "wt_enqueued s = e" "written_data s = w"
    "write_capacity (wt_manager s) = write_capacity h" using assms(1) by (auto simp: reaches_def)
  then show ?thesis using assms(2) unfolding reaches_def
    by (intro exI [of _ "put_record d s"] conjI write_reach.step [OF _ write_step.put])
      (simp_all add: put_record_def enqueue_queue written_data_def)
qed

lemma reaches_take:
  assumes "reaches fmt_time h smp ps (d # q) e w" "i < length ps" "ps ! i = WHead"
  shows "reaches fmt_time h smp (ps[i := WTook d]) q e w"
proof -
  obtain s where s: "write_reach fmt_time h smp s" "wt_pcs s = ps" "queue s = d # q" "wt_enqueued s = e" "written_data s = w"
    "write_capacity (wt_manager s) = write_capacity h" using assms(1) by (auto simp: reaches_def)
  have "mysqlWriteLoop (wt_manager s) = Again (Some d, (wt_manager s)\<lparr>mysqlWriteQueue := q\<rparr>)"
    using s(3) by (simp add: mysqlWriteLoop_cases)
  from reachesI [OF s(1) writer_step.take [OF _ _ this, of i]] assms(2,3) s
  show ?thesis by (simp add: written_data_def write_capacity_def)
qed

lemma reaches_lock:
  assumes "reaches fmt_time h smp ps q e w" "i < length ps" "ps ! i = WTook d" "list_all (\<lambda>p. \<not> writing p) ps"
  shows "reaches fmt_time h smp (ps[i := WWriting d]) q e w"
proof -
  obtain s where s: "write_reach fmt_time h smp s" "wt_pcs s = ps" "queue s = q" "wt_enqueued s = e" "written_data s = w"
    "write_capacity (wt_manager s) = write_capacity h" using assms(1) by (auto simp: reaches_def)
  from reachesI [OF s(1) writer_step.lock [of i s d]] assms(2-) s
  show ?thesis by (simp add: written_data_def mutex_free_def)
qed

lemma reaches_written:
  assumes "reaches fmt_time h smp ps q e w" "i < length ps" "ps ! i = WWriting d"
  shows "reaches fmt_time h smp (ps[i := WHead]) q e (w @ [d])"
proof -
  obtain s where s: "write_reach fmt_time h smp s" "wt_pcs s = ps" "queue s = q" "wt_enqueued s = e" "written_data s = w"
    "write_capacity (wt_manager s) = write_capacity h" using assms(1) by (auto simp: reaches_def)
  obtain rs h' smp' where w: "writeToMysql fmt_time True d (wt_manager s, wt_samples s) = (rs, h', smp')"
    by (metis prod_cases3)
  from reachesI [OF s(1) writer_step.written [OF _ _ w, of i]] assms(2-) s writeToMysql_manager [OF w]
  show ?thesis by (simp add: written_data_def write_capacity_def)
qed

text \<open>
  C37: with two writers or more and room for two records, two records put in one after the
  other can be written in the other order: the first writer has taken the first record and
  is waiting for the write mutex when the second one, with the second record, gets it. The
  rates of the rows written are computed from the record written before, so they are then
  computed backwards when both are of one host.
\<close>

theorem writes_can_swap:
  assumes "mysqlWriteQueue h = []" "writers h = 0" "2 \<le> mysql_write_pool_max (hm_config h)" "2 \<le> write_capacity h"
  shows "\<exists>s. write_reach fmt_time h smp s \<and> wt_enqueued s = [a, b] \<and> written_data s = [b, a]
    \<and> mysqlWriteQueue (wt_manager s) = []"
proof -
  define n where "n = nat (mysql_write_pool_max (hm_config h)) - 2"
  have "writers (hm_start h) = Suc (Suc n)" using assms(2,3) by (simp add: hm_start_def n_def)
  with reaches_start [OF assms(1), of fmt_time smp]
  have "reaches fmt_time h smp (WHead # WHead # replicate n WHead) [] [] []" by simp
  from reaches_put [OF reaches_put [OF this, of a], of b] assms(4)
  have "reaches fmt_time h smp (WHead # WHead # replicate n WHead) [a, b] [a, b] []" by simp
  from reaches_take [OF reaches_take [OF this, of 0], of 1]
  have "reaches fmt_time h smp (WTook a # WTook b # replicate n WHead) [] [a, b] []" by simp
  from reaches_written [OF reaches_lock [OF this, of 1 b], of 1 b]
  have "reaches fmt_time h smp (WTook a # WHead # replicate n WHead) [] [a, b] [b]" by (simp add: list_all_iff writing_iff)
  from reaches_written [OF reaches_lock [OF this, of 0 a], of 0 a]
  have "reaches fmt_time h smp (WHead # WHead # replicate n WHead) [] [a, b] [b, a]" by (simp add: list_all_iff writing_iff)
  then show ?thesis by (auto simp: reaches_def)
qed

section \<open>Witnesses\<close>

lemma new_capacity: "write_capacity HostManager_new = 10000"
  by (simp add: write_capacity_def HostManager_new_def default_config_def)

theorem writes_can_swap_witness:
  "\<exists>s. write_reach (\<lambda>_. ''now'') HostManager_new no_samples s \<and> wt_enqueued s = [demo_data ''a'', demo_data ''b'']
     \<and> written_data s = [demo_data ''b'', demo_data ''a''] \<and> mysqlWriteQueue (wt_manager s) = []"
  by (rule writes_can_swap) (simp_all add: new_capacity, simp_all add: HostManager_new_def default_config_def)

theorem writers_account_witness:
  "\<exists>s. write_reach (\<lambda>_. ''now'') HostManager_new no_samples s \<and> wt_enqueued s = [demo_data ''a'', demo_data ''b'']
     \<and> map snd (wt_removed s) = [demo_data ''a''] \<and> one_writing s"
proof -
  have "writers (hm_start HostManager_new) = 4" by (simp add: hm_start_def HostManager_new_def default_config_def)
  moreover have q: "mysqlWriteQueue HostManager_new = []" by (simp add: HostManager_new_def)
  ultimately have "reaches (\<lambda>_. ''now'') HostManager_new no_samples [WHead, WHead, WHead, WHead] [] [] []"
    using reaches_start [OF q, of "\<lambda>_. ''now''" no_samples] by (simp add: numeral_eq_Suc)
  from reaches_put [OF reaches_put [OF this, of "demo_data ''a''"], of "demo_data ''b''"]
  have "reaches (\<lambda>_. ''now'') HostManager_new no_samples [WHead, WHead, WHead, WHead]
      [demo_data ''a'', demo_data ''b''] [demo_data ''a'', demo_data ''b''] []" by (simp add: new_capacity)
  from reaches_take [OF this, of 0]
  obtain s where s: "write_reach (\<lambda>_. ''now'') HostManager_new no_samples s" "wt_enqueued s = [demo_data ''a'', demo_data ''b'']"
    "queue s = [demo_data ''b'']"
    by (auto simp: reaches_def)
  from writers_account [OF s(1)] s show ?thesis by (intro exI [of _ s]) simp
qed

definition demo_stopped :: write_threads where
  "demo_stopped = (let s = writers_start (HostManager_new\<lparr>hm_config := default_config\<lparr>mysql_write_pool_max := 1\<rparr>\<rparr>) no_samples
     in s\<lparr>wt_manager := (wt_manager s)\<lparr>hm_running := False\<rparr>\<rparr>)"

theorem writers_finish_witness:
  "1 \<le> work demo_stopped \<and> all_gone (demo_stopped\<lparr>wt_pcs := [WGone]\<rparr>)"
proof -
  let ?f = "\<lambda>_. ''now''" and ?h = "HostManager_new\<lparr>hm_config := default_config\<lparr>mysql_write_pool_max := 1\<rparr>\<rparr>"
  have d: "wt_pcs demo_stopped = [WHead]" "queue demo_stopped = []" "\<not> hm_running (wt_manager demo_stopped)"
    by (simp_all add: demo_stopped_def writers_start_def hm_start_def HostManager_new_def default_config_def Let_def)
  have r: "write_reach ?f ?h no_samples demo_stopped"
    unfolding demo_stopped_def Let_def
    by (intro write_reach.step [OF write_reach.start write_step.stop]) (simp add: HostManager_new_def)
  have "writer_step ?f demo_stopped (demo_stopped\<lparr>wt_pcs := [WGone]\<rparr>)"
    using writer_step.leave [of 0 demo_stopped "wt_manager demo_stopped" ?f] d by (simp add: mysqlWriteLoop_cases)
  moreover have "\<not> all_gone demo_stopped" using d by (simp add: all_gone_def)
  moreover have "\<not> writer_step ?f (demo_stopped\<lparr>wt_pcs := [WGone]\<rparr>) u" for u
    by (auto elim!: writer_step.cases)
  ultimately show ?thesis
    using writers_finish [OF r d(3), of "Suc 0" "demo_stopped\<lparr>wt_pcs := [WGone]\<rparr>"] by (simp add: eq_OO)
qed

end
