(* ===== verification/Ebpf_Object.thy ===== *)
theory Ebpf_Object
  imports Ebpf_Net "HOL-Library.Monad_Syntax"
begin

text \<open>
  The compiled traffic counter. \<open>worker/src/ebpf/.output/net_stats.skel.h\<close> carries the object
  file the worker loads into the kernel: the sections \<open>tc/ingress\<close> and \<open>tc/egress\<close> with 33
  instruction slots each, and their relocations, which name the map \<open>net_stats_map\<close>. This
  theory has those bytes, a machine for the instructions they use, and a proof that the
  machine code does what \<open>net_stats.bpf.c\<close> says (\<open>tc_ingress\<close> and \<open>tc_egress\<close> of
  \<open>Ebpf_Net\<close>). The second part is the skeleton's own code: opening, loading and destroying
  the object, with every allocation that can fail. The kernel's hash map and \<open>libbpf\<close> are
  parameters.
\<close>

section \<open>The object's sections\<close>

definition ingress_section :: "nat list" where
  "ingress_section =
    [0x61, 0x16, 0, 0, 0, 0, 0, 0, 0x61, 0x11, 0x28, 0, 0, 0, 0, 0, 0x16, 1, 0x1c, 0, 0, 0, 0, 0,
     0x16, 6, 0x1b, 0, 0, 0, 0, 0, 0x63, 0x1a, 0xfc, 0xff, 0, 0, 0, 0, 0xb7, 1, 0, 0, 0, 0, 0, 0,
     0x7b, 0x1a, 0xf0, 0xff, 0, 0, 0, 0, 0x7b, 0x1a, 0xe8, 0xff, 0, 0, 0, 0, 0x7b, 0x1a, 0xe0, 0xff, 0, 0, 0, 0,
     0x7b, 0x1a, 0xd8, 0xff, 0, 0, 0, 0, 0xbf, 0xa2, 0, 0, 0, 0, 0, 0, 7, 2, 0, 0, 0xfc, 0xff, 0xff, 0xff,
     0x18, 1, 0, 0, 0, 0, 0, 0, 0, 0, 0, 0, 0, 0, 0, 0, 0x85, 0, 0, 0, 1, 0, 0, 0,
     0x55, 0, 0x0c, 0, 0, 0, 0, 0, 0xb7, 1, 0, 0, 1, 0, 0, 0, 0x7b, 0x1a, 0xe0, 0xff, 0, 0, 0, 0,
     0x7b, 0x6a, 0xd8, 0xff, 0, 0, 0, 0, 0xbf, 0xa2, 0, 0, 0, 0, 0, 0, 7, 2, 0, 0, 0xfc, 0xff, 0xff, 0xff,
     0xbf, 0xa3, 0, 0, 0, 0, 0, 0, 7, 3, 0, 0, 0xd8, 0xff, 0xff, 0xff, 0x18, 1, 0, 0, 0, 0, 0, 0,
     0, 0, 0, 0, 0, 0, 0, 0, 0xb7, 4, 0, 0, 0, 0, 0, 0, 0x85, 0, 0, 0, 2, 0, 0, 0,
     5, 0, 3, 0, 0, 0, 0, 0, 0xdb, 0x60, 0, 0, 1, 0, 0, 0, 0xb7, 1, 0, 0, 1, 0, 0, 0,
     0xdb, 0x10, 8, 0, 1, 0, 0, 0, 0xb4, 0, 0, 0, 0, 0, 0, 0, 0x95, 0, 0, 0, 0, 0, 0, 0]"

definition egress_section :: "nat list" where
  "egress_section =
    [0x61, 0x16, 0, 0, 0, 0, 0, 0, 0x61, 0x11, 0x28, 0, 0, 0, 0, 0, 0x16, 1, 0x1c, 0, 0, 0, 0, 0,
     0x16, 6, 0x1b, 0, 0, 0, 0, 0, 0x63, 0x1a, 0xfc, 0xff, 0, 0, 0, 0, 0xb7, 1, 0, 0, 0, 0, 0, 0,
     0x7b, 0x1a, 0xf0, 0xff, 0, 0, 0, 0, 0x7b, 0x1a, 0xe8, 0xff, 0, 0, 0, 0, 0x7b, 0x1a, 0xe0, 0xff, 0, 0, 0, 0,
     0x7b, 0x1a, 0xd8, 0xff, 0, 0, 0, 0, 0xbf, 0xa2, 0, 0, 0, 0, 0, 0, 7, 2, 0, 0, 0xfc, 0xff, 0xff, 0xff,
     0x18, 1, 0, 0, 0, 0, 0, 0, 0, 0, 0, 0, 0, 0, 0, 0, 0x85, 0, 0, 0, 1, 0, 0, 0,
     0x55, 0, 0x0c, 0, 0, 0, 0, 0, 0xb7, 1, 0, 0, 1, 0, 0, 0, 0x7b, 0x1a, 0xf0, 0xff, 0, 0, 0, 0,
     0x7b, 0x6a, 0xe8, 0xff, 0, 0, 0, 0, 0xbf, 0xa2, 0, 0, 0, 0, 0, 0, 7, 2, 0, 0, 0xfc, 0xff, 0xff, 0xff,
     0xbf, 0xa3, 0, 0, 0, 0, 0, 0, 7, 3, 0, 0, 0xd8, 0xff, 0xff, 0xff, 0x18, 1, 0, 0, 0, 0, 0, 0,
     0, 0, 0, 0, 0, 0, 0, 0, 0xb7, 4, 0, 0, 0, 0, 0, 0, 0x85, 0, 0, 0, 2, 0, 0, 0,
     5, 0, 3, 0, 0, 0, 0, 0, 0xdb, 0x60, 0x10, 0, 1, 0, 0, 0, 0xb7, 1, 0, 0, 1, 0, 0, 0,
     0xdb, 0x10, 0x18, 0, 1, 0, 0, 0, 0xb4, 0, 0, 0, 0, 0, 0, 0, 0x95, 0, 0, 0, 0, 0, 0, 0]"

definition ingress_relocations :: "nat list" where
  "ingress_relocations =
    [0x60, 0, 0, 0, 0, 0, 0, 0, 1, 0, 0, 0, 0x0e, 0, 0, 0, 0xb8, 0, 0, 0, 0, 0, 0, 0,
     1, 0, 0, 0, 0x0e, 0, 0, 0]"

definition egress_relocations :: "nat list" where
  "egress_relocations =
    [0x60, 0, 0, 0, 0, 0, 0, 0, 1, 0, 0, 0, 0x0e, 0, 0, 0, 0xb8, 0, 0, 0, 0, 0, 0, 0,
     1, 0, 0, 0, 0x0e, 0, 0, 0]"

text \<open>The index of \<open>net_stats_map\<close> in the object's symbol table.\<close>

definition map_symbol :: nat where
  "map_symbol = 14"

section \<open>Instructions\<close>

datatype opcode = LDX_W | STX_W | STX_DW | MOV32_K | MOV64_K | MOV64_X | ADD64_K | JEQ32_K | JNE_K | JA
  | LD_IMM64 | IMM64_HIGH | CALL | ATOMIC_DW | EXIT

definition opcode_of :: "nat \<Rightarrow> opcode option" where
  "opcode_of n = map_of [(0x61, LDX_W), (0x63, STX_W), (0x7b, STX_DW), (0xb4, MOV32_K), (0xb7, MOV64_K), (0xbf, MOV64_X),
     (0x07, ADD64_K), (0x16, JEQ32_K), (0x55, JNE_K), (0x05, JA), (0x18, LD_IMM64), (0, IMM64_HIGH), (0x85, CALL),
     (0xdb, ATOMIC_DW), (0x95, EXIT)] n"

record insn =
  in_code :: "opcode option"
  in_dst :: nat
  in_src :: nat
  in_off :: int
  in_imm :: int

definition little_endian :: "nat list \<Rightarrow> nat" where
  "little_endian bs = foldr (\<lambda>b n. b + 256 * n) bs 0"

definition signed_le :: "nat list \<Rightarrow> int" where
  "signed_le bs = (let n = int (little_endian bs); h = 2 ^ (8 * length bs - 1) in if n < h then n else n - 2 * h)"

fun decode :: "nat list \<Rightarrow> insn list" where
  "decode (c # r # o0 # o1 # i0 # i1 # i2 # i3 # bs) =
     \<lparr>in_code = opcode_of c, in_dst = r mod 16, in_src = r div 16, in_off = signed_le [o0, o1],
      in_imm = signed_le [i0, i1, i2, i3]\<rparr> # decode bs"
| "decode _ = []"

text \<open>The instructions whose immediate is the address of the symbol, from 16-byte entries of offset, type and symbol.\<close>

fun relocated :: "nat \<Rightarrow> nat list \<Rightarrow> nat list" where
  "relocated y (a0 # a1 # a2 # a3 # a4 # a5 # a6 # a7 # t0 # t1 # t2 # t3 # y0 # y1 # y2 # y3 # bs) =
     (if little_endian [y0, y1, y2, y3] = y then [little_endian [a0, a1, a2, a3, a4, a5, a6, a7] div 8] else [])
     @ relocated y bs"
| "relocated y _ = []"

section \<open>The machine\<close>

text \<open>
  A register holds a number, a pointer into the frame below register 10, into the socket
  buffer, to the map or into an entry of the map, or nothing readable. The frame has the
  values stored and their widths; a load has to match a store.
\<close>

datatype bval = Num u64 | Frame int | Ctx int | MapRef | Entry u32 int | Unset

record 'm machine =
  mc_pc :: nat
  mc_regs :: "nat \<Rightarrow> bval"
  mc_frame :: "int \<Rightarrow> (nat \<times> u64) option"
  mc_map :: 'm

definition mc_start :: "'m \<Rightarrow> 'm machine" where
  "mc_start m = \<lparr>mc_pc = 0, mc_regs = (\<lambda>_. Unset)(1 := Ctx 0, 10 := Frame 0), mc_frame = (\<lambda>_. None), mc_map = m\<rparr>"

definition in_frame :: "nat \<Rightarrow> int \<Rightarrow> bool" where
  "in_frame w a \<longleftrightarrow> - 512 \<le> a \<and> a + int w \<le> 0 \<and> a mod int w = 0"

definition frame_store :: "nat \<Rightarrow> int \<Rightarrow> u64 \<Rightarrow> (int \<Rightarrow> (nat \<times> u64) option) \<Rightarrow> int \<Rightarrow> (nat \<times> u64) option" where
  "frame_store w a v f p =
     (if p = a then Some (w, v)
      else case f p of None \<Rightarrow> None
        | Some (w', v') \<Rightarrow> if p < a + int w \<and> a < p + int w' then None else Some (w', v'))"

definition frame_load :: "nat \<Rightarrow> int \<Rightarrow> (int \<Rightarrow> (nat \<times> u64) option) \<Rightarrow> u64 option" where
  "frame_load w a f = (case f a of Some (w', v) \<Rightarrow> if w' = w \<and> in_frame w a then Some v else None | None \<Rightarrow> None)"

text \<open>The first fields of the socket buffer, four bytes each.\<close>

definition ctx_word :: "sk_buff \<Rightarrow> int \<Rightarrow> u32 option" where
  "ctx_word skb a = map_of (zip [0, 4, 8, 12, 16, 20, 24, 28, 32, 36, 40, 44]
     [skb_len skb, skb_pkt_type skb, skb_mark skb, skb_queue_mapping skb, skb_protocol skb, skb_vlan_present skb,
      skb_vlan_tci skb, skb_vlan_proto skb, skb_priority skb, skb_ingress_ifindex skb, skb_ifindex skb, skb_tc_index skb]) a"

text \<open>A field of an entry by its offset, with the addition of a number to it.\<close>

definition entry_add :: "int \<Rightarrow> u64 \<Rightarrow> net_stats \<Rightarrow> (u64 \<times> net_stats) option" where
  "entry_add a v s =
     (if a = 0 then Some (ns_rcv_bytes s, s\<lparr>ns_rcv_bytes := ns_rcv_bytes s + v\<rparr>)
      else if a = 8 then Some (ns_rcv_packets s, s\<lparr>ns_rcv_packets := ns_rcv_packets s + v\<rparr>)
      else if a = 16 then Some (ns_snd_bytes s, s\<lparr>ns_snd_bytes := ns_snd_bytes s + v\<rparr>)
      else if a = 24 then Some (ns_snd_packets s, s\<lparr>ns_snd_packets := ns_snd_packets s + v\<rparr>)
      else None)"

definition frame_key :: "bval \<Rightarrow> (int \<Rightarrow> (nat \<times> u64) option) \<Rightarrow> u32 option" where
  "frame_key p f = (case p of Frame a \<Rightarrow> map_option ucast (frame_load 4 a f) | _ \<Rightarrow> None)"

definition frame_stats :: "bval \<Rightarrow> (int \<Rightarrow> (nat \<times> u64) option) \<Rightarrow> net_stats option" where
  "frame_stats p f =
     (case p of
        Frame a \<Rightarrow>
          do {
            rb \<leftarrow> frame_load 8 a f; rp \<leftarrow> frame_load 8 (a + 8) f; sb \<leftarrow> frame_load 8 (a + 16) f; sp \<leftarrow> frame_load 8 (a + 24) f;
            Some \<lparr>ns_rcv_bytes = rb, ns_rcv_packets = rp, ns_snd_bytes = sb, ns_snd_packets = sp\<rparr> }
      | _ \<Rightarrow> None)"

text \<open>Going on at an offset from the next instruction.\<close>

definition jump :: "int \<Rightarrow> 'm machine \<Rightarrow> 'm machine option" where
  "jump a s = (let t = int (mc_pc s) + 1 + a in if t < 0 then None else Some (s\<lparr>mc_pc := nat t\<rparr>))"

definition set_reg :: "nat \<Rightarrow> bval \<Rightarrow> 'm machine \<Rightarrow> 'm machine option" where
  "set_reg d v s = jump 0 (s\<lparr>mc_regs := (mc_regs s)(d := v)\<rparr>)"

definition store_reg :: "nat \<Rightarrow> (u64 \<Rightarrow> u64) \<Rightarrow> insn \<Rightarrow> 'm machine \<Rightarrow> 'm machine option" where
  "store_reg w narrow i s =
     (case (mc_regs s (in_dst i), mc_regs s (in_src i)) of
        (Frame a, Num v) \<Rightarrow>
          if in_frame w (a + in_off i) then jump 0 (s\<lparr>mc_frame := frame_store w (a + in_off i) (narrow v) (mc_frame s)\<rparr>) else None
      | _ \<Rightarrow> None)"

text \<open>The helpers 1 and 2, \<open>bpf_map_lookup_elem\<close> and \<open>bpf_map_update_elem\<close>; registers 1 to 5 are lost.\<close>

definition after_call :: "bval \<Rightarrow> 'm machine \<Rightarrow> 'm machine option" where
  "after_call v s = jump 0 (s\<lparr>mc_regs := (\<lambda>r. if r = 0 then v else if r < 6 then Unset else mc_regs s r)\<rparr>)"

definition call_helper :: "'m bpf_ops \<Rightarrow> int \<Rightarrow> 'm machine \<Rightarrow> 'm machine option" where
  "call_helper ops n s =
     (if mc_regs s 1 \<noteq> MapRef then None
      else case frame_key (mc_regs s 2) (mc_frame s) of None \<Rightarrow> None
       | Some k \<Rightarrow>
           if n = 1 then after_call (case bm_lookup ops (mc_map s) k of None \<Rightarrow> Num 0 | Some _ \<Rightarrow> Entry k 0) s
           else if n = 2 \<and> mc_regs s 4 = Num 0
           then (case frame_stats (mc_regs s 3) (mc_frame s) of None \<Rightarrow> None
                 | Some v \<Rightarrow> after_call Unset (s\<lparr>mc_map := bm_update ops k v (mc_map s)\<rparr>))
           else None)"

text \<open>An addition to a field of an entry, in one step; it fetches the old value when the low bit of the immediate says so.\<close>

definition atomic_add :: "'m bpf_ops \<Rightarrow> insn \<Rightarrow> 'm machine \<Rightarrow> 'm machine option" where
  "atomic_add ops i s =
     (case (mc_regs s (in_dst i), mc_regs s (in_src i)) of
        (Entry k a, Num v) \<Rightarrow>
          do {
            st \<leftarrow> bm_lookup ops (mc_map s) k;
            (old, st) \<leftarrow> entry_add (a + in_off i) v st;
            let s = s\<lparr>mc_map := bm_update ops k st (mc_map s)\<rparr>;
            if in_imm i = 0 then jump 0 s else if in_imm i = 1 then set_reg (in_src i) (Num old) s else None }
      | _ \<Rightarrow> None)"

definition bpf_step :: "'m bpf_ops \<Rightarrow> sk_buff \<Rightarrow> nat list \<Rightarrow> insn \<Rightarrow> 'm machine \<Rightarrow> 'm machine option" where
  "bpf_step ops skb maprefs i s =
     (case in_code i of
        Some LDX_W \<Rightarrow> (case mc_regs s (in_src i) of
            Ctx a \<Rightarrow> (case ctx_word skb (a + in_off i) of None \<Rightarrow> None | Some v \<Rightarrow> set_reg (in_dst i) (Num (ucast v)) s)
          | _ \<Rightarrow> None)
      | Some STX_W \<Rightarrow> store_reg 4 (\<lambda>v. ucast (ucast v :: u32)) i s
      | Some STX_DW \<Rightarrow> store_reg 8 (\<lambda>v. v) i s
      | Some MOV32_K \<Rightarrow> set_reg (in_dst i) (Num (ucast (word_of_int (in_imm i) :: u32))) s
      | Some MOV64_K \<Rightarrow> set_reg (in_dst i) (Num (word_of_int (in_imm i))) s
      | Some MOV64_X \<Rightarrow> set_reg (in_dst i) (mc_regs s (in_src i)) s
      | Some ADD64_K \<Rightarrow> (case mc_regs s (in_dst i) of
            Num v \<Rightarrow> set_reg (in_dst i) (Num (v + word_of_int (in_imm i))) s
          | Frame a \<Rightarrow> set_reg (in_dst i) (Frame (a + in_imm i)) s
          | _ \<Rightarrow> None)
      | Some JEQ32_K \<Rightarrow> (case mc_regs s (in_dst i) of
            Num v \<Rightarrow> jump (if (ucast v :: u32) = word_of_int (in_imm i) then in_off i else 0) s
          | _ \<Rightarrow> None)
      | Some JNE_K \<Rightarrow> (case mc_regs s (in_dst i) of
            Num v \<Rightarrow> jump (if v \<noteq> word_of_int (in_imm i) then in_off i else 0) s
          | Entry _ _ \<Rightarrow> if in_imm i = 0 then jump (in_off i) s else None
          | _ \<Rightarrow> None)
      | Some JA \<Rightarrow> jump (in_off i) s
      | Some LD_IMM64 \<Rightarrow> if mc_pc s \<in> set maprefs
          then Option.bind (set_reg (in_dst i) MapRef s) (jump 0) else None
      | Some CALL \<Rightarrow> call_helper ops (in_imm i) s
      | Some ATOMIC_DW \<Rightarrow> atomic_add ops i s
      | _ \<Rightarrow> None)"

text \<open>Run until the exit, whose value is register 0; nothing on a fault or without fuel.\<close>

fun bpf_run :: "nat \<Rightarrow> 'm bpf_ops \<Rightarrow> sk_buff \<Rightarrow> nat list \<Rightarrow> insn list \<Rightarrow> 'm machine \<Rightarrow> (u64 \<times> 'm) option" where
  "bpf_run 0 ops skb maprefs prog s = None"
| "bpf_run (Suc n) ops skb maprefs prog s =
     (if mc_pc s < length prog then
        let i = prog ! mc_pc s
        in if in_code i = Some EXIT
           then (case mc_regs s 0 of Num v \<Rightarrow> Some (v, mc_map s) | _ \<Rightarrow> None)
           else (case bpf_step ops skb maprefs i s of None \<Rightarrow> None | Some s \<Rightarrow> bpf_run n ops skb maprefs prog s)
      else None)"

definition run_ingress :: "'m bpf_ops \<Rightarrow> sk_buff \<Rightarrow> 'm \<Rightarrow> (u64 \<times> 'm) option" where
  "run_ingress ops skb m =
     bpf_run 33 ops skb (relocated map_symbol ingress_relocations) (decode ingress_section) (mc_start m)"

definition run_egress :: "'m bpf_ops \<Rightarrow> sk_buff \<Rightarrow> 'm \<Rightarrow> (u64 \<times> 'm) option" where
  "run_egress ops skb m =
     bpf_run 33 ops skb (relocated map_symbol egress_relocations) (decode egress_section) (mc_start m)"

text \<open>A packet at its hook, and packets one after the other while the programs return \<open>TC_ACT_OK\<close>.\<close>

definition run_packet :: "'m bpf_ops \<Rightarrow> bool \<times> sk_buff \<Rightarrow> 'm \<Rightarrow> (u64 \<times> 'm) option" where
  "run_packet ops p m = (if fst p then run_ingress ops (snd p) m else run_egress ops (snd p) m)"

fun run_packets :: "'m bpf_ops \<Rightarrow> (bool \<times> sk_buff) list \<Rightarrow> 'm \<Rightarrow> 'm option" where
  "run_packets ops [] m = Some m"
| "run_packets ops (p # ps) m =
     (case run_packet ops p m of None \<Rightarrow> None
      | Some (v, m) \<Rightarrow> if v = word_of_int TC_ACT_OK then run_packets ops ps m else None)"

section \<open>The machine code decoded\<close>

abbreviation ins :: "opcode \<Rightarrow> nat \<Rightarrow> nat \<Rightarrow> int \<Rightarrow> int \<Rightarrow> insn" where
  "ins c d r a n \<equiv> \<lparr>in_code = Some c, in_dst = d, in_src = r, in_off = a, in_imm = n\<rparr>"

lemma decode_ingress: "decode ingress_section =
    [ins LDX_W 6 1 0 0, ins LDX_W 1 1 40 0, ins JEQ32_K 1 0 28 0,
     ins JEQ32_K 6 0 27 0, ins STX_W 10 1 (- 4) 0, ins MOV64_K 1 0 0 0,
     ins STX_DW 10 1 (- 16) 0, ins STX_DW 10 1 (- 24) 0, ins STX_DW 10 1 (- 32) 0,
     ins STX_DW 10 1 (- 40) 0, ins MOV64_X 2 10 0 0, ins ADD64_K 2 0 0 (- 4),
     ins LD_IMM64 1 0 0 0, ins IMM64_HIGH 0 0 0 0, ins CALL 0 0 0 1,
     ins JNE_K 0 0 12 0, ins MOV64_K 1 0 0 1, ins STX_DW 10 1 (- 32) 0,
     ins STX_DW 10 6 (- 40) 0, ins MOV64_X 2 10 0 0, ins ADD64_K 2 0 0 (- 4),
     ins MOV64_X 3 10 0 0, ins ADD64_K 3 0 0 (- 40), ins LD_IMM64 1 0 0 0,
     ins IMM64_HIGH 0 0 0 0, ins MOV64_K 4 0 0 0, ins CALL 0 0 0 2,
     ins JA 0 0 3 0, ins ATOMIC_DW 0 6 0 1, ins MOV64_K 1 0 0 1,
     ins ATOMIC_DW 0 1 8 1, ins MOV32_K 0 0 0 0, ins EXIT 0 0 0 0]"
  by (simp add: ingress_section_def opcode_of_def signed_le_def little_endian_def)

lemma decode_egress: "decode egress_section =
    [ins LDX_W 6 1 0 0, ins LDX_W 1 1 40 0, ins JEQ32_K 1 0 28 0,
     ins JEQ32_K 6 0 27 0, ins STX_W 10 1 (- 4) 0, ins MOV64_K 1 0 0 0,
     ins STX_DW 10 1 (- 16) 0, ins STX_DW 10 1 (- 24) 0, ins STX_DW 10 1 (- 32) 0,
     ins STX_DW 10 1 (- 40) 0, ins MOV64_X 2 10 0 0, ins ADD64_K 2 0 0 (- 4),
     ins LD_IMM64 1 0 0 0, ins IMM64_HIGH 0 0 0 0, ins CALL 0 0 0 1,
     ins JNE_K 0 0 12 0, ins MOV64_K 1 0 0 1, ins STX_DW 10 1 (- 16) 0,
     ins STX_DW 10 6 (- 24) 0, ins MOV64_X 2 10 0 0, ins ADD64_K 2 0 0 (- 4),
     ins MOV64_X 3 10 0 0, ins ADD64_K 3 0 0 (- 40), ins LD_IMM64 1 0 0 0,
     ins IMM64_HIGH 0 0 0 0, ins MOV64_K 4 0 0 0, ins CALL 0 0 0 2,
     ins JA 0 0 3 0, ins ATOMIC_DW 0 6 16 1, ins MOV64_K 1 0 0 1,
     ins ATOMIC_DW 0 1 24 1, ins MOV32_K 0 0 0 0, ins EXIT 0 0 0 0]"
  by (simp add: egress_section_def opcode_of_def signed_le_def little_endian_def)

lemma map_references:
  "relocated map_symbol ingress_relocations = [12, 23]" "relocated map_symbol egress_relocations = [12, 23]"
  by (simp_all add: ingress_relocations_def egress_relocations_def map_symbol_def little_endian_def)

lemma bpf_run_numeral: "bpf_run (numeral k) ops skb maprefs prog s =
    (if mc_pc s < length prog then
        let i = prog ! mc_pc s
        in if in_code i = Some EXIT
           then (case mc_regs s 0 of Num v \<Rightarrow> Some (v, mc_map s) | _ \<Rightarrow> None)
           else (case bpf_step ops skb maprefs i s of None \<Rightarrow> None | Some s \<Rightarrow> bpf_run (pred_numeral k) ops skb maprefs prog s)
      else None)"
  by (simp add: numeral_eq_Suc)

lemma ucast_32_64 [simp]: "ucast (ucast (x :: u32) :: u64) = x"
  by (rule bit_word_eqI) (simp add: bit_unsigned_iff)

lemmas machine_simps = bpf_run_numeral bpf_step_def set_reg_def jump_def store_reg_def call_helper_def after_call_def atomic_add_def
  ctx_word_def frame_key_def frame_stats_def frame_load_def frame_store_def in_frame_def entry_add_def mc_start_def Let_def

lemma run_ingress_skip:
  assumes "skb_ifindex skb = 0 \<or> skb_len skb = 0"
  shows "run_ingress ops skb m = Some (0, m)"
  using assms unfolding run_ingress_def decode_ingress map_references
  by (cases "skb_ifindex skb = 0") (simp_all add: machine_simps)

lemma run_ingress_new:
  assumes "skb_ifindex skb \<noteq> 0" "skb_len skb \<noteq> 0" "bm_lookup ops m (skb_ifindex skb) = None"
  shows "run_ingress ops skb m = Some (0, bm_update ops (skb_ifindex skb) (first_stats (skb_len skb) True) m)"
  using assms unfolding run_ingress_def decode_ingress map_references
  by (simp add: machine_simps first_stats_def zero_net_stats_def)

lemma run_ingress_old:
  assumes "skb_ifindex skb \<noteq> 0" "skb_len skb \<noteq> 0" "bm_lookup ops m (skb_ifindex skb) = Some st"
    and "bm_lookup ops (bm_update ops (skb_ifindex skb) (st\<lparr>ns_rcv_bytes := ns_rcv_bytes st + ucast (skb_len skb)\<rparr>) m) (skb_ifindex skb)
      = Some (st\<lparr>ns_rcv_bytes := ns_rcv_bytes st + ucast (skb_len skb)\<rparr>)"
  shows "run_ingress ops skb m = Some (0, bm_update ops (skb_ifindex skb) (add_stats (skb_len skb) True st)
    (bm_update ops (skb_ifindex skb) (st\<lparr>ns_rcv_bytes := ns_rcv_bytes st + ucast (skb_len skb)\<rparr>) m))"
  using assms unfolding run_ingress_def decode_ingress map_references
  by (simp add: machine_simps add_stats_def)

lemma run_egress_skip:
  assumes "skb_ifindex skb = 0 \<or> skb_len skb = 0"
  shows "run_egress ops skb m = Some (0, m)"
  using assms unfolding run_egress_def decode_egress map_references
  by (cases "skb_ifindex skb = 0") (simp_all add: machine_simps)

lemma run_egress_new:
  assumes "skb_ifindex skb \<noteq> 0" "skb_len skb \<noteq> 0" "bm_lookup ops m (skb_ifindex skb) = None"
  shows "run_egress ops skb m = Some (0, bm_update ops (skb_ifindex skb) (first_stats (skb_len skb) False) m)"
  using assms unfolding run_egress_def decode_egress map_references
  by (simp add: machine_simps first_stats_def zero_net_stats_def)

lemma run_egress_old:
  assumes "skb_ifindex skb \<noteq> 0" "skb_len skb \<noteq> 0" "bm_lookup ops m (skb_ifindex skb) = Some st"
    and "bm_lookup ops (bm_update ops (skb_ifindex skb) (st\<lparr>ns_snd_bytes := ns_snd_bytes st + ucast (skb_len skb)\<rparr>) m) (skb_ifindex skb)
      = Some (st\<lparr>ns_snd_bytes := ns_snd_bytes st + ucast (skb_len skb)\<rparr>)"
  shows "run_egress ops skb m = Some (0, bm_update ops (skb_ifindex skb) (add_stats (skb_len skb) False st)
    (bm_update ops (skb_ifindex skb) (st\<lparr>ns_snd_bytes := ns_snd_bytes st + ucast (skb_len skb)\<rparr>) m))"
  using assms unfolding run_egress_def decode_egress map_references
  by (simp add: machine_simps add_stats_def)

section \<open>Machine code and source\<close>

lemmas run_cases = run_ingress_skip run_egress_skip run_ingress_new run_egress_new

context bpf_hash
begin

lemma lookup_same_keys: "bm_lookup ops m = bm_lookup ops m' \<Longrightarrow> set (keys m) = set (keys m') \<and> length (keys m) = length (keys m')"
  by (metis distinct_card distinct_keys lookup_keys subsetI subset_antisym)

lemma lookup_cong_update:
  assumes "bm_lookup ops m = bm_lookup ops m'"
  shows "bm_lookup ops (bm_update ops k v m) = bm_lookup ops (bm_update ops k v m')"
  using lookup_same_keys [OF assms] assms lookup_update update_full
  by (cases "k \<in> set (keys m) \<or> length (keys m) < max_entries") (simp, metis not_le)

lemma lookup_cong_handle:
  "bm_lookup ops m = bm_lookup ops m' \<Longrightarrow> bm_lookup ops (handle ops p m) = bm_lookup ops (handle ops p m')"
  by (auto simp: handle_alt update_stats_def split: option.splits intro: lookup_cong_update)

lemma update_twice:
  assumes "bm_lookup ops m k = Some s"
  shows "bm_lookup ops (bm_update ops k v m) k = Some v"
    "bm_lookup ops (bm_update ops k w (bm_update ops k v m)) = bm_lookup ops (bm_update ops k w m)"
proof -
  have k: "k \<in> set (keys m)" using assms lookup_keys by blast
  then have "k \<in> set (keys (bm_update ops k v m))" by (simp add: update_old)
  with k show "bm_lookup ops (bm_update ops k v m) k = Some v"
    "bm_lookup ops (bm_update ops k w (bm_update ops k v m)) = bm_lookup ops (bm_update ops k w m)"
    by (simp_all add: lookup_update)
qed

lemma packet_refines:
  "\<exists>m'. run_packet ops p m = Some (0, m') \<and> bm_lookup ops m' = bm_lookup ops (handle ops p m)"
proof (cases "skb_ifindex (snd p) = 0 \<or> skb_len (snd p) = 0")
  case True
  then show ?thesis by (auto simp: run_packet_def handle_alt run_cases)
next
  case False
  show ?thesis
  proof (cases "bm_lookup ops m (skb_ifindex (snd p))")
    case None
    with False show ?thesis by (cases "fst p") (auto simp: run_packet_def handle_alt update_stats_def run_cases)
  next
    case (Some st)
    note u = update_twice [OF Some]
    from False Some u(1) show ?thesis
      by (cases "fst p") (auto simp: run_packet_def handle_alt update_stats_def run_ingress_old run_egress_old u(2))
  qed
qed

lemma packets_refine:
  "bm_lookup ops m = bm_lookup ops n \<Longrightarrow>
     \<exists>m'. run_packets ops ps m = Some m' \<and> bm_lookup ops m' = bm_lookup ops (fold (handle ops) ps n)"
proof (induction ps arbitrary: m n)
  case (Cons p ps)
  obtain m' where m': "run_packet ops p m = Some (0, m')" "bm_lookup ops m' = bm_lookup ops (handle ops p m)"
    using packet_refines by blast
  then have "bm_lookup ops m' = bm_lookup ops (handle ops p n)" using lookup_cong_handle [OF Cons.prems, of p] by simp
  from Cons.IH [OF this] m'(1) show ?case by (simp add: TC_ACT_OK_def)
qed simp

end

text \<open>
  C10: the machine code the worker loads does what its source says. On every sequence of
  packets the two programs of the object file run to their exits within 33 instructions
  each, never fault, let every packet through, and leave in the map, for every interface,
  what \<open>tc_ingress\<close> and \<open>tc_egress\<close> of \<open>net_stats.bpf.c\<close> leave there.
\<close>

theorem object_refines_source:
  assumes "bpf_hash ops keys emp"
  shows "\<exists>m. run_packets ops ps emp = Some m \<and> bm_lookup ops m = bm_lookup ops (fold (handle ops) ps emp)"
  by (rule bpf_hash.packets_refine [OF assms]) simp

theorem object_refines_source_witness:
  "\<exists>m. run_packets alist_ops [(True, demo_skb 2 100), (False, demo_skb 2 50)] [] = Some m
     \<and> bm_lookup alist_ops m 2 = Some \<lparr>ns_rcv_bytes = 100, ns_rcv_packets = 1, ns_snd_bytes = 50, ns_snd_packets = 1\<rparr>"
proof -
  have "map_of (fold (handle alist_ops) [(True, demo_skb 2 100), (False, demo_skb 2 50)] []) 2
      = Some \<lparr>ns_rcv_bytes = 100, ns_rcv_packets = 1, ns_snd_bytes = 50, ns_snd_packets = 1\<rparr>"
    by (simp add: handle_alt update_stats_def alist_ops_def am_update_def am_keys_def max_entries_def first_stats_def add_stats_def
        zero_net_stats_def)
  with object_refines_source [OF am.bpf_hash_axioms, of "[(True, demo_skb 2 100), (False, demo_skb 2 50)]"]
  show ?thesis by (auto simp: alist_ops_def simp del: fold_simps run_packets.simps)
qed

section \<open>The skeleton\<close>

text \<open>
  The skeleton's functions over the blocks they allocate: the \<open>net_stats_bpf\<close> object, the
  \<open>bpf_object_skeleton\<close>, its table of maps and its table of programs. \<open>calloc\<close> may fail for
  each of them. \<open>libbpf\<close> opens, loads and attaches with a return code;
  \<open>bpf_object__destroy_skeleton\<close> closes the object and frees the skeleton with its tables
  (nothing for a null pointer).
\<close>

datatype skel_block = SkelObj | Skel | SkelMaps | SkelProgs

record libbpf =
  can_calloc :: "skel_block \<Rightarrow> bool"
  open_ret :: int
  load_ret :: int
  attach_ret :: int

text \<open>What the skeleton tells \<open>libbpf\<close>: its name, its maps, and its programs with the sections they come from.\<close>

record object_skeleton =
  sk_name :: string
  sk_maps :: "string list"
  sk_progs :: "string list"
  sk_data :: "nat list"

record net_stats_bpf =
  nb_skeleton :: "object_skeleton option"
  nb_opened :: bool
  nb_loaded :: bool
  nb_attached :: bool

record skel_heap =
  sh_live :: "skel_block list"
  sh_errno :: int

definition E_NOMEM :: int where
  "E_NOMEM = 12"

definition calloc_block :: "libbpf \<Rightarrow> skel_block \<Rightarrow> skel_heap \<Rightarrow> bool \<times> skel_heap" where
  "calloc_block lib b h = (if can_calloc lib b then (True, h\<lparr>sh_live := b # sh_live h\<rparr>) else (False, h))"

definition destroy_skeleton :: "skel_heap \<Rightarrow> skel_heap" where
  "destroy_skeleton h = h\<lparr>sh_live := filter (\<lambda>b. b \<notin> {Skel, SkelMaps, SkelProgs}) (sh_live h)\<rparr>"

definition skel_destroy :: "net_stats_bpf option \<Rightarrow> skel_heap \<Rightarrow> skel_heap" where
  "skel_destroy p h =
     (case p of None \<Rightarrow> h
      | Some obj \<Rightarrow>
          let h = (if nb_skeleton obj \<noteq> None then destroy_skeleton h else h)
          in h\<lparr>sh_live := remove1 SkelObj (sh_live h)\<rparr>)"

definition create_skeleton ::
  "libbpf \<Rightarrow> nat list \<Rightarrow> net_stats_bpf \<Rightarrow> skel_heap \<Rightarrow> int \<times> net_stats_bpf \<times> skel_heap" where
  "create_skeleton lib elf obj h =
     (case calloc_block lib Skel h of
        (False, h) \<Rightarrow> (- E_NOMEM, obj, h)
      | (True, h) \<Rightarrow>
          (case calloc_block lib SkelMaps h of
             (False, h) \<Rightarrow> (- E_NOMEM, obj, destroy_skeleton h)
           | (True, h) \<Rightarrow>
               (case calloc_block lib SkelProgs h of
                  (False, h) \<Rightarrow> (- E_NOMEM, obj, destroy_skeleton h)
                | (True, h) \<Rightarrow>
                    (0, obj\<lparr>nb_skeleton := Some \<lparr>sk_name = ''net_stats_bpf'', sk_maps = [''net_stats_map''],
                          sk_progs = [''tc_ingress'', ''tc_egress''], sk_data = elf\<rparr>\<rparr>, h))))"

definition skel_open_opts :: "libbpf \<Rightarrow> nat list \<Rightarrow> skel_heap \<Rightarrow> net_stats_bpf option \<times> skel_heap" where
  "skel_open_opts lib elf h =
     (case calloc_block lib SkelObj h of
        (False, h) \<Rightarrow> (None, h\<lparr>sh_errno := E_NOMEM\<rparr>)
      | (True, h) \<Rightarrow>
          (case create_skeleton lib elf \<lparr>nb_skeleton = None, nb_opened = False, nb_loaded = False, nb_attached = False\<rparr> h of
             (err, obj, h) \<Rightarrow>
               if err \<noteq> 0 then (None, (skel_destroy (Some obj) h)\<lparr>sh_errno := - err\<rparr>)
               else if open_ret lib \<noteq> 0 then (None, (skel_destroy (Some obj) h)\<lparr>sh_errno := - open_ret lib\<rparr>)
               else (Some (obj\<lparr>nb_opened := True\<rparr>), h)))"

definition skel_open :: "libbpf \<Rightarrow> nat list \<Rightarrow> skel_heap \<Rightarrow> net_stats_bpf option \<times> skel_heap" where
  "skel_open lib elf h = skel_open_opts lib elf h"

definition skel_load :: "libbpf \<Rightarrow> net_stats_bpf \<Rightarrow> int \<times> net_stats_bpf" where
  "skel_load lib obj = (load_ret lib, obj\<lparr>nb_loaded := (load_ret lib = 0)\<rparr>)"

definition skel_open_and_load :: "libbpf \<Rightarrow> nat list \<Rightarrow> skel_heap \<Rightarrow> net_stats_bpf option \<times> skel_heap" where
  "skel_open_and_load lib elf h =
     (case skel_open lib elf h of
        (None, h) \<Rightarrow> (None, h)
      | (Some obj, h) \<Rightarrow>
          (case skel_load lib obj of (err, obj) \<Rightarrow>
             if err \<noteq> 0 then (None, (skel_destroy (Some obj) h)\<lparr>sh_errno := - err\<rparr>) else (Some obj, h)))"

definition skel_attach :: "libbpf \<Rightarrow> net_stats_bpf \<Rightarrow> int \<times> net_stats_bpf" where
  "skel_attach lib obj = (attach_ret lib, obj\<lparr>nb_attached := (attach_ret lib = 0)\<rparr>)"

definition skel_detach :: "net_stats_bpf \<Rightarrow> net_stats_bpf" where
  "skel_detach obj = obj\<lparr>nb_attached := False\<rparr>"

text \<open>The blocks of a skeleton that was opened.\<close>

definition skel_blocks :: "skel_block list" where
  "skel_blocks = [SkelProgs, SkelMaps, Skel, SkelObj]"

lemmas skeleton_simps = skel_open_and_load_def skel_open_def skel_open_opts_def create_skeleton_def calloc_block_def skel_load_def
  skel_destroy_def destroy_skeleton_def skel_blocks_def E_NOMEM_def

text \<open>
  Opening and loading the object either gives an object that is opened and loaded, with the
  two programs and the map, and owns exactly its four blocks, or gives none, leaves no block
  behind and sets \<open>errno\<close> to \<open>ENOMEM\<close> or to the negated code of the call that failed.
\<close>

theorem skeleton_owns_or_releases:
  "case skel_open_and_load lib elf \<lparr>sh_live = [], sh_errno = e\<rparr> of
     (None, h) \<Rightarrow> sh_live h = [] \<and> sh_errno h \<in> {E_NOMEM, - open_ret lib, - load_ret lib}
       \<and> ((\<exists>b. \<not> can_calloc lib b) \<or> open_ret lib \<noteq> 0 \<or> load_ret lib \<noteq> 0) \<and> skel_destroy None h = h
   | (Some obj, h) \<Rightarrow> sh_live h = skel_blocks \<and> nb_opened obj \<and> nb_loaded obj
       \<and> map_option sk_progs (nb_skeleton obj) = Some [''tc_ingress'', ''tc_egress'']
       \<and> map_option sk_data (nb_skeleton obj) = Some elf
       \<and> sh_live (skel_destroy (Some obj) h) = [] \<and> sh_errno h = e"
  by (auto simp: skeleton_simps)

section \<open>Starting and stopping with the skeleton\<close>

text \<open>
  The commands for the queueing discipline of an interface, as given to \<open>system\<close>; none and
  the result \<open>-1\<close> for an index without a name. The text \<open>TCQdiscCreateClsact\<close> formats first
  is overwritten before it is used, and \<open>TCQdiscDeleteClsact\<close> is never called.
\<close>

definition TCQdiscCreateClsact :: "(u32 \<Rightarrow> string option) \<Rightarrow> (string \<Rightarrow> int) \<Rightarrow> u32 \<Rightarrow> int \<times> string list" where
  "TCQdiscCreateClsact indextoname system ifindex =
     (case indextoname ifindex of None \<Rightarrow> (- 1, [])
      | Some ifname \<Rightarrow>
          let cmd = take 255 (''tc qdisc add dev '' @ ifname @ '' clsact 2>/dev/null'') in (system cmd, [cmd]))"

definition TCQdiscDeleteClsact :: "(u32 \<Rightarrow> string option) \<Rightarrow> (string \<Rightarrow> int) \<Rightarrow> u32 \<Rightarrow> int \<times> string list" where
  "TCQdiscDeleteClsact indextoname system ifindex =
     (case indextoname ifindex of None \<Rightarrow> (- 1, [])
      | Some ifname \<Rightarrow>
          let cmd = take 255 (''tc qdisc del dev '' @ ifname @ '' clsact 2>/dev/null'') in (system cmd, [cmd]))"

text \<open>The commands of one round of the loop in \<open>initEbpf\<close>.\<close>

definition if_commands :: "tc_system \<Rightarrow> (string \<Rightarrow> int) \<Rightarrow> u32 \<Rightarrow> string list" where
  "if_commands sys system ifindex =
     (case if_indextoname sys ifindex of None \<Rightarrow> []
      | Some ifname \<Rightarrow> if ifname = ''lo'' then [] else snd (TCQdiscCreateClsact (if_indextoname sys) system ifindex))"

text \<open>
  \<open>initEbpf\<close> with the skeleton's functions and the commands: the result, the monitor, the
  kept object, the hooks, the commands and the heap. \<open>Ebpf_Net.initEbpf\<close> has the results of
  the skeleton's calls as parameters.
\<close>

definition initEbpf_skel ::
  "libbpf \<Rightarrow> nat list \<Rightarrow> tc_system \<Rightarrow> (string \<Rightarrow> int) \<Rightarrow> NetEbpfMonitor \<Rightarrow> skel_heap
     \<Rightarrow> (bool \<times> NetEbpfMonitor \<times> (u32 \<times> attach_point) list) \<times> net_stats_bpf option \<times> string list \<times> skel_heap" where
  "initEbpf_skel lib elf sys system s h =
     (case skel_open lib elf h of
        (None, h) \<Rightarrow> ((False, s, []), None, [], h)
      | (Some skel, h) \<Rightarrow>
          (case skel_load lib skel of (err, skel) \<Rightarrow>
             if err \<noteq> 0 then ((False, s, []), None, [], skel_destroy (Some skel) h)
             else
               let s = s\<lparr>en_mapFd := map_fd sys\<rparr>
               in if map_fd sys < 0 then ((False, s, []), None, [], skel_destroy (Some skel) h)
                  else
                    let rs = map (attach_if sys) (GetAllIfIndexes sys);
                        cmds = concat (map (if_commands sys system) (GetAllIfIndexes sys));
                        hooks = concat (map fst rs);
                        s = s\<lparr>en_attachedIfindexes := en_attachedIfindexes s @ concat (map snd rs), en_bpfObj := True\<rparr>
                    in if en_attachedIfindexes s = []
                       then ((False, s\<lparr>en_bpfObj := False\<rparr>, hooks), None, cmds, skel_destroy (Some skel) h)
                       else ((True, s, hooks), Some skel, cmds, h)))"

definition cleanupEbpf_skel ::
  "NetEbpfMonitor \<Rightarrow> (u32 \<times> attach_point) list \<Rightarrow> net_stats_bpf option \<Rightarrow> skel_heap
     \<Rightarrow> (NetEbpfMonitor \<times> (u32 \<times> attach_point) list) \<times> skel_heap" where
  "cleanupEbpf_skel s hooks skel h = (cleanupEbpf s hooks, if en_bpfObj s then skel_destroy skel h else h)"

lemma skel_open_blocks:
  "case skel_open lib elf \<lparr>sh_live = [], sh_errno = e\<rparr> of
     (None, h) \<Rightarrow> sh_live h = [] | (Some obj, h) \<Rightarrow> sh_live h = skel_blocks \<and> nb_skeleton obj \<noteq> None"
  by (auto simp: skeleton_simps)

lemma skel_open_cases:
  obtains (failed) h where "skel_open lib elf \<lparr>sh_live = [], sh_errno = e\<rparr> = (None, h)" "sh_live h = []"
    | (opened) obj h where "skel_open lib elf \<lparr>sh_live = [], sh_errno = e\<rparr> = (Some obj, h)" "sh_live h = skel_blocks"
        "nb_skeleton obj \<noteq> None"
proof -
  obtain p h where "skel_open lib elf \<lparr>sh_live = [], sh_errno = e\<rparr> = (p, h)" by fastforce
  with skel_open_blocks [of lib elf e] show ?thesis using that by (cases p) auto
qed

lemma skel_destroy_all: "sh_live h = skel_blocks \<Longrightarrow> nb_skeleton obj \<noteq> None \<Longrightarrow> sh_live (skel_destroy (Some obj) h) = []"
  by (simp add: skel_destroy_def destroy_skeleton_def skel_blocks_def)

lemma skel_load_skeleton [simp]: "nb_skeleton (snd (skel_load lib obj)) = nb_skeleton obj" "fst (skel_load lib obj) = load_ret lib"
  by (simp_all add: skel_load_def)

lemma sys_skel_cong [simp]:
  "attach_if (sys\<lparr>skel_open_ok := a, skel_load_ret := b\<rparr>) = attach_if sys"
  "GetAllIfIndexes (sys\<lparr>skel_open_ok := a, skel_load_ret := b\<rparr>) = GetAllIfIndexes sys"
  by (rule ext, simp add: attach_if_def Let_def cong: option.case_cong if_cong)
    (simp add: GetAllIfIndexes_def cong: option.case_cong)

lemma if_commands_text:
  "c \<in> set (if_commands sys system i) \<Longrightarrow> \<exists>n. n \<noteq> ''lo'' \<and> (\<exists>i. if_indextoname sys i = Some n)
     \<and> c = take 255 (''tc qdisc add dev '' @ n @ '' clsact 2>/dev/null'')"
  unfolding if_commands_def TCQdiscCreateClsact_def Let_def
  by (cases "if_indextoname sys i") (force split: if_splits)+

text \<open>
  C24: starting the eBPF monitor leaks nothing. Whichever allocation or kernel call fails, it
  either succeeds holding exactly the object's four blocks, or fails holding none; in both
  cases it does what the model with the skeleton's results as parameters does, a cleanup
  leaves no block, and a queueing discipline is only asked for on named interfaces other
  than the loopback.
\<close>

theorem ebpf_start_holds_or_releases:
  "case initEbpf_skel lib elf sys system (NetEbpfMonitor_init now) \<lparr>sh_live = [], sh_errno = e\<rparr> of
     ((b, s, hooks), skel, cmds, h) \<Rightarrow>
       (b, s, hooks) = initEbpf (sys\<lparr>skel_open_ok := fst (skel_open lib elf \<lparr>sh_live = [], sh_errno = e\<rparr>) \<noteq> None,
         skel_load_ret := load_ret lib\<rparr>) (NetEbpfMonitor_init now)
       \<and> sh_live h = (if b then skel_blocks else []) \<and> en_bpfObj s = b \<and> (skel \<noteq> None) = b
       \<and> sh_live (snd (cleanupEbpf_skel s hooks skel h)) = []
       \<and> list_all (\<lambda>c. \<exists>n. n \<noteq> ''lo'' \<and> (\<exists>i. if_indextoname sys i = Some n)
             \<and> c = take 255 (''tc qdisc add dev '' @ n @ '' clsact 2>/dev/null'')) cmds"
proof (cases rule: skel_open_cases [of lib elf e])
  case (failed h)
  then show ?thesis by (simp add: initEbpf_skel_def initEbpf_def cleanupEbpf_skel_def NetEbpfMonitor_init_def)
next
  case (opened obj h)
  let ?sk = "snd (skel_load lib obj)"
  note d = skel_destroy_all [OF opened(2), of ?sk]
  have c: "list_all (\<lambda>c. \<exists>n. n \<noteq> ''lo'' \<and> (\<exists>i. if_indextoname sys i = Some n)
      \<and> c = take 255 (''tc qdisc add dev '' @ n @ '' clsact 2>/dev/null''))
      (concat (map (if_commands sys system) (GetAllIfIndexes sys)))"
    using if_commands_text unfolding list_all_iff by fastforce
  show ?thesis
    using opened d c
    by (simp add: initEbpf_skel_def initEbpf_def cleanupEbpf_skel_def NetEbpfMonitor_init_def Let_def case_prod_unfold
        del: set_concat)
qed

end
