(* ===== verification/Db_Schema.thy ===== *)
theory Db_Schema
  imports Mysql_Write
begin

text \<open>
  The tables the manager writes to, as \<open>sql table/init_server_performance.sql\<close> creates them,
  and that every row of \<open>HostManager::writeToMysql\<close> fits its table: the table exists, each
  column of the row is one of its columns and takes a value of that kind, and the columns
  without a default are given.
\<close>

section \<open>Tables\<close>

datatype col_type = VARCHAR nat | FLOAT | BIGINT | BIGINT_UNSIGNED | SQL_INT | TINYINT | DATETIME

text \<open>\<open>NOT NULL\<close> without a default, null or with a default, and \<open>AUTO_INCREMENT\<close>.\<close>

datatype col_need = Required | Optional | Generated

type_synonym schema = "(string \<times> col_type \<times> col_need) list"

definition columns :: "col_need \<Rightarrow> col_type \<Rightarrow> string list \<Rightarrow> schema" where
  "columns need ty cs = map (\<lambda>c. (c, ty, need)) cs"

definition performance_schema :: schema where
  "performance_schema =
     columns Generated SQL_INT [''id'']
     @ columns Required (VARCHAR 128) [''tenant_id'', ''team_id'', ''cluster_id'']
     @ columns Optional BIGINT [''server_id'']
     @ columns Required (VARCHAR 255) [''server_name'']
     @ columns Optional FLOAT [''cpu_percent'', ''usr_percent'', ''system_percent'', ''nice_percent'', ''idle_percent'',
        ''io_wait_percent'', ''irq_percent'', ''soft_irq_percent'', ''load_avg_1'', ''load_avg_3'',
        ''load_avg_15'', ''mem_used_percent'', ''total'', ''free'', ''avail'',
        ''disk_util_percent'', ''send_rate'', ''rcv_rate'', ''score'', ''cpu_percent_rate'',
        ''usr_percent_rate'', ''system_percent_rate'', ''nice_percent_rate'',
        ''idle_percent_rate'', ''io_wait_percent_rate'', ''irq_percent_rate'',
        ''soft_irq_percent_rate'', ''load_avg_1_rate'', ''load_avg_3_rate'', ''load_avg_15_rate'',
        ''mem_used_percent_rate'', ''total_rate'', ''free_rate'', ''avail_rate'',
        ''disk_util_percent_rate'', ''send_rate_rate'', ''rcv_rate_rate'']
     @ columns Required DATETIME [''timestamp'']"

definition net_schema :: schema where
  "net_schema =
     columns Generated SQL_INT [''id'']
     @ columns Required (VARCHAR 128) [''tenant_id'', ''team_id'', ''cluster_id'']
     @ columns Optional BIGINT [''server_id'']
     @ columns Required (VARCHAR 255) [''server_name'']
     @ columns Required (VARCHAR 64) [''net_name'']
     @ columns Optional BIGINT [''err_in'', ''err_out'', ''drop_in'', ''drop_out'']
     @ columns Optional FLOAT [''rcv_bytes_rate'', ''rcv_packets_rate'', ''snd_bytes_rate'', ''snd_packets_rate'',
        ''rcv_bytes_rate_rate'', ''rcv_packets_rate_rate'', ''snd_bytes_rate_rate'',
        ''snd_packets_rate_rate'', ''err_in_rate'', ''err_out_rate'', ''drop_in_rate'',
        ''drop_out_rate'']
     @ columns Required DATETIME [''timestamp'']"

definition softirq_schema :: schema where
  "softirq_schema =
     columns Generated SQL_INT [''id'']
     @ columns Required (VARCHAR 128) [''tenant_id'', ''team_id'', ''cluster_id'']
     @ columns Optional BIGINT [''server_id'']
     @ columns Required (VARCHAR 255) [''server_name'']
     @ columns Required (VARCHAR 64) [''cpu_name'']
     @ columns Optional BIGINT [''hi'', ''timer'', ''net_tx'', ''net_rx'', ''block'', ''irq_poll'', ''tasklet'', ''sched'',
        ''hrtimer'', ''rcu'']
     @ columns Optional FLOAT [''hi_rate'', ''timer_rate'', ''net_tx_rate'', ''net_rx_rate'', ''block_rate'',
        ''irq_poll_rate'', ''tasklet_rate'', ''sched_rate'', ''hrtimer_rate'', ''rcu_rate'']
     @ columns Required DATETIME [''timestamp'']"

definition mem_schema :: schema where
  "mem_schema =
     columns Generated SQL_INT [''id'']
     @ columns Required (VARCHAR 128) [''tenant_id'', ''team_id'', ''cluster_id'']
     @ columns Optional BIGINT [''server_id'']
     @ columns Required (VARCHAR 255) [''server_name'']
     @ columns Optional FLOAT [''total'', ''free'', ''avail'', ''buffers'', ''cached'', ''swap_cached'', ''active'',
        ''inactive'', ''active_anon'', ''inactive_anon'', ''active_file'', ''inactive_file'',
        ''dirty'', ''writeback'', ''anon_pages'', ''mapped'', ''kreclaimable'', ''sreclaimable'',
        ''sunreclaim'', ''total_rate'', ''free_rate'', ''avail_rate'', ''buffers_rate'',
        ''cached_rate'', ''swap_cached_rate'', ''active_rate'', ''inactive_rate'',
        ''active_anon_rate'', ''inactive_anon_rate'', ''active_file_rate'', ''inactive_file_rate'',
        ''dirty_rate'', ''writeback_rate'', ''anon_pages_rate'', ''mapped_rate'',
        ''kreclaimable_rate'', ''sreclaimable_rate'', ''sunreclaim_rate'']
     @ columns Required DATETIME [''timestamp'']"

definition disk_schema :: schema where
  "disk_schema =
     columns Generated SQL_INT [''id'']
     @ columns Required (VARCHAR 128) [''tenant_id'', ''team_id'', ''cluster_id'']
     @ columns Optional BIGINT [''server_id'']
     @ columns Required (VARCHAR 255) [''server_name'']
     @ columns Required (VARCHAR 64) [''disk_name'']
     @ columns Optional BIGINT [''read_ops'', ''write_ops'', ''sectors_read'', ''sectors_written'', ''read_time_ms'',
        ''write_time_ms'', ''io_in_progress'', ''io_time_ms'', ''weighted_io_time_ms'']
     @ columns Optional FLOAT [''read_bytes_per_sec'', ''write_bytes_per_sec'', ''read_iops'', ''write_iops'',
        ''avg_read_latency_ms'', ''avg_write_latency_ms'', ''util_percent'',
        ''read_bytes_per_sec_rate'', ''write_bytes_per_sec_rate'', ''read_iops_rate'',
        ''write_iops_rate'', ''avg_read_latency_ms_rate'', ''avg_write_latency_ms_rate'',
        ''util_percent_rate'']
     @ columns Required DATETIME [''timestamp'']"

definition mysql_schema :: schema where
  "mysql_schema =
     columns Generated SQL_INT [''id'']
     @ columns Required (VARCHAR 128) [''tenant_id'', ''team_id'', ''cluster_id'']
     @ columns Optional BIGINT [''server_id'']
     @ columns Required (VARCHAR 255) [''server_name'', ''instance'', ''mysql_host'']
     @ columns Optional SQL_INT [''mysql_port'']
     @ columns Optional TINYINT [''up'']
     @ columns Optional (VARCHAR 128) [''version'']
     @ columns Optional (VARCHAR 32) [''`role`'']
     @ columns Optional BIGINT_UNSIGNED [''max_connections'', ''threads_connected'', ''threads_running'', ''aborted_connects'',
        ''questions'', ''com_select'', ''com_insert'', ''com_update'', ''com_delete'',
        ''com_commit'', ''com_rollback'', ''slow_queries'', ''innodb_buffer_pool_read_requests'',
        ''innodb_buffer_pool_reads'']
     @ columns Optional FLOAT [''innodb_buffer_pool_hit_percent'']
     @ columns Optional BIGINT_UNSIGNED [''innodb_row_lock_waits'']
     @ columns Optional FLOAT [''innodb_row_lock_time_avg_ms'']
     @ columns Optional TINYINT [''replication_configured'', ''replication_running'']
     @ columns Optional FLOAT [''replication_lag_seconds'', ''connection_used_percent'', ''qps'', ''tps'',
        ''slow_queries_rate'', ''innodb_row_lock_waits_rate'']
     @ columns Required DATETIME [''timestamp'']"

definition redis_schema :: schema where
  "redis_schema =
     columns Generated SQL_INT [''id'']
     @ columns Required (VARCHAR 128) [''tenant_id'', ''team_id'', ''cluster_id'']
     @ columns Optional BIGINT [''server_id'']
     @ columns Required (VARCHAR 255) [''server_name'', ''instance'', ''redis_host'']
     @ columns Optional SQL_INT [''redis_port'']
     @ columns Optional TINYINT [''up'']
     @ columns Optional (VARCHAR 128) [''version'']
     @ columns Optional (VARCHAR 32) [''`role`'']
     @ columns Optional BIGINT_UNSIGNED [''uptime_in_seconds'', ''connected_clients'', ''blocked_clients'', ''maxclients'']
     @ columns Optional FLOAT [''connection_used_percent'']
     @ columns Optional BIGINT_UNSIGNED [''used_memory'', ''maxmemory'']
     @ columns Optional FLOAT [''mem_fragmentation_ratio'', ''memory_used_percent'']
     @ columns Optional BIGINT_UNSIGNED [''total_commands_processed'']
     @ columns Optional FLOAT [''instantaneous_ops_per_sec'', ''commands_per_sec'']
     @ columns Optional BIGINT_UNSIGNED [''keyspace_hits'', ''keyspace_misses'']
     @ columns Optional FLOAT [''keyspace_hit_percent'']
     @ columns Optional BIGINT_UNSIGNED [''expired_keys'', ''evicted_keys'', ''rejected_connections'', ''total_error_replies'',
        ''total_net_input_bytes'', ''total_net_output_bytes'']
     @ columns Optional FLOAT [''net_input_bytes_per_sec'', ''net_output_bytes_per_sec'']
     @ columns Optional TINYINT [''replication_configured'', ''master_link_up'']
     @ columns Optional BIGINT_UNSIGNED [''connected_slaves'']
     @ columns Optional FLOAT [''master_last_io_seconds_ago'']
     @ columns Optional BIGINT_UNSIGNED [''slowlog_len'']
     @ columns Optional FLOAT [''slowlog_growth'']
     @ columns Required DATETIME [''timestamp'']"

definition db_tables :: "(string \<times> schema) list" where
  "db_tables = [(''server_performance'', performance_schema),
     (''server_net_detail'', net_schema),
     (''server_softirq_detail'', softirq_schema),
     (''server_mem_detail'', mem_schema),
     (''server_disk_detail'', disk_schema),
     (''server_mysql_detail'', mysql_schema),
     (''server_redis_detail'', redis_schema)]"

section \<open>Rows that fit\<close>

datatype value_kind = KText | KFp | KU32 | KU64 | KFlag | KNull

fun kind_of :: "sql_value \<Rightarrow> value_kind" where
  "kind_of (SqlText _) = KText"
| "kind_of (SqlFp _) = KFp"
| "kind_of (SqlU32 _) = KU32"
| "kind_of (SqlU64 _) = KU64"
| "kind_of (SqlFlag _) = KFlag"
| "kind_of SqlNull = KNull"

text \<open>The kinds of values a column takes; an integer column rounds a floating value.\<close>

fun takes :: "col_type \<Rightarrow> value_kind \<Rightarrow> bool" where
  "takes (VARCHAR n) k \<longleftrightarrow> k = KText"
| "takes FLOAT k \<longleftrightarrow> k = KFp"
| "takes BIGINT k \<longleftrightarrow> k = KU64 \<or> k = KFp"
| "takes BIGINT_UNSIGNED k \<longleftrightarrow> k = KU64"
| "takes SQL_INT k \<longleftrightarrow> k = KU32"
| "takes TINYINT k \<longleftrightarrow> k = KFlag"
| "takes DATETIME k \<longleftrightarrow> k = KText"

definition column_takes :: "schema \<Rightarrow> string \<times> value_kind \<Rightarrow> bool" where
  "column_takes sch ck = (case map_of sch (fst ck) of None \<Rightarrow> False
     | Some (ty, need) \<Rightarrow> if snd ck = KNull then need = Optional else need \<noteq> Generated \<and> takes ty (snd ck))"

definition shape_fits :: "string \<Rightarrow> string list \<Rightarrow> value_kind list \<Rightarrow> bool" where
  "shape_fits table cs ks = (case map_of db_tables table of None \<Rightarrow> False
     | Some sch \<Rightarrow> length cs = length ks \<and> list_all (column_takes sch) (zip cs ks)
         \<and> list_all (\<lambda>(c, ty, need). need = Required \<longrightarrow> c \<in> set cs) sch)"

definition fits_schema :: "Insert \<Rightarrow> bool" where
  "fits_schema r \<longleftrightarrow> shape_fits (i_table r) (i_columns r) (map kind_of (i_values r))"

text \<open>Each table has its number and then the columns of the row, in the row's order.\<close>

definition fits :: "string \<times> col_type \<times> col_need \<Rightarrow> value_kind \<Rightarrow> bool" where
  "fits c k \<longleftrightarrow> (if k = KNull then snd (snd c) = Optional else snd (snd c) \<noteq> Generated \<and> takes (fst (snd c)) k)"

lemma zip_fits:
  assumes "list_all2 fits sch ks" "distinct (map fst sch)" "\<forall>c \<in> set sch. map_of full (fst c) = Some (snd c)"
  shows "list_all (column_takes full) (zip (map fst sch) ks)"
  using assms
  by (induction sch ks rule: list_all2_induct) (auto simp: column_takes_def fits_def split: prod.splits)

lemma shape_fitsI:
  assumes "map_of db_tables t = Some ((i, ty, Generated) # sch)" "map fst sch = cs" "distinct (i # cs)" "list_all2 fits sch ks"
  shows "shape_fits t cs ks"
proof -
  let ?full = "(i, ty, Generated) # sch"
  have "map_of ?full (fst c) = Some (snd c)" if "c \<in> set sch" for c
    using assms(2,3) that by (auto intro!: map_of_is_SomeI)
  then have "list_all (column_takes ?full) (zip cs ks)"
    using zip_fits [OF assms(4), of ?full] assms(2,3) by auto
  moreover have "length cs = length ks" using assms(2,4) by (auto dest: list_all2_lengthD)
  moreover have "list_all (\<lambda>(c, ty, need). need = Required \<longrightarrow> c \<in> set cs) ?full"
    using assms(2) by (force simp: list_all_iff)
  ultimately show ?thesis using assms(1) by (simp add: shape_fits_def)
qed

lemmas schema_defs = performance_schema_def net_schema_def softirq_schema_def mem_schema_def disk_schema_def mysql_schema_def
  redis_schema_def

lemmas column_defs = scope_columns_def perf_columns_def net_columns_def softirq_columns_def mem_columns_def disk_columns_def
  mysql_columns_def redis_columns_def

lemma schema_names:
  "map fst performance_schema = ''id'' # scope_columns @ perf_columns @ [''timestamp'']"
  "map fst net_schema = ''id'' # scope_columns @ net_columns @ [''timestamp'']"
  "map fst softirq_schema = ''id'' # scope_columns @ softirq_columns @ [''timestamp'']"
  "map fst mem_schema = ''id'' # scope_columns @ mem_columns @ [''timestamp'']"
  "map fst disk_schema = ''id'' # scope_columns @ disk_columns @ [''timestamp'']"
  "map fst mysql_schema = ''id'' # scope_columns @ mysql_columns @ [''timestamp'']"
  "map fst redis_schema = ''id'' # scope_columns @ redis_columns @ [''timestamp'']"
  by (simp_all add: schema_defs column_defs columns_def)

lemma names_distinct:
  "''id'' \<notin> set (scope_columns @ perf_columns @ [''timestamp''])" "''id'' \<notin> set (scope_columns @ net_columns @ [''timestamp''])"
  "''id'' \<notin> set (scope_columns @ softirq_columns @ [''timestamp''])" "''id'' \<notin> set (scope_columns @ mem_columns @ [''timestamp''])"
  "''id'' \<notin> set (scope_columns @ disk_columns @ [''timestamp''])" "''id'' \<notin> set (scope_columns @ mysql_columns @ [''timestamp''])"
  "''id'' \<notin> set (scope_columns @ redis_columns @ [''timestamp''])"
  by (simp_all add: column_defs)

text \<open>A row of a table fits when its values are of the kinds of the table's columns, in order.\<close>

lemma row_fits:
  assumes "map_of db_tables t = Some full" "full = (''id'', SQL_INT, Generated) # sch"
    and "map fst full = ''id'' # scope_columns @ cs @ [''timestamp'']"
    and "''id'' \<notin> set (scope_columns @ cs @ [''timestamp''])" "distinct (scope_columns @ cs @ [''timestamp''])"
    and "list_all2 fits sch (map kind_of (scope_values data @ vs @ [SqlText (fmt_time (hs_timestamp (hd_host_score data)))]))"
  shows "fits_schema (insert_row fmt_time data t cs vs)"
  unfolding fits_schema_def insert_row_simps
  using assms by (intro shape_fitsI [of t "''id''" SQL_INT sch]) (auto simp: insert_row_def)

lemma tables_found:
  "map_of db_tables ''server_performance'' = Some performance_schema" "map_of db_tables ''server_net_detail'' = Some net_schema"
  "map_of db_tables ''server_softirq_detail'' = Some softirq_schema" "map_of db_tables ''server_mem_detail'' = Some mem_schema"
  "map_of db_tables ''server_disk_detail'' = Some disk_schema" "map_of db_tables ''server_mysql_detail'' = Some mysql_schema"
  "map_of db_tables ''server_redis_detail'' = Some redis_schema"
  by (simp_all add: db_tables_def)

lemmas fit_simps = schema_defs columns_def scope_values_def fits_def perf_values_def Let_def

lemma perf_fits: "fits_schema (fst (perf_row fmt_time data s))"
  unfolding perf_row_def Let_def fst_conv
  by (rule row_fits [of _ performance_schema "tl performance_schema", OF tables_found(1) _ schema_names(1) names_distinct(1) columns_distinct(1)])
    (simp_all add: fit_simps)

lemma net_fits: "fits_schema (fst (net_row fmt_time data n s))"
  unfolding net_row_def Let_def fst_conv
  by (rule row_fits [of _ net_schema "tl net_schema", OF tables_found(2) _ schema_names(2) names_distinct(2) columns_distinct(2)])
    (simp_all add: fit_simps)

lemma softirq_fits: "fits_schema (fst (softirq_row fmt_time data q s))"
  unfolding softirq_row_def Let_def fst_conv
  by (rule row_fits [of _ softirq_schema "tl softirq_schema", OF tables_found(3) _ schema_names(3) names_distinct(3) columns_distinct(3)])
    (simp_all add: fit_simps)

lemma mem_fits: "fits_schema (fst (mem_row fmt_time data x s))"
  unfolding mem_row_def Let_def fst_conv
  by (rule row_fits [of _ mem_schema "tl mem_schema", OF tables_found(4) _ schema_names(4) names_distinct(4) columns_distinct(4)])
    (simp_all add: fit_simps)

lemma disk_fits: "fits_schema (fst (disk_row fmt_time data d s))"
  unfolding disk_row_def Let_def fst_conv
  by (rule row_fits [of _ disk_schema "tl disk_schema", OF tables_found(5) _ schema_names(5) names_distinct(5) columns_distinct(5)])
    (simp_all add: fit_simps)

lemma mysql_fits: "fits_schema (fst (mysql_row fmt_time data x s))"
  unfolding mysql_row_def Let_def fst_conv
  by (rule row_fits [of _ mysql_schema "tl mysql_schema", OF tables_found(6) _ schema_names(6) names_distinct(6) columns_distinct(6)])
    (simp_all add: fit_simps)

lemma redis_fits: "fits_schema (fst (redis_row fmt_time data x s))"
  unfolding redis_row_def Let_def fst_conv
  by (rule row_fits [of _ redis_schema "tl redis_schema", OF tables_found(7) _ schema_names(7) names_distinct(7) columns_distinct(7)])
    (simp_all add: fit_simps)

lemma each_row_all: "(\<And>x s. P (fst (f x s))) \<Longrightarrow> list_all P (fst (each_row f xs s))"
  by (induction xs arbitrary: s) (simp_all add: each_row_Cons del: each_row.simps(2))

text \<open>
  C14: every row the manager writes fits the table it is written to, whatever the record and
  the samples: the table is one of the schema's, the row names columns of it with values of
  their kinds, a null only where the column may be null, and gives every column without a
  default. Reading needs no more than that: what the queries select are columns of a row.
\<close>

theorem rows_fit_schema: "list_all fits_schema (fst (writeToMysql fmt_time got data st))"
proof -
  have "list_all fits_schema (fst (write_rows fmt_time data s))" for s
    by (simp add: write_rows_def Let_def case_prod_unfold perf_fits each_row_all net_fits softirq_fits mem_fits disk_fits
        mysql_fits redis_fits)
  then show ?thesis by (auto simp: writeToMysql_def split: prod.splits) (metis fst_conv)
qed

end
