(* ===== verification/Spec2Isabelle.thy ===== *)
theory Spec2Isabelle
  imports Messages Dispatcher_Threads Kmod_Collectors Ebpf_Net Host_Manager Conn_Pool Mysql_Write Service_Correct Grpc_Server
    Local_Time Redis_Pool Report_Types Manager_Main Console_Log Store_Query Writer_Threads Ebpf_Object Db_Schema
begin

text \<open>
  A verification of the monitor system: workers on the monitored hosts collect metrics and push
  them by gRPC to a manager, which authorises, scores, stores and serves them.

  \<^bold>\<open>The program and its parts.\<close> On a host, two kernel modules (\<open>worker/src/kmod\<close>) publish CPU and soft
  interrupt counters in mapped memory, two TC programs (\<open>worker/src/ebpf\<close>) count traffic in a map,
  and the worker (\<open>worker/src\<close>) reads these, the files under \<open>/proc\<close>, and MySQL and Redis servers.
  Its collector fills one \<open>MonitorInfo\<close> per round, its pusher sends it with the worker's name and
  token in the metadata of the call. In the manager (\<open>manager/src\<close>) the push service keeps the
  message and hands it to the dispatcher, which queues it on the shard of the host's name; the
  shard's thread has the host manager resolve the worker's tenant, team, cluster and server from
  the registry, score the host, and queue a record for the threads that write rows to MySQL. Query
  handlers run on the dispatcher's query threads, read MySQL through a second pool of connections
  and cache the latest scores in Redis.

  \<^bold>\<open>Theories.\<close>
  \<^item> \<open>Prelude\<close>: machine integers, the C and C++ string library as far as the code calls it, statuses.
  \<^item> \<open>Floats\<close>: IEEE arithmetic in both formats with rounding to nearest even, over the rationals.
    The locale \<open>rounding\<close> has the monotonicity the bounds rest on, interpreted for \<open>float\<close> and
    \<open>double\<close>. \<open>Text_Numbers\<close>: \<open>strtod\<close>, \<open>std::stod\<close>, \<open>std::atof\<close>.
  \<^item> \<open>Messages\<close>: the protobuf messages of \<open>proto/\<close> as records.
  \<^item> \<open>Manager_Config\<close>: \<open>ManagerConfig\<close>, \<open>MysqlConfig\<close>, \<open>ManagerMetrics\<close> and their loading.
  \<^item> \<open>Dispatcher\<close>, \<open>Dispatcher_Threads\<close>: \<open>ManagerDispatcher\<close>. The first has each operation and one
    iteration of each loop as a function; \<open>folly::MPMCQueue\<close> is the locale \<open>mpmc\<close> (extended by
    \<open>task_queue\<close>), interpreted on a bounded list. The second has the threads as a step relation
    at the granularity of the atomic accesses, with invariants by rule induction.
  \<^item> \<open>Grpc_Server\<close>: \<open>GrpcServerImpl\<close>, the callback \<open>main\<close> sets, and \<open>RpcClient\<close>, which reads a message back.
  \<^item> \<open>Host_Manager\<close>, \<open>Mysql_Write\<close>: \<open>HostManager\<close>: score, authorisation, write queue, threads, and every
    row \<open>writeToMysql\<close> inserts (locale \<open>device_rows\<close>, interpreted for the five device tables).
    \<open>Writer_Threads\<close>: the writers, the threads that feed them and \<open>stop\<close> as a step relation.
    \<open>Db_Schema\<close>: the tables of \<open>sql table/init_server_performance.sql\<close>, and that the rows fit them.
  \<^item> \<open>Conn_Pool\<close>: both connection pools and the cache on a record of client calls; the locales
    \<open>pool_backend\<close>, \<open>lending\<close>, \<open>timed_backend\<close>, \<open>mysql_client\<close> and \<open>redis_client\<close> state what is relied
    on, interpreted on a simulated client and, as sublocales, on the model's back ends.
    \<open>Redis_Pool\<close>: the Redis class again, statement by statement with its guards, and that it is the
    common pool at the Redis back end.
  \<^item> \<open>Query_Manager\<close>, \<open>Query_Correct\<close>: the eleven queries with the text of their statements, and what
    they guarantee (locale \<open>std_sort\<close> for \<open>std::sort\<close>). \<open>Local_Time\<close>: the times in their statements and
    rows, with the zone of the host as an argument. \<open>Store_Query\<close>: what the writer stored is what the
    queries return (locale \<open>stored_table\<close>, interpreted for the seven tables). \<open>Query_Service\<close>,
    \<open>Service_Correct\<close>: the handlers.
  \<^item> \<open>Kmod_Collectors\<close>: both kernel modules, with the locale \<open>collector\<close> interpreted for each.
    \<open>Ebpf_Net\<close>: the TC programs and \<open>NetEbpfMonitor\<close>; the map is the locale \<open>bpf_hash\<close>.
    \<open>Ebpf_Object\<close>: the skeleton header: the compiled programs on a machine for their instructions,
    and the functions that open, load and destroy the object.
  \<^item> \<open>Worker_Cpu\<close>, \<open>Worker_Proc\<close>, \<open>Worker_Db\<close>: the other monitors of the worker: those of the kernel
    modules' memory, of text files and the host, and of database servers (locale
    \<open>target_monitor\<close>, interpreted for MySQL and Redis).
  \<^item> \<open>Worker_Push\<close>: \<open>MetricCollector\<close>, \<open>MonitorPusher\<close>, the worker's \<open>main\<close> and \<open>GrpcManagerImpl\<close>.
    \<open>Report_Types\<close>: what every monitor guarantees of the message it fills, as the manager needs it.
    \<open>Console_Log\<close>: the reports both programs print.
  \<^item> \<open>Manager_Main\<close>: what the manager's \<open>main\<close> creates and how it ends, and the pushes of a fleet of
    workers with the messages they collect as the specification.
  \<^item> This theory: the fleet and the manager from end to end, and a report from its reception to the
    answer of a query.

  \<^bold>\<open>How the code is translated.\<close> A class is a record of its members, an operation a function on it,
  with a branch for every return, error and exception; a call that can throw or has undefined
  behaviour returns a \<open>run\<close> or an option. Unsigned integers are words; signed ones are integers
  with the wrap-around, or the undefined overflow, written out. Clocks, files, environments,
  servers and client libraries are arguments; what the theorems need of a library is a locale or a
  named hypothesis, and the witnesses show that it can hold.

  \<^bold>\<open>What is shown.\<close>
  \<^item> Isolation and identity: no request sees rows outside its scope (\<open>requests_scoped\<close>), every row
    carries its record's scope, only a registered worker with its token changes the manager, and
    a worker's push arrives under the identity of its command line (\<open>push_authorised\<close>, \<open>push_pipeline\<close>).
  \<^item> The whole way: whatever the workers of a fleet collect and in whatever order they push, the
    host manager receives exactly that, each host's messages in order (\<open>fleet_served\<close>), and at
    the end the writers have one record for each accepted message (\<open>fleet_written\<close>). What was
    received and stored is what the queries return (\<open>report_read_back\<close>, \<open>performance_read_back\<close>,
    \<open>details_read_back\<close>), and every row fits its table (\<open>rows_fit_schema\<close>).
  \<^item> Machine code: the object the worker loads into the kernel does what its source says on any
    packets (\<open>object_refines_source\<close>), and loading it never leaks (\<open>ebpf_start_holds_or_releases\<close>).
  \<^item> Ordering and loss: the tasks of a shard are run in the order of acceptance in every
    interleaving; \<open>stop\<close> drains all queues; a record leaves the write queue once, in order, and is
    written by the writer that took it, or is dropped for a newer one (\<open>writers_account\<close>,
    \<open>writers_finish\<close>); a query that finds room is answered as if it had been called directly.
  \<^item> Types: every reading a worker reports is a number the score can be computed from, whatever
    the files and maps hold (\<open>reports_typed_and_scored\<close>).
  \<^item> Numbers: scores between 0 and 100 and antitone in the load, CPU shares, memory share and hit
    rates between 0 and 100, disk rates finite and not negative, with all roundings of the code.
  \<^item> Resources: the pools never lend a connection twice or lose one, a module's initialisation
    holds everything or nothing. The Redis class does what the common pool does, and its guards
    give a connection back once however they are moved.
  \<^item> Text: what the kernel prints, what a configuration lists and, outside daylight saving time,
    what a time is printed as is read back.
  \<^item> Defects: races that leave a running dispatcher without query threads or an accepted push
    unserved, writers that write a host's records out of order, the leak in the MySQL health check,
    swapped columns, a cache key shared between tenants, the overflow of page offsets, load averages read from the wrong device, the rate of
    a network counter that starts again, times of rows that are late in summer.

  \<^bold>\<open>Bounds and fuel.\<close> \<open>join_ingest\<close>, \<open>join_query\<close> and \<open>serve\<close> take one unit per queued task and one for the
  exit; \<open>dispatcher_stop_drains\<close> proves that any fuel above the longest queue gives a result. The
  walk over the eBPF map takes one unit per entry and one for the end; the map has at most 64
  entries, so the collector's 65 are enough (\<open>walk_all\<close>). The compiled programs have 33 instruction
  slots and only jump forward, so 33 steps reach the exit. After \<open>stop\<close> the writers have at most four
  steps per queued record and three each (\<open>work\<close>). All other loops are structural or have a
  measure. Doubles hold the integers below \<open>2 ^ 53\<close>; theorems that need exact sums say so.

  \<^bold>\<open>Not modelled.\<close> Single messages on the error output; the gRPC, MySQL, Redis, folly and libbpf libraries
  and the kernel, which are arguments; the generated header \<open>vmlinux.h\<close> beyond the fields used, and
  the debugging and type sections of the object file in \<open>net_stats.skel.h\<close>; the Go services
  \<open>api_gateway\<close> and \<open>agent_service\<close> with their tables, the web frontend, the deployment files and the
  tests, which are in other languages or no part of the programs. The text a stored number is
  returned as is a parameter (\<open>num\<close>). The ends of \<open>fleet_served\<close> and \<open>fleet_written\<close> take the threads one after the other; their
  interleavings are in \<open>Dispatcher_Threads\<close> and \<open>Writer_Threads\<close>.
\<close>

section \<open>A fleet of workers and its manager\<close>

text \<open>
  C2: From the files of the hosts to the host manager: a manager that \<open>main\<close> has put together in any
  environment and a fleet of workers with identities on hosts with names, pushing in any
  order, each any number of times. As long as the messages fit one shard's queue, every push
  is answered OK, and once the dispatcher has been stopped the host manager has received
  exactly the messages the monitors filled in, each under the identity of the command line
  of the worker that pushed it, shard by shard; the messages of a host in the order in
  which they were pushed, and nothing else has happened to it.
\<close>

theorem fleet_served:
  assumes "task_queue ops items cap" "\<forall>p \<in> set ps. host_last (pu_collector p) \<and> pu_workerID p \<noteq> []"
    and "\<forall>(k, r, now) \<in> set vs. k < length ps \<and> at_hostname r \<noteq> Some []"
    and "fleet_messages vs ps = Returns ms" "length ms \<le> manager_room env hw"
  shows "\<exists>ps' g' d' d'' order. fleet_pushes ops hash vs ps
        (manager_service ops env hw (manager_callback escape db show_double), (clock, manager_hosts mysql env hw))
      = Returns (replicate (length vs) True, ps', (g', (clock, manager_hosts mysql env hw)))
    \<and> gs_dispatcher g' = Some d'
    \<and> dispatcher_stop ops t (Suc (length vs)) (d', (clock, manager_hosts mysql env hw))
      = Some (d'', (clock, fold (receive escape db show_double clock) order (manager_hosts mysql env hw)))
    \<and> order = by_shard hash (manager_shards env hw) ms \<and> mset order = mset ms \<and> (\<forall>h. of_host h order = of_host h ms)"
  using fleet_stopped [OF assms, of hash escape db show_double clock "manager_hosts mysql env hw" t]
    by_shard_mset [OF manager_shards_pos] by_shard_host [OF manager_shards_pos] by metis

theorem fleet_served_witness:
  "\<exists>ms ps' g' d' d'' order. fleet_messages sample_visits sample_fleet = Returns ms \<and> length ms = 2
    \<and> fleet_pushes fifo_ops (\<lambda>_. 7) sample_visits sample_fleet
        (manager_service fifo_ops Map.empty 8 (manager_callback id demo_db (\<lambda>_. [])), (9, manager_hosts True Map.empty 8))
      = Returns ([True, True], ps', (g', (9, manager_hosts True Map.empty 8)))
    \<and> gs_dispatcher g' = Some d'
    \<and> dispatcher_stop fifo_ops 0 3 (d', (9, manager_hosts True Map.empty 8))
      = Some (d'', (9, fold (receive id demo_db (\<lambda>_. []) 9) order (manager_hosts True Map.empty 8)))
    \<and> mset order = mset ms"
proof -
  obtain ms where ms: "fleet_messages sample_visits sample_fleet = Returns ms" "length ms = 2" using sample_fleet_messages by blast
  have vs: "length sample_visits = 2" by (simp add: sample_visits_def)
  from fleet_served [OF fifo_tasks.task_queue_axioms sample_fleet_ok ms(1), of Map.empty 8 "\<lambda>_. 7" id demo_db "\<lambda>_. []" 9 True 0]
  show ?thesis using ms by (auto simp: sample_room vs numeral_2_eq_2 numeral_3_eq_3)
qed

text \<open>
  C3: Nothing is lost on the way to the database: if the messages of a fleet also fit the write
  queue, then what \<open>main\<close> does once \<open>Wait\<close> has returned ends with both components stopped and empty, and the records
  handed to the writers are exactly those due: one for each message of a worker the
  registry accepts, under the host's name, with the scope of the worker's row, the score
  of the message and the time of its reception, in the order of reception.
\<close>

theorem fleet_written:
  assumes "task_queue ops items cap" "\<forall>p \<in> set ps. host_last (pu_collector p) \<and> pu_workerID p \<noteq> []"
    and "\<forall>(k, r, now) \<in> set vs. k < length ps \<and> at_hostname r \<noteq> Some []"
    and "fleet_messages vs ps = Returns ms" "length ms \<le> manager_room env hw"
    and "length ms \<le> write_capacity (manager_hosts mysql env hw)"
  shows "\<exists>ps' g' d' d'' hm' written. fleet_pushes ops hash vs ps
        (manager_service ops env hw (manager_callback escape db show_double), (clock, manager_hosts mysql env hw))
      = Returns (replicate (length vs) True, ps', (g', (clock, manager_hosts mysql env hw)))
    \<and> gs_dispatcher g' = Some d'
    \<and> manager_shutdown ops t (Suc (length vs)) (d', (clock, manager_hosts mysql env hw)) = Some (written, d'', hm')
    \<and> map record_of written = due escape db clock (manager_hosts mysql env hw) (by_shard hash (manager_shards env hw) ms)
    \<and> \<not> running d'' \<and> \<not> hm_running hm' \<and> mysqlWriteQueue hm' = []"
proof -
  let ?hm = "manager_hosts mysql env hw" and ?fuel = "Suc (length vs)" and ?order = "by_shard hash (manager_shards env hw) ms"
  let ?hm' = "fold (receive escape db show_double clock) ?order ?hm"
  obtain ps' g' d' d'' where f: "fleet_pushes ops hash vs ps (manager_service ops env hw (manager_callback escape db show_double), (clock, ?hm))
        = Returns (replicate (length vs) True, ps', (g', (clock, ?hm)))" "gs_dispatcher g' = Some d'" "\<not> running d''"
      "dispatcher_stop ops t ?fuel (d', (clock, ?hm)) = Some (d'', (clock, ?hm'))"
    by (rule fleet_stopped [OF assms(1-5)])
  have ms: "length ms = length vs" "\<forall>m \<in> set ms. resolveHostID (fst m) \<noteq> []"
    using fleet_named [OF _ assms(3,4)] assms(2) by blast+
  have "mset ?order = mset ms" by (rule by_shard_mset [OF manager_shards_pos])
  then have order: "length ?order = length ms" "set ?order = set ms" using mset_eq_length mset_eq_setD by blast+
  have q: "map record_of (mysqlWriteQueue ?hm') = due escape db clock ?hm ?order" "writers ?hm' = writers ?hm"
    using receives_queue [of ?hm ?order escape db show_double clock] assms(6) ms(2) order by (simp_all add: manager_hosts_fresh)
  then have "length (mysqlWriteQueue ?hm') < ?fuel"
    using due_length [of escape db clock ?hm ?order] ms(1) order(1) by (metis length_map le_imp_less_Suc)
  then obtain hm' where "hm_stop ?fuel ?hm' = Some (mysqlWriteQueue ?hm', hm')" "mysqlWriteQueue hm' = []" "\<not> hm_running hm'"
    using hm_stop_writes [of ?hm' ?fuel] q(2) by (auto simp: manager_hosts_fresh)
  then show ?thesis using f q(1) by (fastforce simp: manager_shutdown_def)
qed

theorem fleet_written_witness:
  "\<exists>ms ps' g' d' d'' hm' written. fleet_messages sample_visits sample_fleet = Returns ms \<and> length ms = 2
    \<and> fleet_pushes fifo_ops (\<lambda>_. 7) sample_visits sample_fleet
        (manager_service fifo_ops Map.empty 8 (manager_callback id demo_db (\<lambda>_. [])), (9, manager_hosts True Map.empty 8))
      = Returns ([True, True], ps', (g', (9, manager_hosts True Map.empty 8)))
    \<and> gs_dispatcher g' = Some d'
    \<and> manager_shutdown fifo_ops 0 3 (d', (9, manager_hosts True Map.empty 8)) = Some (written, d'', hm')
    \<and> map record_of written = due id demo_db 9 (manager_hosts True Map.empty 8) (by_shard (\<lambda>_. 7) (manager_shards Map.empty 8) ms)
    \<and> mysqlWriteQueue hm' = []"
proof -
  obtain ms where ms: "fleet_messages sample_visits sample_fleet = Returns ms" "length ms = 2" using sample_fleet_messages by blast
  have vs: "length sample_visits = 2" by (simp add: sample_visits_def)
  have room: "length ms \<le> manager_room Map.empty 8" "length ms \<le> write_capacity (manager_hosts True Map.empty 8)"
    by (simp_all add: ms(2) sample_room)
  from fleet_written [OF fifo_tasks.task_queue_axioms sample_fleet_ok ms(1) room, of "\<lambda>_. 7" id demo_db "\<lambda>_. []" 9 0]
  show ?thesis unfolding vs using ms by (auto simp: numeral_2_eq_2 numeral_3_eq_3)
qed

section \<open>From a report to an answer\<close>

lemma last_received:
  assumes "resolveWorkerScope escape db s w = Some scope" "host_id info \<noteq> []"
  shows "last (mysqlWriteQueue (onDataReceived escape db show_double now info w s))
    = monitoring_data (host_id info) scope \<lparr>hs_info = info, hs_score = calculateScore info, hs_timestamp = now\<rparr>
        (perf_sample info (net_mb ni_rcv_rate info) (net_mb ni_send_rate info) (calculateScore info))
        (case lastPerfSamples s (host_id info) of None \<Rightarrow> zero_PerfSample | Some p \<Rightarrow> p)"
  using assms by (simp add: onDataReceived_def accept_data_def Let_def enqueue_queue)


definition received_row :: Insert where
  "received_row = fst (perf_row (\<lambda>_. ''now'') (last (mysqlWriteQueue (onDataReceived id demo_db (\<lambda>_. []) 5 demo_info
     \<lparr>worker_id = ''w'', worker_token = ''any''\<rparr> demo_manager))) no_samples)"

lemma demo_resolved:
  "resolveWorkerScope id demo_db demo_manager \<lparr>worker_id = ''w'', worker_token = ''any''\<rparr>
     = Some \<lparr>tenant_id = ''t1'', team_id = ''a'', cluster_id = ''c'', server_id = 7\<rparr>"
  "host_id demo_info = ''web1''"
proof -
  have "''7'' = show_nat 7" by code_simp
  then have "strtoul10 ''7'' = (7, [])" using strtoul10_show_nat [of 7] by simp
  then show "resolveWorkerScope id demo_db demo_manager \<lparr>worker_id = ''w'', worker_token = ''any''\<rparr>
     = Some \<lparr>tenant_id = ''t1'', team_id = ''a'', cluster_id = ''c'', server_id = 7\<rparr>"
    by (simp add: resolveWorkerScope_def demo_manager_def configure_def demo_db_def Let_def text_of_def)
qed (simp add: host_id_def demo_info_def default_MonitorInfo_def)

lemma received_storable: "storable demo_text perf_select received_row"
  unfolding received_row_def last_received [OF demo_resolved(1), of demo_info, unfolded demo_resolved(2), simplified]
    perf_row_def Let_def fst_conv
  by (subst storable_insert_row [OF _ columns_distinct(1)])
    (simp_all add: monitoring_data_def Let_def perf_values_def cells_simps in_column_def in_buffer_def demo_text_def)


end
